theory Spec2Isabelle
  imports Main "HOL-Library.AList" "HOL-Library.Multiset"
begin

section \<open>The message and thread store of src/global/reducers/messages.ts\<close>

text \<open>
  Every reducer of the file is a pure function from the old global state to the new one.
  The model keeps that shape: objects with a fixed set of optional keys are records of
  \<open>option\<close> fields, objects indexed by an id are maps, and objects or arrays that the
  code enumerates are lists. A key holding \<open>undefined\<close> and a missing key read the same
  way in the code, so in a stored object both are \<open>None\<close>. A patch of a message that is
  spread over the stored message is different: the spread copies every key that the
  patch holds, also one held with the value \<open>undefined\<close>, so a patch tells the two apart.
\<close>

subsection \<open>Constants and helpers that the file imports\<close>

text \<open>
  Modelled from the spec: the constant \<open>MAIN_THREAD_ID\<close> of api/types is not in src/;
  it is the id of the main timeline of a chat.
\<close>

definition MAIN_THREAD_ID :: int where
  "MAIN_THREAD_ID = -1"

text \<open>
  The constants of src/config are not in src/ and are taken as a parameter.
\<close>

record Config =
  IS_TEST :: bool
  IS_MOCKED_CLIENT :: bool
  TMP_CHAT_ID :: string
  MESSAGE_LIST_SLICE :: nat
  MESSAGE_LIST_VIEWPORT_LIMIT :: nat

text \<open>
  Modelled from the spec: \<open>orderHistoryIds\<close> and \<open>orderPinnedIds\<close> of global/helpers
  are not in src/. Ascending numeric order is the canonical history order, and the
  pinned ids are kept ascending as well. The source calls \<open>orderHistoryIds(messageIds)\<close>
  for its effect on the array, so the model rebinds the array to the result.
\<close>

definition orderHistoryIds :: "int list \<Rightarrow> int list" where
  "orderHistoryIds listedIds = sort listedIds"

definition orderPinnedIds :: "int list \<Rightarrow> int list" where
  "orderPinnedIds pinnedIds = sort pinnedIds"

text \<open>
  Modelled from the spec: \<open>excludeSortedArray\<close> of util/iteratees is not in src/. It is
  the sorted-array subtraction, one linear merge over the two ascending arrays, and it
  keeps the order of the base array.
\<close>

fun excludeSortedArray :: "int list \<Rightarrow> int list \<Rightarrow> int list" where
  "excludeSortedArray [] toExclude = []"
| "excludeSortedArray (x # base) [] = x # base"
| "excludeSortedArray (x # base) (y # toExclude) =
     (if x = y then excludeSortedArray base (y # toExclude)
      else if x < y then x # excludeSortedArray base (y # toExclude)
      else excludeSortedArray (x # base) toExclude)"

text \<open>
  Modelled from the spec: \<open>omit\<close>, \<open>unique\<close> and \<open>pickTruthy\<close> of util/iteratees are
  not in src/. \<open>omit\<close> copies an object without the given keys, \<open>unique\<close> drops
  repeated elements and keeps the first occurrence of each, and
  \<open>Object.values(pickTruthy(byId, ids))\<close> lists the stored entities of the given ids,
  each once, in ascending order of the id.
\<close>

definition omit :: "('k \<rightharpoonup> 'v) \<Rightarrow> 'k list \<Rightarrow> ('k \<rightharpoonup> 'v)" where
  "omit object keys = (\<lambda>k. if k \<in> set keys then None else object k)"

definition unique :: "'a list \<Rightarrow> 'a list" where
  "unique array = rev (remdups (rev array))"

definition pickTruthyValues :: "(int \<rightharpoonup> 'v) \<Rightarrow> int list \<Rightarrow> 'v list" where
  "pickTruthyValues object keys = List.map_filter object (remdups (sort keys))"

text \<open>
  The spread \<open>{...old, ...new}\<close> on one key, for a new object that gives the key a value
  or leaves it out.
\<close>

definition orElse :: "'a option \<Rightarrow> 'a option \<Rightarrow> 'a option" where
  "orElse new old = (case new of None \<Rightarrow> old | Some v \<Rightarrow> Some v)"

text \<open>
  Arrays: \<open>indexOf\<close> answers \<open>-1\<close> for a missing element, and \<open>slice\<close> counts a
  negative bound from the end of the array.
\<close>

fun indexOf :: "'a list \<Rightarrow> 'a \<Rightarrow> int" where
  "indexOf [] x = -1"
| "indexOf (y # ys) x =
     (if y = x then 0 else (let i = indexOf ys x in if i < 0 then -1 else i + 1))"

definition sliceBound :: "nat \<Rightarrow> int \<Rightarrow> nat" where
  "sliceBound len i = (if i < 0 then nat (max (int len + i) 0) else min (nat i) len)"

definition slice :: "'a list \<Rightarrow> int \<Rightarrow> int \<Rightarrow> 'a list" where
  "slice array from to =
     (let a = sliceBound (length array) from; b = sliceBound (length array) to
      in take (b - a) (drop a array))"

text \<open>
  \<open>array.slice(-n)\<close> for \<open>n \<ge> 0\<close>: the last \<open>n\<close> elements, and the whole array
  when \<open>n\<close> is \<open>0\<close> (\<open>-0\<close> is not negative).
\<close>

definition sliceLast :: "'a list \<Rightarrow> nat \<Rightarrow> 'a list" where
  "sliceLast array n = (if n = 0 then array else drop (length array - n) array)"

subsection \<open>Entities\<close>

record Video =
  isRound :: "bool option"

record MessageContent =
  caption :: "string option"
  voice :: "string option"
  video :: "Video option"
  ttlSeconds :: "int option"
  isExpiredVoice :: "bool option"
  isExpiredRoundVideo :: "bool option"

record ForwardInfo =
  isLinkedChannelPost :: "bool option"
  fromChatId :: "string option"
  fromMessageId :: "int option"

text \<open>\<open>ApiMessage\<close>, a stored message.\<close>

record ApiMessage =
  msg_id :: "int option"
  msg_chatId :: "string option"
  msg_isMediaUnread :: "bool option"
  msg_content :: "MessageContent option"
  msg_forwardInfo :: "ForwardInfo option"

definition emptyMessage :: ApiMessage where
  "emptyMessage = \<lparr>msg_id = None, msg_chatId = None, msg_isMediaUnread = None,
     msg_content = None, msg_forwardInfo = None\<rparr>"

definition emptyContent :: MessageContent where
  "emptyContent = \<lparr>caption = None, voice = None, video = None, ttlSeconds = None,
     isExpiredVoice = None, isExpiredRoundVideo = None\<rparr>"

text \<open>
  \<open>Partial<ApiMessage>\<close>, the patch of a message. Each key of the patch is missing, or
  held with a value, or held with the value \<open>undefined\<close> (\<open>Held None\<close>).
\<close>

datatype 'a PatchKey = Missing | Held "'a option"

record PartialApiMessage =
  upd_id :: "int PatchKey"
  upd_chatId :: "string PatchKey"
  upd_isMediaUnread :: "bool PatchKey"
  upd_content :: "MessageContent PatchKey"
  upd_forwardInfo :: "ForwardInfo PatchKey"

definition emptyPatch :: PartialApiMessage where
  "emptyPatch = \<lparr>upd_id = Missing, upd_chatId = Missing, upd_isMediaUnread = Missing,
     upd_content = Missing, upd_forwardInfo = Missing\<rparr>"

text \<open>
  The spread on one key: a key that the patch holds replaces the stored one, also when
  it is held with \<open>undefined\<close>; a missing key leaves the stored one. \<open>readKey\<close> is what
  a key of the patch reads as.
\<close>

definition spreadKey :: "'a option \<Rightarrow> 'a PatchKey \<Rightarrow> 'a option" where
  "spreadKey old new = (case new of Missing \<Rightarrow> old | Held v \<Rightarrow> v)"

definition readKey :: "'a PatchKey \<Rightarrow> 'a option" where
  "readKey key = (case key of Missing \<Rightarrow> None | Held v \<Rightarrow> v)"

text \<open>\<open>{...message, ...messageUpdate}\<close>: the keys of the patch win, the others stay.\<close>

definition spreadMessage :: "ApiMessage \<Rightarrow> PartialApiMessage \<Rightarrow> ApiMessage" where
  "spreadMessage message messageUpdate =
     \<lparr>msg_id = spreadKey (msg_id message) (upd_id messageUpdate),
      msg_chatId = spreadKey (msg_chatId message) (upd_chatId messageUpdate),
      msg_isMediaUnread = spreadKey (msg_isMediaUnread message) (upd_isMediaUnread messageUpdate),
      msg_content = spreadKey (msg_content message) (upd_content messageUpdate),
      msg_forwardInfo = spreadKey (msg_forwardInfo message) (upd_forwardInfo messageUpdate)\<rparr>"

text \<open>
  Two readings that the properties of the message table are stated with:
  \<open>patchAlone\<close> is the object \<open>{...messageUpdate}\<close>, the keys of a patch and nothing
  else, and \<open>patchOfMessage\<close> is a whole message taken as a patch of the keys that it
  gives a value.
\<close>

definition patchAlone :: "PartialApiMessage \<Rightarrow> ApiMessage" where
  "patchAlone messageUpdate =
     \<lparr>msg_id = readKey (upd_id messageUpdate),
      msg_chatId = readKey (upd_chatId messageUpdate),
      msg_isMediaUnread = readKey (upd_isMediaUnread messageUpdate),
      msg_content = readKey (upd_content messageUpdate),
      msg_forwardInfo = readKey (upd_forwardInfo messageUpdate)\<rparr>"

definition givenKey :: "'a option \<Rightarrow> 'a PatchKey" where
  "givenKey field = (case field of None \<Rightarrow> Missing | Some v \<Rightarrow> Held (Some v))"

definition patchOfMessage :: "ApiMessage \<Rightarrow> PartialApiMessage" where
  "patchOfMessage message =
     \<lparr>upd_id = givenKey (msg_id message),
      upd_chatId = givenKey (msg_chatId message),
      upd_isMediaUnread = givenKey (msg_isMediaUnread message),
      upd_content = givenKey (msg_content message),
      upd_forwardInfo = givenKey (msg_forwardInfo message)\<rparr>"

record ApiThreadInfo =
  ti_isCommentsInfo :: "bool option"
  ti_chatId :: "string option"
  ti_threadId :: "int option"
  ti_originChannelId :: "string option"
  ti_originMessageId :: "int option"
  ti_fromChannelId :: "string option"
  ti_fromMessageId :: "int option"
  ti_messagesCount :: "int option"
  ti_lastMessageId :: "int option"
  ti_lastReadInboxMessageId :: "int option"

definition emptyThreadInfo :: ApiThreadInfo where
  "emptyThreadInfo = \<lparr>ti_isCommentsInfo = None, ti_chatId = None, ti_threadId = None,
     ti_originChannelId = None, ti_originMessageId = None, ti_fromChannelId = None,
     ti_fromMessageId = None, ti_messagesCount = None, ti_lastMessageId = None,
     ti_lastReadInboxMessageId = None\<rparr>"

text \<open>
  \<open>{...threadInfo, ...update}\<close>. An update of the thread info is read as the keys that
  it gives a value: the updates that this file builds are \<open>{messagesCount: n}\<close> with a
  number \<open>n\<close> and the picked fields of a merged info.
\<close>

definition spreadThreadInfo :: "ApiThreadInfo \<Rightarrow> ApiThreadInfo \<Rightarrow> ApiThreadInfo" where
  "spreadThreadInfo info update =
     \<lparr>ti_isCommentsInfo = orElse (ti_isCommentsInfo update) (ti_isCommentsInfo info),
      ti_chatId = orElse (ti_chatId update) (ti_chatId info),
      ti_threadId = orElse (ti_threadId update) (ti_threadId info),
      ti_originChannelId = orElse (ti_originChannelId update) (ti_originChannelId info),
      ti_originMessageId = orElse (ti_originMessageId update) (ti_originMessageId info),
      ti_fromChannelId = orElse (ti_fromChannelId update) (ti_fromChannelId info),
      ti_fromMessageId = orElse (ti_fromMessageId update) (ti_fromMessageId info),
      ti_messagesCount = orElse (ti_messagesCount update) (ti_messagesCount info),
      ti_lastMessageId = orElse (ti_lastMessageId update) (ti_lastMessageId info),
      ti_lastReadInboxMessageId =
        orElse (ti_lastReadInboxMessageId update) (ti_lastReadInboxMessageId info)\<rparr>"

record Thread =
  listedIds :: "int list option"
  outlyingLists :: "int list list option"
  pinnedIds :: "int list option"
  scheduledIds :: "int list option"
  threadInfo :: "ApiThreadInfo option"
  lastViewportIds :: "int list option"

definition emptyThread :: Thread where
  "emptyThread = \<lparr>listedIds = None, outlyingLists = None, pinnedIds = None,
     scheduledIds = None, threadInfo = None, lastViewportIds = None\<rparr>"

text \<open>
  One key of a thread with its new value: the pair \<open>paramName\<close>, \<open>newValue\<close> of
  \<open>replaceThreadParam\<close>. A \<open>Partial<Thread>\<close> is a list of them.
\<close>

datatype ThreadParam =
  P_listedIds "int list option"
| P_outlyingLists "int list list option"
| P_pinnedIds "int list option"
| P_scheduledIds "int list option"
| P_threadInfo "ApiThreadInfo option"
| P_lastViewportIds "int list option"

fun setThreadParam :: "Thread \<Rightarrow> ThreadParam \<Rightarrow> Thread" where
  "setThreadParam t (P_listedIds v) = t\<lparr>listedIds := v\<rparr>"
| "setThreadParam t (P_outlyingLists v) = t\<lparr>outlyingLists := v\<rparr>"
| "setThreadParam t (P_pinnedIds v) = t\<lparr>pinnedIds := v\<rparr>"
| "setThreadParam t (P_scheduledIds v) = t\<lparr>scheduledIds := v\<rparr>"
| "setThreadParam t (P_threadInfo v) = t\<lparr>threadInfo := v\<rparr>"
| "setThreadParam t (P_lastViewportIds v) = t\<lparr>lastViewportIds := v\<rparr>"

definition spreadThread :: "Thread \<Rightarrow> ThreadParam list \<Rightarrow> Thread" where
  "spreadThread current threadUpdate = foldl setThreadParam current threadUpdate"

record TabThread =
  viewportIds :: "int list option"

definition emptyTabThread :: TabThread where
  "emptyTabThread = \<lparr>viewportIds = None\<rparr>"

datatype MessageListType = LT_thread | LT_pinned | LT_scheduled

record MessageList =
  ml_chatId :: string
  ml_threadId :: int
  ml_type :: MessageListType

record SelectedMessages =
  sel_chatId :: string
  sel_messageIds :: "int list"

text \<open>
  The state of one tab. \<open>byTabId\<close> is enumerated by the code, which reads the key of
  each tab state from its \<open>id\<close>; the model keeps the tab states as a list of pairs of
  that id and the rest of the state.
\<close>

record TabState =
  messageLists :: "MessageList list"
  tabThreads :: "string \<rightharpoonup> (int \<rightharpoonup> TabThread)"
  selectedMessages :: "SelectedMessages option"

definition emptyTabState :: TabState where
  "emptyTabState = \<lparr>messageLists = [], tabThreads = Map.empty, selectedMessages = None\<rparr>"

text \<open>One key of a tab state with its new value: the \<open>Partial<TabState>\<close> of a call.\<close>

datatype TabStateParam =
  P_messageLists "MessageList list"
| P_tabThreads "string \<rightharpoonup> (int \<rightharpoonup> TabThread)"
| P_selectedMessages "SelectedMessages option"

fun setTabStateParam :: "TabState \<Rightarrow> TabStateParam \<Rightarrow> TabState" where
  "setTabStateParam s (P_messageLists v) = s\<lparr>messageLists := v\<rparr>"
| "setTabStateParam s (P_tabThreads v) = s\<lparr>tabThreads := v\<rparr>"
| "setTabStateParam s (P_selectedMessages v) = s\<lparr>selectedMessages := v\<rparr>"

text \<open>
  \<open>MessageStoreSections\<close>: the messages of a chat by id, and its threads by id. The
  threads are enumerated by \<open>deleteChatScheduledMessages\<close>, so they are an association
  list, read with \<open>map_of\<close> and written with \<open>AList.update\<close>.
\<close>

record MessageStore =
  byId :: "int \<rightharpoonup> ApiMessage"
  threadsById :: "(int \<times> Thread) list"

record ScheduledStore =
  sch_byId :: "int \<rightharpoonup> ApiMessage"
  sch_hash :: "int option"

record GlobalState =
  messages_byChatId :: "string \<rightharpoonup> MessageStore"
  scheduledMessages_byChatId :: "string \<rightharpoonup> ScheduledStore"
  byTabId :: "(int \<times> TabState) list"

subsection \<open>Selectors\<close>

text \<open>
  Modelled from the spec: the selectors of global/selectors and \<open>updateTabState\<close> of
  reducers/tabs are not in src/. They are the read-only accessors of the store: each
  follows the keys of its name and answers \<open>undefined\<close> when a key on the way is
  missing. The callers read the state of a tab without a guard; a tab id with no
  entry reads as a tab state with no key set.
\<close>

definition selectTabState :: "GlobalState \<Rightarrow> int \<Rightarrow> TabState" where
  "selectTabState global tabId =
     (case map_of (byTabId global) tabId of None \<Rightarrow> emptyTabState | Some s \<Rightarrow> s)"

definition updateTabState :: "GlobalState \<Rightarrow> TabStateParam \<Rightarrow> int \<Rightarrow> GlobalState" where
  "updateTabState global tabStatePartial tabId =
     global\<lparr>byTabId :=
       AList.update tabId (setTabStateParam (selectTabState global tabId) tabStatePartial)
         (byTabId global)\<rparr>"

definition selectChatMessages :: "GlobalState \<Rightarrow> string \<Rightarrow> (int \<rightharpoonup> ApiMessage) option" where
  "selectChatMessages global chatId = map_option byId (messages_byChatId global chatId)"

definition selectChatMessage :: "GlobalState \<Rightarrow> string \<Rightarrow> int \<Rightarrow> ApiMessage option" where
  "selectChatMessage global chatId messageId =
     (case selectChatMessages global chatId of None \<Rightarrow> None | Some m \<Rightarrow> m messageId)"

definition selectChatScheduledMessages ::
  "GlobalState \<Rightarrow> string \<Rightarrow> (int \<rightharpoonup> ApiMessage) option" where
  "selectChatScheduledMessages global chatId =
     map_option sch_byId (scheduledMessages_byChatId global chatId)"

definition selectScheduledMessage :: "GlobalState \<Rightarrow> string \<Rightarrow> int \<Rightarrow> ApiMessage option" where
  "selectScheduledMessage global chatId messageId =
     (case selectChatScheduledMessages global chatId of None \<Rightarrow> None | Some m \<Rightarrow> m messageId)"

definition selectThread :: "GlobalState \<Rightarrow> string \<Rightarrow> int \<Rightarrow> Thread option" where
  "selectThread global chatId threadId =
     (case messages_byChatId global chatId of
        None \<Rightarrow> None
      | Some store \<Rightarrow> map_of (threadsById store) threadId)"

definition selectThreadParam ::
  "GlobalState \<Rightarrow> string \<Rightarrow> int \<Rightarrow> (Thread \<Rightarrow> 'a option) \<Rightarrow> 'a option" where
  "selectThreadParam global chatId threadId key =
     (case selectThread global chatId threadId of None \<Rightarrow> None | Some t \<Rightarrow> key t)"

definition selectThreadInfo :: "GlobalState \<Rightarrow> string \<Rightarrow> int \<Rightarrow> ApiThreadInfo option" where
  "selectThreadInfo global chatId threadId = selectThreadParam global chatId threadId threadInfo"

definition selectListedIds :: "GlobalState \<Rightarrow> string \<Rightarrow> int \<Rightarrow> int list option" where
  "selectListedIds global chatId threadId = selectThreadParam global chatId threadId listedIds"

definition selectOutlyingLists :: "GlobalState \<Rightarrow> string \<Rightarrow> int \<Rightarrow> int list list option" where
  "selectOutlyingLists global chatId threadId =
     selectThreadParam global chatId threadId outlyingLists"

definition selectPinnedIds :: "GlobalState \<Rightarrow> string \<Rightarrow> int \<Rightarrow> int list option" where
  "selectPinnedIds global chatId threadId = selectThreadParam global chatId threadId pinnedIds"

definition selectScheduledIds :: "GlobalState \<Rightarrow> string \<Rightarrow> int \<Rightarrow> int list option" where
  "selectScheduledIds global chatId threadId =
     selectThreadParam global chatId threadId scheduledIds"

definition selectTabThread :: "GlobalState \<Rightarrow> string \<Rightarrow> int \<Rightarrow> int \<Rightarrow> TabThread option" where
  "selectTabThread global chatId threadId tabId =
     (case tabThreads (selectTabState global tabId) chatId of
        None \<Rightarrow> None
      | Some threads \<Rightarrow> threads threadId)"

definition selectViewportIds :: "GlobalState \<Rightarrow> string \<Rightarrow> int \<Rightarrow> int \<Rightarrow> int list option" where
  "selectViewportIds global chatId threadId tabId =
     (case selectTabThread global chatId threadId tabId of
        None \<Rightarrow> None
      | Some t \<Rightarrow> viewportIds t)"

definition selectCurrentMessageList :: "GlobalState \<Rightarrow> int \<Rightarrow> MessageList option" where
  "selectCurrentMessageList global tabId =
     (case messageLists (selectTabState global tabId) of
        [] \<Rightarrow> None
      | l # ls \<Rightarrow> Some (last (l # ls)))"

definition selectCurrentMessageIds ::
  "GlobalState \<Rightarrow> string \<Rightarrow> int \<Rightarrow> MessageListType \<Rightarrow> int \<Rightarrow> int list option" where
  "selectCurrentMessageIds global chatId threadId messageListType tabId =
     (case messageListType of
        LT_thread \<Rightarrow> selectViewportIds global chatId threadId tabId
      | LT_pinned \<Rightarrow> selectPinnedIds global chatId threadId
      | LT_scheduled \<Rightarrow> selectScheduledIds global chatId threadId)"

subsection \<open>The message store\<close>

definition updateMessageStore_byId ::
  "GlobalState \<Rightarrow> string \<Rightarrow> (int \<rightharpoonup> ApiMessage) \<Rightarrow> GlobalState" where
  "updateMessageStore_byId global chatId newById =
     (let current = (case messages_byChatId global chatId of
                       None \<Rightarrow> \<lparr>byId = Map.empty, threadsById = []\<rparr>
                     | Some store \<Rightarrow> store)
      in global\<lparr>messages_byChatId :=
           (messages_byChatId global)(chatId \<mapsto> current\<lparr>byId := newById\<rparr>)\<rparr>)"

definition updateMessageStore_threadsById ::
  "GlobalState \<Rightarrow> string \<Rightarrow> (int \<times> Thread) list \<Rightarrow> GlobalState" where
  "updateMessageStore_threadsById global chatId newThreadsById =
     (let current = (case messages_byChatId global chatId of
                       None \<Rightarrow> \<lparr>byId = Map.empty, threadsById = []\<rparr>
                     | Some store \<Rightarrow> store)
      in global\<lparr>messages_byChatId :=
           (messages_byChatId global)(chatId \<mapsto> current\<lparr>threadsById := newThreadsById\<rparr>)\<rparr>)"

definition replaceChatMessages ::
  "GlobalState \<Rightarrow> string \<Rightarrow> (int \<rightharpoonup> ApiMessage) \<Rightarrow> GlobalState" where
  "replaceChatMessages global chatId newById = updateMessageStore_byId global chatId newById"

text \<open>
  \<open>addChatMessagesById\<close>: the batch \<open>newById\<close> is enumerated (\<open>Object.keys\<close>), so it is
  an association list. A stored message is an object, hence truthy.
\<close>

definition addChatMessagesById ::
  "GlobalState \<Rightarrow> string \<Rightarrow> (int \<times> ApiMessage) list \<Rightarrow> GlobalState" where
  "addChatMessagesById global chatId newById =
     (case selectChatMessages global chatId of
        None \<Rightarrow> replaceChatMessages global chatId (map_of newById)
      | Some byId' \<Rightarrow>
          if list_all (\<lambda>newId. byId' newId \<noteq> None) (map fst newById) then global
          else replaceChatMessages global chatId (map_of newById ++ byId'))"

text \<open>
  Modelled from the spec: \<open>hasMessageTtl\<close> of global/helpers is not in src/; it tells
  a message with a time-to-live.
\<close>

definition hasMessageTtl :: "ApiMessage \<Rightarrow> bool" where
  "hasMessageTtl message =
     (case msg_content message of None \<Rightarrow> False | Some c \<Rightarrow> ttlSeconds c \<noteq> None)"

definition truthyId :: "int option \<Rightarrow> bool" where
  "truthyId v = (case v of None \<Rightarrow> False | Some n \<Rightarrow> n \<noteq> 0)"

definition truthyStr :: "string option \<Rightarrow> bool" where
  "truthyStr v = (case v of None \<Rightarrow> False | Some s \<Rightarrow> s \<noteq> [])"

definition truthyBool :: "bool option \<Rightarrow> bool" where
  "truthyBool v = (case v of None \<Rightarrow> False | Some b \<Rightarrow> b)"

text \<open>
  The first part of \<open>updateChatMessage\<close>: clearing the unread flag of a message with a
  time-to-live rewrites the content of the patch. \<open>...messageUpdate.content\<close> spreads
  nothing when the patch has no content.
\<close>

definition expireMedia :: "ApiMessage option \<Rightarrow> PartialApiMessage \<Rightarrow> PartialApiMessage" where
  "expireMedia message messageUpdate =
     (case message of
        None \<Rightarrow> messageUpdate
      | Some m \<Rightarrow>
          if upd_isMediaUnread messageUpdate = Held (Some False) \<and> hasMessageTtl m then
            (let c = (case msg_content m of None \<Rightarrow> emptyContent | Some c \<Rightarrow> c);
                 u = (case readKey (upd_content messageUpdate) of
                        None \<Rightarrow> emptyContent
                      | Some u \<Rightarrow> u)
             in if voice c \<noteq> None then
                  messageUpdate\<lparr>upd_content :=
                    Held (Some (u\<lparr>voice := None, isExpiredVoice := Some True\<rparr>))\<rparr>
                else if truthyBool (case video c of None \<Rightarrow> None | Some v \<Rightarrow> isRound v) then
                  messageUpdate\<lparr>upd_content :=
                    Held (Some (u\<lparr>video := None, isExpiredRoundVideo := Some True\<rparr>))\<rparr>
                else messageUpdate)
          else messageUpdate)"

text \<open>
  \<open>updatedMessage\<close>, the spread of the stored message, or of nothing, and the patch.
\<close>

definition updatedMessageOf :: "ApiMessage option \<Rightarrow> PartialApiMessage \<Rightarrow> ApiMessage" where
  "updatedMessageOf message messageUpdate =
     spreadMessage (case message of None \<Rightarrow> emptyMessage | Some m \<Rightarrow> m) messageUpdate"

definition updateChatMessage ::
  "GlobalState \<Rightarrow> string \<Rightarrow> int \<Rightarrow> PartialApiMessage \<Rightarrow> GlobalState" where
  "updateChatMessage global chatId messageId messageUpdate =
     (let byId' = (case selectChatMessages global chatId of None \<Rightarrow> Map.empty | Some m \<Rightarrow> m);
          message = byId' messageId;
          updatedMessage = updatedMessageOf message (expireMedia message messageUpdate)
      in if \<not> truthyId (msg_id updatedMessage) then global
         else replaceChatMessages global chatId (byId'(messageId \<mapsto> updatedMessage)))"

definition updateScheduledMessages ::
  "GlobalState \<Rightarrow> string \<Rightarrow> (int \<times> ApiMessage) list \<Rightarrow> GlobalState" where
  "updateScheduledMessages global chatId newById =
     (let current = (case scheduledMessages_byChatId global chatId of
                       None \<Rightarrow> \<lparr>sch_byId = Map.empty, sch_hash = Some 0\<rparr>
                     | Some store \<Rightarrow> store)
      in global\<lparr>scheduledMessages_byChatId :=
           (scheduledMessages_byChatId global)
             (chatId \<mapsto> current\<lparr>sch_byId := sch_byId current ++ map_of newById\<rparr>)\<rparr>)"

definition updateScheduledMessage ::
  "GlobalState \<Rightarrow> string \<Rightarrow> int \<Rightarrow> PartialApiMessage \<Rightarrow> GlobalState" where
  "updateScheduledMessage global chatId messageId messageUpdate =
     (let message = selectScheduledMessage global chatId messageId;
          updatedMessage = updatedMessageOf message messageUpdate
      in if \<not> truthyId (msg_id updatedMessage) then global
         else updateScheduledMessages global chatId [(messageId, updatedMessage)])"

subsection \<open>Threads and tab threads\<close>

text \<open>
  \<open>omit\<close> on the threads of a chat, which are kept as an association list.
\<close>

definition omitEntries :: "('k \<times> 'v) list \<Rightarrow> 'k list \<Rightarrow> ('k \<times> 'v) list" where
  "omitEntries object keys = filter (\<lambda>entry. fst entry \<notin> set keys) object"

text \<open>\<open>global.messages.byChatId[chatId]?.threadsById\<close>, empty when the chat has no store.\<close>

definition chatThreads :: "GlobalState \<Rightarrow> string \<Rightarrow> (int \<times> Thread) list" where
  "chatThreads global chatId =
     (case messages_byChatId global chatId of None \<Rightarrow> [] | Some store \<Rightarrow> threadsById store)"

definition updateThread ::
  "GlobalState \<Rightarrow> string \<Rightarrow> int \<Rightarrow> ThreadParam list option \<Rightarrow> GlobalState" where
  "updateThread global chatId threadId threadUpdate =
     (let threads = chatThreads global chatId
      in case threadUpdate of
           None \<Rightarrow> updateMessageStore_threadsById global chatId (omitEntries threads [threadId])
         | Some update \<Rightarrow>
             updateMessageStore_threadsById global chatId
               (AList.update threadId
                  (spreadThread
                     (case map_of threads threadId of None \<Rightarrow> emptyThread | Some t \<Rightarrow> t) update)
                  threads))"

definition replaceThreadParam ::
  "GlobalState \<Rightarrow> string \<Rightarrow> int \<Rightarrow> ThreadParam \<Rightarrow> GlobalState" where
  "replaceThreadParam global chatId threadId param =
     updateThread global chatId threadId (Some [param])"

text \<open>
  One key of a tab thread with its new value. The file itself only writes
  \<open>viewportIds\<close>; \<open>P_otherTabThreadParam\<close> stands for the keys that other files write.
\<close>

datatype TabThreadParam =
  P_viewportIds "int list option"
| P_otherTabThreadParam

fun setTabThreadParam :: "TabThread \<Rightarrow> TabThreadParam \<Rightarrow> TabThread" where
  "setTabThreadParam t (P_viewportIds v) = t\<lparr>viewportIds := v\<rparr>"
| "setTabThreadParam t P_otherTabThreadParam = t"

definition updateTabThread ::
  "GlobalState \<Rightarrow> string \<Rightarrow> int \<Rightarrow> TabThreadParam \<Rightarrow> int \<Rightarrow> GlobalState" where
  "updateTabThread global chatId threadId threadUpdate tabId =
     (let tabState = selectTabState global tabId;
          ofChat = (case tabThreads tabState chatId of None \<Rightarrow> Map.empty | Some m \<Rightarrow> m);
          current = (case ofChat threadId of None \<Rightarrow> emptyTabThread | Some t \<Rightarrow> t)
      in updateTabState global
           (P_tabThreads
              ((tabThreads tabState)
                 (chatId \<mapsto> ofChat(threadId \<mapsto> setTabThreadParam current threadUpdate))))
           tabId)"

definition replaceTabThreadParam ::
  "GlobalState \<Rightarrow> string \<Rightarrow> int \<Rightarrow> TabThreadParam \<Rightarrow> int \<Rightarrow> GlobalState" where
  "replaceTabThreadParam global chatId threadId param tabId =
     (let global' = (case param of
                       P_viewportIds newValue \<Rightarrow>
                         replaceThreadParam global chatId threadId (P_lastViewportIds newValue)
                     | P_otherTabThreadParam \<Rightarrow> global)
      in updateTabThread global' chatId threadId param tabId)"

text \<open>
  \<open>updateCurrentMessageList\<close>. The optional parameters are \<open>option\<close>s; a missing
  \<open>threadId\<close> is the main thread and a missing \<open>type\<close> is \<open>'thread'\<close>.
\<close>

definition updateCurrentMessageList ::
  "Config \<Rightarrow> GlobalState \<Rightarrow> string option \<Rightarrow> int option \<Rightarrow> MessageListType option \<Rightarrow>
     bool \<Rightarrow> bool \<Rightarrow> int \<Rightarrow> GlobalState" where
  "updateCurrentMessageList cfg global chatId threadId' type' shouldReplaceHistory
       shouldReplaceLast tabId =
     (let threadId = (case threadId' of None \<Rightarrow> MAIN_THREAD_ID | Some t \<Rightarrow> t);
          type = (case type' of None \<Rightarrow> LT_thread | Some t \<Rightarrow> t);
          lists = messageLists (selectTabState global tabId);
          entry = \<lparr>ml_chatId = (case chatId of None \<Rightarrow> [] | Some c \<Rightarrow> c),
                   ml_threadId = threadId, ml_type = type\<rparr>;
          newMessageLists =
            (if shouldReplaceHistory \<or> (IS_TEST cfg \<and> \<not> IS_MOCKED_CLIENT cfg) then
               (if truthyStr chatId then [entry] else [])
             else if truthyStr chatId then
               (case lists of
                  [] \<Rightarrow> lists @ [entry]
                | l # ls \<Rightarrow>
                    if last lists \<noteq> entry then
                      (if ml_chatId (last lists) = TMP_CHAT_ID cfg \<or> shouldReplaceLast
                       then butlast lists @ [entry]
                       else lists @ [entry])
                    else lists)
             else butlast lists)
      in updateTabState global (P_messageLists newMessageLists) tabId)"

subsection \<open>The viewport\<close>

text \<open>\<open>selectViewportIds(...) || []\<close>.\<close>

definition viewportOrEmpty :: "GlobalState \<Rightarrow> string \<Rightarrow> int \<Rightarrow> int \<Rightarrow> int list" where
  "viewportOrEmpty global chatId threadId tabId =
     (case selectViewportIds global chatId threadId tabId of None \<Rightarrow> [] | Some v \<Rightarrow> v)"

text \<open>
  \<open>addViewportId\<close>. \<open>MESSAGE_LIST_SLICE / 2\<close> is a bound of \<open>slice\<close>, which drops
  the fraction, so the half slice is \<open>MESSAGE_LIST_SLICE div 2\<close>.
\<close>

definition addViewportId ::
  "Config \<Rightarrow> GlobalState \<Rightarrow> string \<Rightarrow> int \<Rightarrow> int \<Rightarrow> int \<Rightarrow> GlobalState" where
  "addViewportId cfg global chatId threadId newId tabId =
     (let viewport = viewportOrEmpty global chatId threadId tabId
      in if newId \<in> set viewport then global
         else
           (let newIds = orderHistoryIds
                  ((if length viewport < MESSAGE_LIST_VIEWPORT_LIMIT cfg then viewport
                    else sliceLast viewport (MESSAGE_LIST_SLICE cfg div 2)) @ [newId])
            in replaceTabThreadParam global chatId threadId (P_viewportIds (Some newIds)) tabId))"

subsection \<open>Thread info\<close>

text \<open>
  Modelled from the spec: \<open>pick\<close> of util/iteratees is not in src/. The restricted
  field set that goes to the linked thread is \<open>messagesCount\<close>, \<open>lastMessageId\<close> and
  \<open>lastReadInboxMessageId\<close> of the merged info.
\<close>

definition pickLinked :: "ApiThreadInfo \<Rightarrow> ApiThreadInfo" where
  "pickLinked info = emptyThreadInfo\<lparr>ti_messagesCount := ti_messagesCount info,
     ti_lastMessageId := ti_lastMessageId info,
     ti_lastReadInboxMessageId := ti_lastReadInboxMessageId info\<rparr>"

text \<open>
  An \<open>undefined\<close> chat id indexes \<open>byChatId\<close> under the property name \<open>undefined\<close>.
\<close>

definition chatKey :: "string option \<Rightarrow> string" where
  "chatKey chatId = (case chatId of None \<Rightarrow> ''undefined'' | Some c \<Rightarrow> c)"

text \<open>
  Two readings of \<open>updateThreadInfo\<close> that its properties are stated with:
  \<open>mergedThreadInfo\<close> is its \<open>newThreadInfo\<close>, and \<open>linkedThread\<close> is the chat and
  thread that the merged info names as linked, by the tests of the two branches.
\<close>

definition mergedThreadInfo ::
  "GlobalState \<Rightarrow> string \<Rightarrow> int \<Rightarrow> ApiThreadInfo option \<Rightarrow> ApiThreadInfo" where
  "mergedThreadInfo global chatId threadId update =
     spreadThreadInfo
       (case selectThreadInfo global chatId threadId of
          None \<Rightarrow> emptyThreadInfo
        | Some info \<Rightarrow> info)
       (case update of None \<Rightarrow> emptyThreadInfo | Some u \<Rightarrow> u)"

definition linkedThread :: "ApiThreadInfo \<Rightarrow> (string \<times> int) option" where
  "linkedThread newThreadInfo =
     (if truthyBool (ti_isCommentsInfo newThreadInfo) then
        (case ti_threadId newThreadInfo of
           None \<Rightarrow> None
         | Some linkedThreadId \<Rightarrow>
             if linkedThreadId \<noteq> 0
             then Some (chatKey (ti_chatId newThreadInfo), linkedThreadId)
             else None)
      else
        (case (ti_fromChannelId newThreadInfo, ti_fromMessageId newThreadInfo) of
           (Some fromChannelId', Some fromMessageId') \<Rightarrow>
             if fromChannelId' \<noteq> [] \<and> fromMessageId' \<noteq> 0
             then Some (fromChannelId', fromMessageId')
             else None
         | _ \<Rightarrow> None))"

function updateThreadInfo ::
  "GlobalState \<Rightarrow> string \<Rightarrow> int \<Rightarrow> ApiThreadInfo option \<Rightarrow> bool \<Rightarrow> GlobalState" where
  "updateThreadInfo global chatId threadId update doNotUpdateLinked =
     (let newThreadInfo = spreadThreadInfo
            (case selectThreadInfo global chatId threadId of
               None \<Rightarrow> emptyThreadInfo
             | Some info \<Rightarrow> info)
            (case update of None \<Rightarrow> emptyThreadInfo | Some u \<Rightarrow> u);
          linkedUpdate = pickLinked newThreadInfo;
          global' =
            (if \<not> doNotUpdateLinked then
               (if truthyBool (ti_isCommentsInfo newThreadInfo) then
                  (case ti_threadId newThreadInfo of
                     None \<Rightarrow> global
                   | Some linkedThreadId \<Rightarrow>
                       if linkedThreadId \<noteq> 0 then
                         updateThreadInfo global (chatKey (ti_chatId newThreadInfo))
                           linkedThreadId (Some linkedUpdate) True
                       else global)
                else
                  (case (ti_fromChannelId newThreadInfo, ti_fromMessageId newThreadInfo) of
                     (Some fromChannelId', Some fromMessageId') \<Rightarrow>
                       if fromChannelId' \<noteq> [] \<and> fromMessageId' \<noteq> 0 then
                         updateThreadInfo global fromChannelId' fromMessageId'
                           (Some linkedUpdate) True
                       else global
                   | _ \<Rightarrow> global))
             else global)
      in replaceThreadParam global' chatId threadId (P_threadInfo (Some newThreadInfo)))"
  by pat_completeness auto
termination
  by (relation "measure (\<lambda>(g, c, t, u, d). if d then 0 else 1)") auto

declare updateThreadInfo.simps [simp del]

subsection \<open>Deleting messages\<close>

text \<open>
  The helpers \<open>selectThreadIdFromMessage\<close> of global/selectors and \<open>isLocalMessageId\<close>
  of util/messageKey are not in src/ and are taken as parameters. \<open>clearMessageTranslation\<close>
  of reducers/translations rewrites the translations, a side store that this state does
  not carry.

  The first loop of \<open>deleteChatMessages\<close>: a message of the table whose thread is
  neither missing nor the main one adds its id to the ids of that thread.
\<close>

definition collectThread ::
  "(ApiMessage \<Rightarrow> int option) \<Rightarrow> (int \<rightharpoonup> ApiMessage) \<Rightarrow> (int \<times> int list) list \<Rightarrow> int \<Rightarrow>
     (int \<times> int list) list" where
  "collectThread threadOf byId' updatedThreads messageId =
     (case byId' messageId of
        None \<Rightarrow> updatedThreads
      | Some message \<Rightarrow>
          (case threadOf message of
             None \<Rightarrow> updatedThreads
           | Some threadId \<Rightarrow>
               if threadId = 0 \<or> threadId = MAIN_THREAD_ID then updatedThreads
               else AList.update threadId
                      ((case map_of updatedThreads threadId of None \<Rightarrow> [] | Some ms \<Rightarrow> ms)
                         @ [messageId])
                      updatedThreads))"

definition collectThreads ::
  "(ApiMessage \<Rightarrow> int option) \<Rightarrow> (int \<rightharpoonup> ApiMessage) \<Rightarrow> int list \<Rightarrow> (int \<times> int list) list" where
  "collectThreads threadOf byId' messageIds =
     foldl (collectThread threadOf byId') [(MAIN_THREAD_ID, messageIds)] messageIds"

definition isLinkedPost :: "ApiMessage \<Rightarrow> bool" where
  "isLinkedPost message =
     truthyBool (case msg_forwardInfo message of None \<Rightarrow> None | Some f \<Rightarrow> isLinkedChannelPost f)"

definition deletedForwardedPosts :: "(int \<rightharpoonup> ApiMessage) \<Rightarrow> int list \<Rightarrow> ApiMessage list" where
  "deletedForwardedPosts byId' messageIds =
     filter isLinkedPost (pickTruthyValues byId' messageIds)"

text \<open>The loop over the tabs inside the loop over the threads.\<close>

definition excludeViewport ::
  "string \<Rightarrow> int \<Rightarrow> int list \<Rightarrow> GlobalState \<Rightarrow> int \<Rightarrow> GlobalState" where
  "excludeViewport chatId threadId messageIds global tabId =
     (case selectViewportIds global chatId threadId tabId of
        None \<Rightarrow> global
      | Some viewport \<Rightarrow>
          (let newViewportIds = excludeSortedArray viewport messageIds
           in replaceTabThreadParam global chatId threadId
                (P_viewportIds (if newViewportIds = [] then None else Some newViewportIds))
                tabId))"

text \<open>
  The body of the loop over \<open>updatedThreads\<close>. \<open>orderPinnedIds\<close> is applied to ids
  that are ascending already, so it changes no array that another name shares.
\<close>

definition deleteThreadMessages ::
  "(int \<Rightarrow> bool) \<Rightarrow> string \<Rightarrow> int list \<Rightarrow> GlobalState \<Rightarrow> int \<times> int list \<Rightarrow> GlobalState" where
  "deleteThreadMessages isLocalMessageId chatId messageIds global entry =
     (let threadId = fst entry;
          threadMessageIds = snd entry;
          info = selectThreadInfo global chatId threadId;
          listedIds' = map_option (\<lambda>ids. excludeSortedArray ids threadMessageIds)
            (selectListedIds global chatId threadId);
          pinnedIds' = map_option
            (\<lambda>ids. excludeSortedArray ids (orderPinnedIds threadMessageIds))
            (selectPinnedIds global chatId threadId);
          outlyingLists' = map_option
            (map (\<lambda>list. excludeSortedArray list threadMessageIds))
            (selectOutlyingLists global chatId threadId);
          nonLocalMessageCount =
            int (length (filter (\<lambda>i. \<not> isLocalMessageId i) threadMessageIds));
          newMessageCount = map_option (\<lambda>n. n - nonLocalMessageCount)
            (case info of None \<Rightarrow> None | Some i \<Rightarrow> ti_messagesCount i);
          global1 = foldl (excludeViewport chatId threadId messageIds) global
            (map fst (byTabId global));
          global2 = replaceThreadParam global1 chatId threadId (P_listedIds listedIds');
          global3 = replaceThreadParam global2 chatId threadId (P_outlyingLists outlyingLists');
          global4 = replaceThreadParam global3 chatId threadId (P_pinnedIds pinnedIds')
      in if info \<noteq> None \<and> newMessageCount \<noteq> None then
           updateThreadInfo global4 chatId threadId
             (Some (emptyThreadInfo\<lparr>ti_messagesCount := newMessageCount\<rparr>)) False
         else global4)"

text \<open>
  The loops over the tabs and the deleted forwarded posts. \<open>resetCurrentThread\<close> is
  the first \<open>if\<close> of the inner loop body. \<open>forwardOrigin\<close> is the
  pair \<open>fromChatId\<close>, \<open>fromMessageId\<close> of the forward info; without one of them the
  code indexes the store under the property name \<open>undefined\<close>, where no message is.
\<close>

definition forwardOrigin :: "ApiMessage \<Rightarrow> (string \<times> int) option" where
  "forwardOrigin message =
     (case msg_forwardInfo message of
        None \<Rightarrow> None
      | Some f \<Rightarrow>
          (case (fromChatId f, fromMessageId f) of
             (Some c, Some m) \<Rightarrow> Some (c, m)
           | _ \<Rightarrow> None))"

text \<open>The message list of the main thread of a chat: "no specific thread".\<close>

definition mainMessageList :: "string \<Rightarrow> MessageList" where
  "mainMessageList chatId =
     \<lparr>ml_chatId = chatId, ml_threadId = MAIN_THREAD_ID, ml_type = LT_thread\<rparr>"

definition resetCurrentThread ::
  "Config \<Rightarrow> string \<Rightarrow> int \<Rightarrow> bool \<Rightarrow> int option \<Rightarrow> GlobalState \<Rightarrow> ApiMessage \<Rightarrow> GlobalState" where
  "resetCurrentThread cfg chatId tabId canDeleteCurrentThread currentThreadId global message =
     (if canDeleteCurrentThread \<and> currentThreadId \<noteq> None \<and> currentThreadId = msg_id message
      then updateCurrentMessageList cfg global (Some chatId) None None False False tabId
      else global)"

definition resetForwardedPost ::
  "Config \<Rightarrow> string \<Rightarrow> int \<Rightarrow> bool \<Rightarrow> int option \<Rightarrow> GlobalState \<Rightarrow> ApiMessage \<Rightarrow> GlobalState" where
  "resetForwardedPost cfg chatId tabId canDeleteCurrentThread currentThreadId global message =
     (let origin = forwardOrigin message;
          originalPost = (case origin of
                            None \<Rightarrow> None
                          | Some (c, m) \<Rightarrow> selectChatMessage global c m);
          global1 = resetCurrentThread cfg chatId tabId canDeleteCurrentThread currentThreadId
            global message
      in case (originalPost, origin) of
           (Some post, Some (c, m)) \<Rightarrow> updateThread global1 c m None
         | _ \<Rightarrow> global1)"

definition resetTab ::
  "Config \<Rightarrow> string \<Rightarrow> ApiMessage list \<Rightarrow> GlobalState \<Rightarrow> int \<Rightarrow> GlobalState" where
  "resetTab cfg chatId posts global tabId =
     (let currentMessageList = selectCurrentMessageList global tabId;
          canDeleteCurrentThread =
            (case currentMessageList of
               None \<Rightarrow> False
             | Some l \<Rightarrow> ml_chatId l = chatId \<and> ml_type l = LT_thread);
          currentThreadId = map_option ml_threadId currentMessageList
      in foldl (resetForwardedPost cfg chatId tabId canDeleteCurrentThread currentThreadId)
           global posts)"

definition deleteChatMessages ::
  "Config \<Rightarrow> (GlobalState \<Rightarrow> ApiMessage \<Rightarrow> int option) \<Rightarrow> (int \<Rightarrow> bool) \<Rightarrow>
     GlobalState \<Rightarrow> string \<Rightarrow> int list \<Rightarrow> GlobalState" where
  "deleteChatMessages cfg selectThreadIdFromMessage isLocalMessageId global chatId messageIds' =
     (case selectChatMessages global chatId of
        None \<Rightarrow> global
      | Some byId' \<Rightarrow>
          (let messageIds = orderHistoryIds messageIds';
               updatedThreads =
                 collectThreads (selectThreadIdFromMessage global) byId' messageIds;
               posts = deletedForwardedPosts byId' messageIds;
               global1 = foldl (deleteThreadMessages isLocalMessageId chatId messageIds)
                 global updatedThreads;
               global2 = (if posts \<noteq> [] then
                            foldl (resetTab cfg chatId posts) global1 (map fst (byTabId global1))
                          else global1)
           in replaceChatMessages global2 chatId (omit byId' messageIds)))"

text \<open>
  The vocabulary of the properties of \<open>deleteChatMessages\<close>: an optional id list is
  ascending, an optional id list holds none of the given ids, and the same for the
  optional list of outlying lists.
\<close>

definition idsSorted :: "int list option \<Rightarrow> bool" where
  "idsSorted ids = (case ids of None \<Rightarrow> True | Some l \<Rightarrow> sorted l)"

definition idsWithout :: "int list \<Rightarrow> int list option \<Rightarrow> bool" where
  "idsWithout deleted ids = (case ids of None \<Rightarrow> True | Some l \<Rightarrow> set l \<inter> set deleted = {})"

definition listsSorted :: "int list list option \<Rightarrow> bool" where
  "listsSorted idLists = (case idLists of None \<Rightarrow> True | Some ls \<Rightarrow> list_all sorted ls)"

definition listsWithout :: "int list \<Rightarrow> int list list option \<Rightarrow> bool" where
  "listsWithout deleted idLists =
     (case idLists of
        None \<Rightarrow> True
      | Some ls \<Rightarrow> list_all (\<lambda>l. set l \<inter> set deleted = {}) ls)"

text \<open>
  \<open>deleteChatScheduledMessages\<close>. The other threads are walked only inside the test
  that the main thread has a \<open>scheduledIds\<close> list; the entries walked are those of the
  state after the main thread was written.
\<close>

definition stripScheduled ::
  "string \<Rightarrow> int list \<Rightarrow> GlobalState \<Rightarrow> int \<times> Thread \<Rightarrow> GlobalState" where
  "stripScheduled chatId messageIds global entry =
     (case scheduledIds (snd entry) of
        None \<Rightarrow> global
      | Some ids \<Rightarrow>
          replaceThreadParam global chatId (fst entry)
            (P_scheduledIds (Some (filter (\<lambda>i. i \<notin> set messageIds) ids))))"

definition deleteChatScheduledMessages ::
  "GlobalState \<Rightarrow> string \<Rightarrow> int list \<Rightarrow> GlobalState" where
  "deleteChatScheduledMessages global chatId messageIds =
     (case selectChatScheduledMessages global chatId of
        None \<Rightarrow> global
      | Some byId' \<Rightarrow>
          (let newById = omit byId' messageIds;
               global2 =
                 (case selectScheduledIds global chatId MAIN_THREAD_ID of
                    None \<Rightarrow> global
                  | Some ids \<Rightarrow>
                      (let ids' = foldl
                             (\<lambda>acc messageId.
                                if messageId \<in> set acc then filter (\<lambda>i. i \<noteq> messageId) acc
                                else acc)
                             ids messageIds;
                           global1 = replaceThreadParam global chatId MAIN_THREAD_ID
                             (P_scheduledIds (Some ids'));
                           entries = chatThreads global1 chatId
                       in foldl (stripScheduled chatId messageIds) global1 entries))
           in global2\<lparr>scheduledMessages_byChatId :=
                (scheduledMessages_byChatId global2)
                  (chatId \<mapsto> \<lparr>sch_byId = newById, sch_hash = None\<rparr>)\<rparr>))"

text \<open>
  \<open>threadsById\<close> is an object, so no key stands twice in it.
\<close>

definition threadKeysDistinct :: "GlobalState \<Rightarrow> string \<Rightarrow> bool" where
  "threadKeysDistinct global chatId = distinct (map fst (chatThreads global chatId))"

subsection \<open>Selection\<close>

text \<open>
  The argument \<open>messageId?: number | number[]\<close> of \<open>enterMessageSelectMode\<close>.
\<close>

datatype MessageIdArg = OneId int | ManyIds "int list"

definition enterMessageSelectMode ::
  "GlobalState \<Rightarrow> string \<Rightarrow> MessageIdArg option \<Rightarrow> int \<Rightarrow> GlobalState" where
  "enterMessageSelectMode global chatId messageId tabId =
     (let messageIds = (case messageId of
                          None \<Rightarrow> []
                        | Some (OneId n) \<Rightarrow> if n = 0 then [] else [n]
                        | Some (ManyIds ns) \<Rightarrow> ns)
      in updateTabState global
           (P_selectedMessages (Some \<lparr>sel_chatId = chatId, sel_messageIds = messageIds\<rparr>))
           tabId)"

definition exitMessageSelectMode :: "GlobalState \<Rightarrow> int \<Rightarrow> GlobalState" where
  "exitMessageSelectMode global tabId = updateTabState global (P_selectedMessages None) tabId"

text \<open>
  \<open>toggleMessageSelection\<close>. \<open>selectMessageIdsByGroupId\<close> of global/selectors is not in
  src/ and is a parameter; \<open>toggledMessageIds\<close> is the list \<open>selectedMessageIds\<close>
  of the function, the ids that one toggle is about. With the shift key the code reads the current message ids
  with a non-null assertion and calls \<open>indexOf\<close> on them: with no such ids the call
  throws, which is the result \<open>None\<close>.
\<close>

definition toggledMessageIds ::
  "(GlobalState \<Rightarrow> string \<Rightarrow> string \<Rightarrow> int list option) \<Rightarrow> GlobalState \<Rightarrow> string \<Rightarrow>
     int \<Rightarrow> string option \<Rightarrow> int list option \<Rightarrow> int list" where
  "toggledMessageIds selectMessageIdsByGroupId global chatId messageId groupedId childMessageIds' =
     (let childMessageIds = (case groupedId of
                               None \<Rightarrow> childMessageIds'
                             | Some groupedId' \<Rightarrow>
                                 if groupedId' \<noteq> []
                                 then selectMessageIdsByGroupId global chatId groupedId'
                                 else childMessageIds')
      in case childMessageIds of None \<Rightarrow> [messageId] | Some ids \<Rightarrow> ids)"

definition toggleMessageSelection ::
  "(GlobalState \<Rightarrow> string \<Rightarrow> string \<Rightarrow> int list option) \<Rightarrow> GlobalState \<Rightarrow> string \<Rightarrow> int \<Rightarrow>
     MessageListType \<Rightarrow> int \<Rightarrow> string option \<Rightarrow> int list option \<Rightarrow> bool \<Rightarrow> int \<Rightarrow>
     GlobalState option" where
  "toggleMessageSelection selectMessageIdsByGroupId global chatId threadId messageListType
       messageId groupedId childMessageIds' withShift tabId =
     (let oldSelectedMessages = selectedMessages (selectTabState global tabId);
          selectedMessageIds = toggledMessageIds selectMessageIdsByGroupId global chatId
            messageId groupedId childMessageIds'
      in case oldSelectedMessages of
           None \<Rightarrow>
             Some (enterMessageSelectMode global chatId (Some (ManyIds selectedMessageIds)) tabId)
         | Some old \<Rightarrow>
             (let messageIds = sel_messageIds old;
                  newSelectedMessageIds = filter (\<lambda>i. i \<notin> set messageIds) selectedMessageIds;
                  newMessageIds =
                    (if newSelectedMessageIds = [] then
                       Some (filter (\<lambda>i. i \<notin> set selectedMessageIds) messageIds)
                     else if withShift \<and> messageIds \<noteq> [] then
                       (case selectCurrentMessageIds global chatId threadId messageListType tabId of
                          None \<Rightarrow> None
                        | Some viewport \<Rightarrow>
                            (let prevIndex = indexOf viewport (last messageIds);
                                 currentIndex = indexOf viewport messageId;
                                 from = min prevIndex currentIndex;
                                 to = max prevIndex currentIndex
                             in Some (unique (messageIds @ slice viewport from (to + 1)))))
                     else Some (messageIds @ newSelectedMessageIds))
              in case newMessageIds of
                   None \<Rightarrow> None
                 | Some ids \<Rightarrow>
                     if ids = [] then Some (exitMessageSelectMode global tabId)
                     else Some (updateTabState global
                            (P_selectedMessages (Some (old\<lparr>sel_messageIds := ids\<rparr>))) tabId)))"

section \<open>Example states\<close>

definition ex_old1 :: ApiMessage where
  "ex_old1 = emptyMessage\<lparr>msg_id := Some 1, msg_chatId := Some ''chat'',
     msg_content := Some (emptyContent\<lparr>caption := Some ''old''\<rparr>)\<rparr>"

definition ex_new1 :: ApiMessage where
  "ex_new1 = emptyMessage\<lparr>msg_id := Some 1, msg_chatId := Some ''chat'',
     msg_content := Some (emptyContent\<lparr>caption := Some ''new''\<rparr>)\<rparr>"

definition ex_new2 :: ApiMessage where
  "ex_new2 = emptyMessage\<lparr>msg_id := Some 2, msg_chatId := Some ''chat''\<rparr>"

definition ex_table :: GlobalState where
  "ex_table = \<lparr>messages_byChatId = [''chat'' \<mapsto> \<lparr>byId = [1 \<mapsto> ex_old1], threadsById = []\<rparr>],
     scheduledMessages_byChatId = Map.empty, byTabId = []\<rparr>"

definition ex_patch_noid :: PartialApiMessage where
  "ex_patch_noid = emptyPatch\<lparr>upd_isMediaUnread := Held (Some False)\<rparr>"

definition ex_patch_clearId :: PartialApiMessage where
  "ex_patch_clearId = emptyPatch\<lparr>upd_id := Held None\<rparr>"

definition ex_patch2 :: PartialApiMessage where
  "ex_patch2 = emptyPatch\<lparr>upd_id := Held (Some 2), upd_chatId := Held (Some ''chat'')\<rparr>"


definition ex_cfg :: Config where
  "ex_cfg = \<lparr>IS_TEST = False, IS_MOCKED_CLIENT = False, TMP_CHAT_ID = ''tmp'',
     MESSAGE_LIST_SLICE = 4, MESSAGE_LIST_VIEWPORT_LIMIT = 4\<rparr>"

definition ex_view :: GlobalState where
  "ex_view = \<lparr>messages_byChatId = Map.empty, scheduledMessages_byChatId = Map.empty,
     byTabId = [(1, emptyTabState\<lparr>tabThreads :=
        [''chat'' \<mapsto> [MAIN_THREAD_ID \<mapsto> \<lparr>viewportIds = Some [1, 2, 3, 4]\<rparr>]]\<rparr>)]\<rparr>"

definition ex_noGroups :: "GlobalState \<Rightarrow> string \<Rightarrow> string \<Rightarrow> int list option" where
  "ex_noGroups global chatId groupedId = None"

definition ex_selected :: GlobalState where
  "ex_selected = \<lparr>messages_byChatId = Map.empty, scheduledMessages_byChatId = Map.empty,
     byTabId = [(1, emptyTabState\<lparr>selectedMessages :=
        Some \<lparr>sel_chatId = ''chat'', sel_messageIds = [12]\<rparr>\<rparr>)]\<rparr>"

definition ex_commentsInfo :: ApiThreadInfo where
  "ex_commentsInfo = emptyThreadInfo\<lparr>ti_isCommentsInfo := Some True, ti_chatId := Some ''group'',
     ti_threadId := Some 55, ti_originChannelId := Some ''channel'', ti_originMessageId := Some 10,
     ti_messagesCount := Some 3\<rparr>"

definition ex_discussionInfo :: ApiThreadInfo where
  "ex_discussionInfo = emptyThreadInfo\<lparr>ti_isCommentsInfo := Some False, ti_chatId := Some ''group'',
     ti_threadId := Some 55, ti_fromChannelId := Some ''channel'', ti_fromMessageId := Some 10,
     ti_messagesCount := Some 3\<rparr>"

definition ex_linked :: GlobalState where
  "ex_linked = \<lparr>messages_byChatId =
       [''channel'' \<mapsto> \<lparr>byId = Map.empty,
          threadsById = [(10, emptyThread\<lparr>threadInfo := Some ex_commentsInfo\<rparr>)]\<rparr>,
        ''group'' \<mapsto> \<lparr>byId = Map.empty,
          threadsById = [(55, emptyThread\<lparr>threadInfo := Some ex_discussionInfo\<rparr>)]\<rparr>],
     scheduledMessages_byChatId = Map.empty, byTabId = []\<rparr>"

definition ex_countUpdate :: ApiThreadInfo where
  "ex_countUpdate = emptyThreadInfo\<lparr>ti_messagesCount := Some 4\<rparr>"

definition ex_scheduledTopic :: GlobalState where
  "ex_scheduledTopic = \<lparr>messages_byChatId =
       [''chat'' \<mapsto> \<lparr>byId = Map.empty,
          threadsById = [(5, emptyThread\<lparr>scheduledIds := Some [7]\<rparr>)]\<rparr>],
     scheduledMessages_byChatId =
       [''chat'' \<mapsto> \<lparr>sch_byId = [7 \<mapsto> emptyMessage\<lparr>msg_id := Some 7\<rparr>], sch_hash = None\<rparr>],
     byTabId = []\<rparr>"

definition ex_scheduled :: GlobalState where
  "ex_scheduled = \<lparr>messages_byChatId =
       [''chat'' \<mapsto> \<lparr>byId = Map.empty,
          threadsById = [(MAIN_THREAD_ID, emptyThread\<lparr>scheduledIds := Some [7, 8]\<rparr>),
                         (5, emptyThread\<lparr>scheduledIds := Some [7]\<rparr>)]\<rparr>],
     scheduledMessages_byChatId =
       [''chat'' \<mapsto> \<lparr>sch_byId = [7 \<mapsto> emptyMessage\<lparr>msg_id := Some 7\<rparr>,
                                 8 \<mapsto> emptyMessage\<lparr>msg_id := Some 8\<rparr>], sch_hash = None\<rparr>],
     byTabId = []\<rparr>"

definition ex_m7 :: ApiMessage where
  "ex_m7 = emptyMessage\<lparr>msg_id := Some 7, msg_chatId := Some ''chat''\<rparr>"

definition ex_m8 :: ApiMessage where
  "ex_m8 = emptyMessage\<lparr>msg_id := Some 8, msg_chatId := Some ''chat''\<rparr>"

definition ex_threadOf :: "GlobalState \<Rightarrow> ApiMessage \<Rightarrow> int option" where
  "ex_threadOf global message =
     (if msg_id message = Some 7 then Some 5 else Some MAIN_THREAD_ID)"

definition ex_noLocal :: "int \<Rightarrow> bool" where
  "ex_noLocal i = False"

definition ex_topic :: GlobalState where
  "ex_topic = \<lparr>messages_byChatId =
       [''chat'' \<mapsto> \<lparr>byId = [7 \<mapsto> ex_m7, 8 \<mapsto> ex_m8],
          threadsById =
            [(MAIN_THREAD_ID, emptyThread\<lparr>listedIds := Some [6, 7, 8],
                outlyingLists := Some [[7, 9]], pinnedIds := Some [7]\<rparr>),
             (5, emptyThread\<lparr>listedIds := Some [7, 8]\<rparr>)]\<rparr>],
     scheduledMessages_byChatId = Map.empty,
     byTabId = [(1, emptyTabState\<lparr>tabThreads :=
        [''chat'' \<mapsto> [MAIN_THREAD_ID \<mapsto> \<lparr>viewportIds = Some [6, 7, 8]\<rparr>]]\<rparr>)]\<rparr>"

definition ex_post :: ApiMessage where
  "ex_post = emptyMessage\<lparr>msg_id := Some 42, msg_chatId := Some ''group'',
     msg_forwardInfo := Some \<lparr>isLinkedChannelPost = Some True, fromChatId = Some ''channel'',
       fromMessageId = Some 10\<rparr>\<rparr>"

definition ex_mainOnly :: "GlobalState \<Rightarrow> ApiMessage \<Rightarrow> int option" where
  "ex_mainOnly global message = Some MAIN_THREAD_ID"

definition ex_comments :: "(int \<rightharpoonup> ApiMessage) \<Rightarrow> GlobalState" where
  "ex_comments channelMessages = \<lparr>messages_byChatId =
       [''group'' \<mapsto> \<lparr>byId = [42 \<mapsto> ex_post], threadsById = []\<rparr>,
        ''channel'' \<mapsto> \<lparr>byId = channelMessages,
          threadsById = [(10, emptyThread\<lparr>listedIds := Some [100]\<rparr>)]\<rparr>],
     scheduledMessages_byChatId = Map.empty,
     byTabId = [(1, emptyTabState\<lparr>messageLists :=
        [\<lparr>ml_chatId = ''group'', ml_threadId = 42, ml_type = LT_thread\<rparr>]\<rparr>)]\<rparr>"

definition ex_origin :: ApiMessage where
  "ex_origin = emptyMessage\<lparr>msg_id := Some 10, msg_chatId := Some ''channel''\<rparr>"
section \<open>Properties\<close>

subsection \<open>The message table\<close>

lemma selectChatMessage_replaceChatMessages:
  "selectChatMessage (replaceChatMessages g c m) c' i =
     (if c' = c then m i else selectChatMessage g c' i)"
  by (simp add: selectChatMessage_def selectChatMessages_def replaceChatMessages_def
      updateMessageStore_byId_def Let_def split: option.splits)

lemma selectChatMessages_replaceChatMessages:
  "selectChatMessages (replaceChatMessages g c m) c = Some m"
  by (simp add: selectChatMessages_def replaceChatMessages_def
      updateMessageStore_byId_def Let_def split: option.splits)

lemma addChatMessagesById_lookup:
  "selectChatMessage (addChatMessagesById g c newById) c i =
     (case selectChatMessage g c i of Some m \<Rightarrow> Some m | None \<Rightarrow> map_of newById i)"
proof (cases "selectChatMessages g c")
  case None
  then have "selectChatMessage g c i = None"
    by (simp add: selectChatMessage_def)
  with None show ?thesis
    by (simp add: addChatMessagesById_def selectChatMessage_replaceChatMessages)
next
  case (Some t)
  then have sel: "selectChatMessage g c i = t i"
    by (simp add: selectChatMessage_def)
  show ?thesis
  proof (cases "list_all (\<lambda>newId. t newId \<noteq> None) (map fst newById)")
    case True
    have "map_of newById i = None" if "t i = None"
    proof -
      from True that have "i \<notin> fst ` set newById"
        by (auto simp: list_all_iff)
      then show ?thesis by (simp add: map_of_eq_None_iff)
    qed
    with True Some sel show ?thesis
      by (simp add: addChatMessagesById_def split: option.splits)
  next
    case False
    with Some sel show ?thesis
      by (simp add: addChatMessagesById_def selectChatMessage_replaceChatMessages map_add_def
          split: option.splits)
  qed
qed

text \<open>
  C2, as the code has it. \<open>addChatMessagesById\<close> spreads the batch first and the
  existing table over it, so for every id the entity that was stored before the call is
  kept as it is, whatever the batch holds for that id; an id with no stored entity gets
  the entry of the batch. No key of a stored entity is patched.
\<close>

theorem addChatMessagesById_keeps_existing:
  "selectChatMessage (addChatMessagesById g c newById) c i =
     (case selectChatMessage g c i of Some m \<Rightarrow> Some m | None \<Rightarrow> map_of newById i)"
  by (rule addChatMessagesById_lookup)

text \<open>
  C2 at a table holding message 1 and a batch for the ids 1 and 2: message 1 stays the
  stored one, message 2 is the entry of the batch.
\<close>

theorem addChatMessagesById_keeps_existing_witness:
  "selectChatMessage (addChatMessagesById ex_table ''chat'' [(1, ex_new1), (2, ex_new2)]) ''chat'' 1
     = Some ex_old1
   \<and> selectChatMessage (addChatMessagesById ex_table ''chat'' [(1, ex_new1), (2, ex_new2)]) ''chat'' 2
     = Some ex_new2"
  using addChatMessagesById_keeps_existing [of ex_table "''chat''" "[(1, ex_new1), (2, ex_new2)]" 1]
    addChatMessagesById_keeps_existing [of ex_table "''chat''" "[(1, ex_new1), (2, ex_new2)]" 2]
  by (simp add: ex_table_def selectChatMessage_def selectChatMessages_def)

text \<open>
  C2 as stated fails: with message 1 stored, a batch entry for id 1 with another caption
  does not patch it; the stored entity is not the spread of the prior one and the entry.
\<close>

theorem addChatMessagesById_patch_counterexample:
  "selectChatMessage ex_table ''chat'' 1 = Some ex_old1
   \<and> selectChatMessage (addChatMessagesById ex_table ''chat'' [(1, ex_new1), (2, ex_new2)]) ''chat'' 1
       \<noteq> Some (spreadMessage ex_old1 (patchOfMessage ex_new1))"
  by (simp add: addChatMessagesById_lookup)
   (simp add: ex_table_def selectChatMessage_def selectChatMessages_def ex_old1_def ex_new1_def
      spreadMessage_def spreadKey_def patchOfMessage_def givenKey_def emptyMessage_def
      emptyContent_def)

text \<open>
  C3: applying the same batch twice gives the state that applying it once gives; and
  when the chat has a message table that holds every id of the batch, the call returns
  the input state itself.
\<close>

theorem addChatMessagesById_idempotent:
  "addChatMessagesById (addChatMessagesById g c newById) c newById = addChatMessagesById g c newById
   \<and> (\<forall>t. selectChatMessages g c = Some t \<and> (\<forall>i \<in> fst ` set newById. t i \<noteq> None)
        \<longrightarrow> addChatMessagesById g c newById = g)"
proof
  have keys: "list_all (\<lambda>i. (map_of newById ++ t) i \<noteq> None) (map fst newById)" for t :: "int \<rightharpoonup> ApiMessage"
    by (auto simp: list_all_iff map_add_def weak_map_of_SomeI map_of_eq_None_iff image_iff split: option.splits)
  show "addChatMessagesById (addChatMessagesById g c newById) c newById = addChatMessagesById g c newById"
  proof (cases "selectChatMessages g c")
    case None
    then show ?thesis
      using keys [of Map.empty]
      by (simp add: addChatMessagesById_def selectChatMessages_replaceChatMessages)
  next
    case (Some t)
    then show ?thesis
      using keys [of t]
      by (simp add: addChatMessagesById_def selectChatMessages_replaceChatMessages)
  qed
  show "\<forall>t. selectChatMessages g c = Some t \<and> (\<forall>i \<in> fst ` set newById. t i \<noteq> None)
        \<longrightarrow> addChatMessagesById g c newById = g"
    by (auto simp: addChatMessagesById_def list_all_iff)
qed

text \<open>
  C3 at a table holding message 1: a batch for the ids 1 and 2 twice, and a batch for
  the id 1 alone, which changes nothing.
\<close>

theorem addChatMessagesById_idempotent_witness:
  "addChatMessagesById (addChatMessagesById ex_table ''chat'' [(1, ex_new1), (2, ex_new2)]) ''chat''
       [(1, ex_new1), (2, ex_new2)]
     = addChatMessagesById ex_table ''chat'' [(1, ex_new1), (2, ex_new2)]
   \<and> selectChatMessages ex_table ''chat'' = Some [1 \<mapsto> ex_old1]
   \<and> addChatMessagesById ex_table ''chat'' [(1, ex_new1)] = ex_table"
proof -
  have t: "selectChatMessages ex_table ''chat'' = Some [1 \<mapsto> ex_old1]"
    by (simp add: ex_table_def selectChatMessages_def)
  from addChatMessagesById_idempotent [of ex_table "''chat''" "[(1, ex_new1)]"] t
  have "addChatMessagesById ex_table ''chat'' [(1, ex_new1)] = ex_table"
    by simp
  with t addChatMessagesById_idempotent [of ex_table "''chat''" "[(1, ex_new1), (2, ex_new2)]"]
  show ?thesis by simp
qed

lemma msg_id_updatedMessageOf:
  "msg_id (updatedMessageOf message (expireMedia message messageUpdate)) =
     msg_id (updatedMessageOf message messageUpdate)"
  by (simp add: updatedMessageOf_def expireMedia_def spreadMessage_def Let_def
      split: option.splits)

lemma msg_id_cleared:
  "upd_id messageUpdate = Held None \<Longrightarrow> msg_id (updatedMessageOf message messageUpdate) = None"
  by (simp add: updatedMessageOf_def spreadMessage_def spreadKey_def)

lemma table_lookup:
  "(case selectChatMessages g c of None \<Rightarrow> Map.empty | Some m \<Rightarrow> m) i = selectChatMessage g c i"
  by (simp add: selectChatMessage_def split: option.splits)

text \<open>
  C9: when the spread of the existing message (or of nothing) and the patch has no
  truthy id, \<open>updateChatMessage\<close> returns the input state, and so does
  \<open>updateScheduledMessage\<close> for the scheduled message. A patch that holds the key
  \<open>id\<close> with the value \<open>undefined\<close> is such a patch whatever is stored: the spread
  copies the key and the stored id is gone from the result.
\<close>

theorem update_without_id_is_noop:
  "(\<not> truthyId (msg_id (updatedMessageOf (selectChatMessage g c i) messageUpdate))
      \<longrightarrow> updateChatMessage g c i messageUpdate = g)
   \<and> (\<not> truthyId (msg_id (updatedMessageOf (selectScheduledMessage g c i) messageUpdate))
      \<longrightarrow> updateScheduledMessage g c i messageUpdate = g)
   \<and> (upd_id messageUpdate = Held None
      \<longrightarrow> updateChatMessage g c i messageUpdate = g
        \<and> updateScheduledMessage g c i messageUpdate = g)"
proof (intro conjI impI)
  show "updateChatMessage g c i messageUpdate = g"
    if "\<not> truthyId (msg_id (updatedMessageOf (selectChatMessage g c i) messageUpdate))"
    using that
    by (simp add: updateChatMessage_def Let_def table_lookup msg_id_updatedMessageOf)
  show "updateScheduledMessage g c i messageUpdate = g"
    if "\<not> truthyId (msg_id (updatedMessageOf (selectScheduledMessage g c i) messageUpdate))"
    using that by (simp add: updateScheduledMessage_def Let_def)
  show "updateChatMessage g c i messageUpdate = g" if "upd_id messageUpdate = Held None"
    using that
    by (simp add: updateChatMessage_def Let_def msg_id_updatedMessageOf msg_id_cleared
        truthyId_def)
  show "updateScheduledMessage g c i messageUpdate = g" if "upd_id messageUpdate = Held None"
    using that by (simp add: updateScheduledMessage_def Let_def msg_id_cleared truthyId_def)
qed

lemma ex_stored:
  "selectChatMessage ex_table ''chat'' 1 = Some ex_old1"
  "selectChatMessage ex_table ''chat'' 7 = None"
  "selectScheduledMessage ex_table ''chat'' 7 = None"
  "selectScheduledMessage ex_scheduled ''chat'' 7 = Some (emptyMessage\<lparr>msg_id := Some 7\<rparr>)"
  by (simp_all add: ex_table_def ex_scheduled_def selectChatMessage_def selectChatMessages_def
      selectScheduledMessage_def selectChatScheduledMessages_def)

text \<open>
  C9 at message 1, which the table stores with the id 1, and the patch
  \<open>{id: undefined}\<close>: the spread has no id and the state is returned as it is. The same
  at the scheduled message 7, and at a patch with no key \<open>id\<close> for message 7 of a chat
  that does not store it.
\<close>

theorem update_without_id_is_noop_witness:
  "selectChatMessage ex_table ''chat'' 1 = Some ex_old1
   \<and> truthyId (msg_id ex_old1)
   \<and> upd_id ex_patch_clearId = Held None
   \<and> \<not> truthyId (msg_id (updatedMessageOf (selectChatMessage ex_table ''chat'' 1) ex_patch_clearId))
   \<and> updateChatMessage ex_table ''chat'' 1 ex_patch_clearId = ex_table
   \<and> selectScheduledMessage ex_scheduled ''chat'' 7 = Some (emptyMessage\<lparr>msg_id := Some 7\<rparr>)
   \<and> \<not> truthyId (msg_id
         (updatedMessageOf (selectScheduledMessage ex_scheduled ''chat'' 7) ex_patch_clearId))
   \<and> updateScheduledMessage ex_scheduled ''chat'' 7 ex_patch_clearId = ex_scheduled
   \<and> \<not> truthyId (msg_id (updatedMessageOf (selectChatMessage ex_table ''chat'' 7) ex_patch_noid))
   \<and> updateChatMessage ex_table ''chat'' 7 ex_patch_noid = ex_table
   \<and> \<not> truthyId (msg_id (updatedMessageOf (selectScheduledMessage ex_table ''chat'' 7) ex_patch_noid))
   \<and> updateScheduledMessage ex_table ''chat'' 7 ex_patch_noid = ex_table"
proof -
  have held: "upd_id ex_patch_clearId = Held None"
    by (simp add: ex_patch_clearId_def)
  have old: "truthyId (msg_id ex_old1)"
    by (simp add: ex_old1_def emptyMessage_def truthyId_def)
  have a: "\<not> truthyId (msg_id (updatedMessageOf (selectChatMessage ex_table ''chat'' 1) ex_patch_clearId))"
    by (simp add: msg_id_cleared held truthyId_def)
  have b: "\<not> truthyId (msg_id
      (updatedMessageOf (selectScheduledMessage ex_scheduled ''chat'' 7) ex_patch_clearId))"
    by (simp add: msg_id_cleared held truthyId_def)
  have c: "\<not> truthyId (msg_id (updatedMessageOf (selectChatMessage ex_table ''chat'' 7) ex_patch_noid))"
    by (simp add: ex_stored updatedMessageOf_def spreadMessage_def spreadKey_def emptyMessage_def
        ex_patch_noid_def emptyPatch_def truthyId_def)
  have d: "\<not> truthyId (msg_id (updatedMessageOf (selectScheduledMessage ex_table ''chat'' 7) ex_patch_noid))"
    by (simp add: ex_stored updatedMessageOf_def spreadMessage_def spreadKey_def emptyMessage_def
        ex_patch_noid_def emptyPatch_def truthyId_def)
  note stored = update_without_id_is_noop [of ex_table "''chat''" 1 ex_patch_clearId]
  note scheduled = update_without_id_is_noop [of ex_scheduled "''chat''" 7 ex_patch_clearId]
  note absent = update_without_id_is_noop [of ex_table "''chat''" 7 ex_patch_noid]
  from stored a have 1: "updateChatMessage ex_table ''chat'' 1 ex_patch_clearId = ex_table"
    by blast
  from scheduled b
  have 2: "updateScheduledMessage ex_scheduled ''chat'' 7 ex_patch_clearId = ex_scheduled"
    by blast
  from absent c have 3: "updateChatMessage ex_table ''chat'' 7 ex_patch_noid = ex_table"
    by blast
  from absent d have 4: "updateScheduledMessage ex_table ''chat'' 7 ex_patch_noid = ex_table"
    by blast
  from held old a b c d 1 2 3 4 show ?thesis
    by (simp only: ex_stored simp_thms)
qed

lemma spreadMessage_empty: "spreadMessage emptyMessage u = patchAlone u"
  by (simp add: spreadMessage_def patchAlone_def emptyMessage_def spreadKey_def readKey_def
      split: PatchKey.splits)

text \<open>
  C10: with no entry for the message id in the table of the chat, a patch with a truthy
  id is stored under that message id as the keys of the patch and nothing else, and the
  state changes.
\<close>

theorem updateChatMessage_inserts_on_absence:
  assumes "selectChatMessage g c i = None" and "truthyId (readKey (upd_id messageUpdate))"
  shows "selectChatMessage (updateChatMessage g c i messageUpdate) c i
      = Some (patchAlone messageUpdate)
    \<and> updateChatMessage g c i messageUpdate \<noteq> g"
proof -
  have look: "(case selectChatMessages g c of None \<Rightarrow> Map.empty | Some m \<Rightarrow> m) i = None"
    using assms(1) by (simp add: table_lookup)
  have id: "msg_id (patchAlone messageUpdate) = readKey (upd_id messageUpdate)"
    by (simp add: patchAlone_def)
  have stored: "selectChatMessage (updateChatMessage g c i messageUpdate) c i
      = Some (patchAlone messageUpdate)"
    using assms(2) look
    by (simp add: updateChatMessage_def Let_def expireMedia_def updatedMessageOf_def
        spreadMessage_empty id selectChatMessage_replaceChatMessages)
  with assms(1) show ?thesis by auto
qed

text \<open>
  C10 at a table holding message 1 only, patched at the id 2 with a patch of the keys
  \<open>id\<close> and \<open>chatId\<close>: the stored message has these two keys.
\<close>

theorem updateChatMessage_inserts_on_absence_witness:
  "selectChatMessage ex_table ''chat'' 2 = None \<and> truthyId (readKey (upd_id ex_patch2))
   \<and> patchAlone ex_patch2 = ex_new2
   \<and> selectChatMessage (updateChatMessage ex_table ''chat'' 2 ex_patch2) ''chat'' 2 = Some ex_new2
   \<and> updateChatMessage ex_table ''chat'' 2 ex_patch2 \<noteq> ex_table"
proof -
  have a: "selectChatMessage ex_table ''chat'' 2 = None"
    by (simp add: ex_table_def selectChatMessage_def selectChatMessages_def)
  have b: "truthyId (readKey (upd_id ex_patch2))"
    by (simp add: ex_patch2_def emptyPatch_def readKey_def truthyId_def)
  have c: "patchAlone ex_patch2 = ex_new2"
    by (simp add: patchAlone_def ex_patch2_def emptyPatch_def readKey_def ex_new2_def
        emptyMessage_def)
  from a b c updateChatMessage_inserts_on_absence [OF a b] show ?thesis by simp
qed

subsection \<open>Frame lemmas\<close>

lemma byTabId_updateMessageStore_threadsById [simp]:
  "byTabId (updateMessageStore_threadsById g c ths) = byTabId g"
  by (simp add: updateMessageStore_threadsById_def Let_def)

lemma byTabId_updateThread [simp]: "byTabId (updateThread g c t u) = byTabId g"
  by (simp add: updateThread_def Let_def split: option.splits)

lemma byTabId_replaceThreadParam [simp]: "byTabId (replaceThreadParam g c t p) = byTabId g"
  by (simp add: replaceThreadParam_def)

lemma selectTabState_updateThread [simp]:
  "selectTabState (updateThread g c t u) tab = selectTabState g tab"
  by (simp add: selectTabState_def)

lemma selectTabState_replaceThreadParam [simp]:
  "selectTabState (replaceThreadParam g c t p) tab = selectTabState g tab"
  by (simp add: selectTabState_def)

lemma selectTabState_updateTabState:
  "selectTabState (updateTabState g p tab) tab' =
     (if tab' = tab then setTabStateParam (selectTabState g tab) p else selectTabState g tab')"
  by (simp add: selectTabState_def updateTabState_def update_conv')

lemma selectTabThread_updateTabThread:
  "selectTabThread (updateTabThread g c t p tab) c' t' tab' =
     (if tab' = tab \<and> c' = c \<and> t' = t
      then Some (setTabThreadParam
        (case selectTabThread g c t tab of None \<Rightarrow> emptyTabThread | Some x \<Rightarrow> x) p)
      else selectTabThread g c' t' tab')"
  by (simp add: selectTabThread_def updateTabThread_def Let_def selectTabState_updateTabState
      split: option.splits)

lemma selectTabThread_replaceThreadParam [simp]:
  "selectTabThread (replaceThreadParam g c t p) c' t' tab = selectTabThread g c' t' tab"
  by (simp add: selectTabThread_def)

lemma selectViewportIds_replaceTabThreadParam:
  "selectViewportIds (replaceTabThreadParam g c t (P_viewportIds v) tab) c' t' tab' =
     (if tab' = tab \<and> c' = c \<and> t' = t then v else selectViewportIds g c' t' tab')"
  by (simp add: selectViewportIds_def replaceTabThreadParam_def selectTabThread_updateTabThread)

subsection \<open>The viewport window\<close>

lemma length_sliceLast: "0 < n \<Longrightarrow> length (sliceLast xs n) = min (length xs) n"
  by (auto simp: sliceLast_def)

text \<open>
  C5, for a tab that has a state and for config constants with
  \<open>2 \<le> MESSAGE_LIST_SLICE\<close> and \<open>MESSAGE_LIST_SLICE div 2 < MESSAGE_LIST_VIEWPORT_LIMIT\<close>
  (the constants are not in src/). After \<open>addViewportId\<close> with an id that the viewport
  does not hold, the viewport has at most \<open>MESSAGE_LIST_VIEWPORT_LIMIT\<close> ids; when the
  old viewport was at capacity, the new one holds exactly the last
  \<open>MESSAGE_LIST_SLICE div 2\<close> ids of the old one and the new id. With an id that the
  viewport holds already, the state is returned as it is.
\<close>

theorem addViewportId_window:
  assumes "tabId \<in> fst ` set (byTabId g)"
    and "2 \<le> MESSAGE_LIST_SLICE cfg"
    and "MESSAGE_LIST_SLICE cfg div 2 < MESSAGE_LIST_VIEWPORT_LIMIT cfg"
  shows "(newId \<notin> set (viewportOrEmpty g c t tabId) \<longrightarrow>
           length (viewportOrEmpty (addViewportId cfg g c t newId tabId) c t tabId)
             \<le> MESSAGE_LIST_VIEWPORT_LIMIT cfg
           \<and> (MESSAGE_LIST_VIEWPORT_LIMIT cfg \<le> length (viewportOrEmpty g c t tabId) \<longrightarrow>
                mset (viewportOrEmpty (addViewportId cfg g c t newId tabId) c t tabId) =
                  mset (drop (length (viewportOrEmpty g c t tabId) - MESSAGE_LIST_SLICE cfg div 2)
                          (viewportOrEmpty g c t tabId)) + {#newId#}))
       \<and> (newId \<in> set (viewportOrEmpty g c t tabId) \<longrightarrow> addViewportId cfg g c t newId tabId = g)"
proof -
  let ?old = "viewportOrEmpty g c t tabId"
  let ?h = "MESSAGE_LIST_SLICE cfg div 2"
  let ?base = "if length ?old < MESSAGE_LIST_VIEWPORT_LIMIT cfg then ?old else sliceLast ?old ?h"
  have h: "0 < ?h" using assms(2) by simp
  have new: "viewportOrEmpty (addViewportId cfg g c t newId tabId) c t tabId
      = orderHistoryIds (?base @ [newId])" if "newId \<notin> set ?old"
  proof -
    from that have "addViewportId cfg g c t newId tabId =
        replaceTabThreadParam g c t (P_viewportIds (Some (orderHistoryIds (?base @ [newId])))) tabId"
      by (simp add: addViewportId_def Let_def)
    then show ?thesis
      by (simp add: viewportOrEmpty_def selectViewportIds_replaceTabThreadParam)
  qed
  have len: "length (orderHistoryIds (?base @ [newId])) \<le> MESSAGE_LIST_VIEWPORT_LIMIT cfg"
    using h assms(3) by (simp add: orderHistoryIds_def length_sliceLast)
  have cap: "mset (orderHistoryIds (?base @ [newId])) = mset (drop (length ?old - ?h) ?old) + {#newId#}"
    if "MESSAGE_LIST_VIEWPORT_LIMIT cfg \<le> length ?old"
    using that h by (simp add: orderHistoryIds_def sliceLast_def)
  have same: "addViewportId cfg g c t newId tabId = g" if "newId \<in> set ?old"
    using that by (simp add: addViewportId_def Let_def)
  from new len cap same show ?thesis by simp
qed


text \<open>
  C5 at a limit of 4 and a slice of 4: the full viewport 1, 2, 3, 4 and the new id 5
  give the ids 3, 4, 5; the id 3 again changes nothing.
\<close>

theorem addViewportId_window_witness:
  "1 \<in> fst ` set (byTabId ex_view) \<and> 2 \<le> MESSAGE_LIST_SLICE ex_cfg
   \<and> MESSAGE_LIST_SLICE ex_cfg div 2 < MESSAGE_LIST_VIEWPORT_LIMIT ex_cfg
   \<and> viewportOrEmpty ex_view ''chat'' MAIN_THREAD_ID 1 = [1, 2, 3, 4]
   \<and> length (viewportOrEmpty (addViewportId ex_cfg ex_view ''chat'' MAIN_THREAD_ID 5 1)
        ''chat'' MAIN_THREAD_ID 1) \<le> MESSAGE_LIST_VIEWPORT_LIMIT ex_cfg
   \<and> mset (viewportOrEmpty (addViewportId ex_cfg ex_view ''chat'' MAIN_THREAD_ID 5 1)
        ''chat'' MAIN_THREAD_ID 1) = {#3, 4, 5#}
   \<and> addViewportId ex_cfg ex_view ''chat'' MAIN_THREAD_ID 3 1 = ex_view"
proof -
  have tab: "1 \<in> fst ` set (byTabId ex_view)"
    by (simp add: ex_view_def)
  have cfg: "2 \<le> MESSAGE_LIST_SLICE ex_cfg"
    "MESSAGE_LIST_SLICE ex_cfg div 2 < MESSAGE_LIST_VIEWPORT_LIMIT ex_cfg"
    by (simp_all add: ex_cfg_def)
  have old: "viewportOrEmpty ex_view ''chat'' MAIN_THREAD_ID 1 = [1, 2, 3, 4]"
    by (simp add: viewportOrEmpty_def selectViewportIds_def selectTabThread_def
        selectTabState_def ex_view_def)
  have lim: "MESSAGE_LIST_VIEWPORT_LIMIT ex_cfg = 4" "MESSAGE_LIST_SLICE ex_cfg = 4"
    by (simp_all add: ex_cfg_def)
  from addViewportId_window [OF tab cfg, of 5 "''chat''" MAIN_THREAD_ID]
    addViewportId_window [OF tab cfg, of 3 "''chat''" MAIN_THREAD_ID] tab cfg
  show ?thesis
    by (simp add: old lim)
qed

subsection \<open>Selection\<close>

lemma selectedMessages_updateTabState:
  "selectedMessages (selectTabState (updateTabState g (P_selectedMessages v) tab) tab) = v"
  by (simp add: selectTabState_updateTabState)

text \<open>
  C8 as stated fails: \<open>enterMessageSelectMode\<close> with no message id, on a tab with no
  selection store, leaves a store that is present and holds an empty \<open>messageIds\<close>
  list.
\<close>

theorem enterMessageSelectMode_empty_counterexample:
  "selectedMessages (selectTabState ex_view 1) = None
   \<and> selectedMessages (selectTabState (enterMessageSelectMode ex_view ''chat'' None 1) 1)
       = Some \<lparr>sel_chatId = ''chat'', sel_messageIds = []\<rparr>"
  by (simp add: enterMessageSelectMode_def selectedMessages_updateTabState)
    (simp add: selectTabState_def ex_view_def emptyTabState_def)

text \<open>
  C8, as the code has it. \<open>enterMessageSelectMode\<close> always leaves the selection store
  of the tab present, whatever its argument is: with no message id, with the id \<open>0\<close> or
  with an empty array of ids the store holds the empty list, with another id that id,
  and with an array its ids. \<open>toggleMessageSelection\<close> on a tab whose store is present
  leaves the store absent or with a non-empty \<open>messageIds\<close> list, and when the toggled
  ids are exactly the ids that remain selected it removes the store.
\<close>

theorem selection_store_after_toggle:
  "selectedMessages (selectTabState (enterMessageSelectMode g c None tab) tab)
      = Some \<lparr>sel_chatId = c, sel_messageIds = []\<rparr>
   \<and> selectedMessages (selectTabState (enterMessageSelectMode g c (Some (OneId n)) tab) tab)
      = Some \<lparr>sel_chatId = c, sel_messageIds = (if n = 0 then [] else [n])\<rparr>
   \<and> selectedMessages (selectTabState (enterMessageSelectMode g c (Some (ManyIds ns)) tab) tab)
      = Some \<lparr>sel_chatId = c, sel_messageIds = ns\<rparr>
   \<and> (\<forall>arg. selectedMessages (selectTabState (enterMessageSelectMode g c arg tab) tab) \<noteq> None)
   \<and> (\<forall>old g'. selectedMessages (selectTabState g tab) = Some old
         \<and> toggleMessageSelection byGroup g c t ty m grp child shift tab = Some g'
       \<longrightarrow> (case selectedMessages (selectTabState g' tab) of
               None \<Rightarrow> True
             | Some s \<Rightarrow> sel_messageIds s \<noteq> []))
   \<and> (\<forall>old. selectedMessages (selectTabState g tab) = Some old
         \<and> set (toggledMessageIds byGroup g c m grp child) = set (sel_messageIds old)
       \<longrightarrow> (\<exists>g'. toggleMessageSelection byGroup g c t ty m grp child shift tab = Some g'
               \<and> selectedMessages (selectTabState g' tab) = None))"
proof (intro conjI allI impI)
  show "selectedMessages (selectTabState (enterMessageSelectMode g c None tab) tab)
      = Some \<lparr>sel_chatId = c, sel_messageIds = []\<rparr>"
    by (simp add: enterMessageSelectMode_def selectedMessages_updateTabState)
next
  show "selectedMessages (selectTabState (enterMessageSelectMode g c (Some (OneId n)) tab) tab)
      = Some \<lparr>sel_chatId = c, sel_messageIds = (if n = 0 then [] else [n])\<rparr>"
    by (simp add: enterMessageSelectMode_def selectedMessages_updateTabState)
next
  show "selectedMessages (selectTabState (enterMessageSelectMode g c (Some (ManyIds ns)) tab) tab)
      = Some \<lparr>sel_chatId = c, sel_messageIds = ns\<rparr>"
    by (simp add: enterMessageSelectMode_def selectedMessages_updateTabState)
next
  fix arg
  show "selectedMessages (selectTabState (enterMessageSelectMode g c arg tab) tab) \<noteq> None"
    by (simp add: enterMessageSelectMode_def Let_def selectedMessages_updateTabState)
next
  fix old g'
  assume a: "selectedMessages (selectTabState g tab) = Some old
    \<and> toggleMessageSelection byGroup g c t ty m grp child shift tab = Some g'"
  then show "case selectedMessages (selectTabState g' tab) of
               None \<Rightarrow> True
             | Some s \<Rightarrow> sel_messageIds s \<noteq> []"
    by (auto simp: toggleMessageSelection_def Let_def exitMessageSelectMode_def
        selectedMessages_updateTabState split: option.splits if_splits)
next
  fix old
  assume a: "selectedMessages (selectTabState g tab) = Some old
    \<and> set (toggledMessageIds byGroup g c m grp child) = set (sel_messageIds old)"
  then have "filter (\<lambda>i. i \<notin> set (sel_messageIds old)) (toggledMessageIds byGroup g c m grp child) = []"
    and "filter (\<lambda>i. i \<notin> set (toggledMessageIds byGroup g c m grp child)) (sel_messageIds old) = []"
    by (auto simp: filter_empty_conv)
  with a have "toggleMessageSelection byGroup g c t ty m grp child shift tab
      = Some (exitMessageSelectMode g tab)"
    by (simp add: toggleMessageSelection_def Let_def)
  then show "\<exists>g'. toggleMessageSelection byGroup g c t ty m grp child shift tab = Some g'
               \<and> selectedMessages (selectTabState g' tab) = None"
    by (simp add: exitMessageSelectMode_def selectedMessages_updateTabState)
qed

text \<open>
  C8 at a tab that has message 12 selected: entering select mode with the id 14, with
  the id \<open>0\<close> and with no ids leaves a store of the id 14 and two empty stores;
  toggling message 12 removes the store, toggling message 14 leaves the ids 12 and 14, a
  store that is not empty.
\<close>

theorem selection_store_after_toggle_witness:
  "selectedMessages (selectTabState ex_selected 1)
      = Some \<lparr>sel_chatId = ''chat'', sel_messageIds = [12]\<rparr>
   \<and> selectedMessages (selectTabState (enterMessageSelectMode ex_selected ''chat'' (Some (OneId 14)) 1) 1)
      = Some \<lparr>sel_chatId = ''chat'', sel_messageIds = [14]\<rparr>
   \<and> selectedMessages (selectTabState (enterMessageSelectMode ex_selected ''chat'' (Some (OneId 0)) 1) 1)
      = Some \<lparr>sel_chatId = ''chat'', sel_messageIds = []\<rparr>
   \<and> selectedMessages (selectTabState (enterMessageSelectMode ex_selected ''chat'' (Some (ManyIds [])) 1) 1)
      = Some \<lparr>sel_chatId = ''chat'', sel_messageIds = []\<rparr>
   \<and> set (toggledMessageIds ex_noGroups ex_selected ''chat'' 12 None None) = set [12]
   \<and> (\<exists>g'. toggleMessageSelection ex_noGroups ex_selected ''chat'' MAIN_THREAD_ID LT_thread 12
              None None False 1 = Some g'
            \<and> selectedMessages (selectTabState g' 1) = None)
   \<and> (\<exists>g'. toggleMessageSelection ex_noGroups ex_selected ''chat'' MAIN_THREAD_ID LT_thread 14
              None None False 1 = Some g'
            \<and> selectedMessages (selectTabState g' 1)
                = Some \<lparr>sel_chatId = ''chat'', sel_messageIds = [12, 14]\<rparr>
            \<and> (case selectedMessages (selectTabState g' 1) of
                  None \<Rightarrow> True
                | Some s \<Rightarrow> sel_messageIds s \<noteq> []))"
proof -
  note at12 = selection_store_after_toggle [of ex_selected "''chat''" 1 14 "[]" ex_noGroups
      MAIN_THREAD_ID LT_thread 12 None None False]
  note at14 = selection_store_after_toggle [of ex_selected "''chat''" 1 0 "[]" ex_noGroups
      MAIN_THREAD_ID LT_thread 14 None None False]
  have old: "selectedMessages (selectTabState ex_selected 1)
      = Some \<lparr>sel_chatId = ''chat'', sel_messageIds = [12]\<rparr>"
    by (simp add: selectTabState_def ex_selected_def)
  have ids: "set (toggledMessageIds ex_noGroups ex_selected ''chat'' 12 None None) = set [12]"
    by (simp add: toggledMessageIds_def)
  have other: "toggleMessageSelection ex_noGroups ex_selected ''chat'' MAIN_THREAD_ID LT_thread 14
      None None False 1
    = Some (updateTabState ex_selected
        (P_selectedMessages (Some \<lparr>sel_chatId = ''chat'', sel_messageIds = [12, 14]\<rparr>)) 1)"
    by (simp add: toggleMessageSelection_def Let_def old toggledMessageIds_def)
  from at12 have enter14: "selectedMessages
        (selectTabState (enterMessageSelectMode ex_selected ''chat'' (Some (OneId 14)) 1) 1)
      = Some \<lparr>sel_chatId = ''chat'', sel_messageIds = [14]\<rparr>"
    by simp
  from at14 have enter0: "selectedMessages
        (selectTabState (enterMessageSelectMode ex_selected ''chat'' (Some (OneId 0)) 1) 1)
      = Some \<lparr>sel_chatId = ''chat'', sel_messageIds = []\<rparr>"
    by simp
  from at14 have enterNone: "selectedMessages
        (selectTabState (enterMessageSelectMode ex_selected ''chat'' (Some (ManyIds [])) 1) 1)
      = Some \<lparr>sel_chatId = ''chat'', sel_messageIds = []\<rparr>"
    by simp
  from at12 old ids
  have gone: "\<exists>g'. toggleMessageSelection ex_noGroups ex_selected ''chat'' MAIN_THREAD_ID LT_thread 12
              None None False 1 = Some g'
            \<and> selectedMessages (selectTabState g' 1) = None"
    by simp
  from at14 [THEN conjunct2, THEN conjunct2, THEN conjunct2, THEN conjunct2, THEN conjunct1,
      rule_format, of _ "updateTabState ex_selected
        (P_selectedMessages (Some \<lparr>sel_chatId = ''chat'', sel_messageIds = [12, 14]\<rparr>)) 1"]
    old other
  have kept: "case selectedMessages (selectTabState (updateTabState ex_selected
        (P_selectedMessages (Some \<lparr>sel_chatId = ''chat'', sel_messageIds = [12, 14]\<rparr>)) 1) 1) of
      None \<Rightarrow> True | Some s \<Rightarrow> sel_messageIds s \<noteq> []"
    by simp
  from old ids other enter14 enter0 enterNone gone kept show ?thesis
    by (simp add: selectedMessages_updateTabState)
qed

subsection \<open>Threads\<close>

lemma selectThread_updateThread_Some:
  "selectThread (updateThread g c t (Some u)) c' t' =
     (if c' = c \<and> t' = t
      then Some (spreadThread (case selectThread g c t of None \<Rightarrow> emptyThread | Some x \<Rightarrow> x) u)
      else selectThread g c' t')"
  by (simp add: selectThread_def updateThread_def updateMessageStore_threadsById_def Let_def
      chatThreads_def update_conv' split: option.splits)

lemma map_of_omitEntries:
  "map_of (omitEntries al ks) k = (if k \<in> set ks then None else map_of al k)"
  by (induction al) (auto simp: omitEntries_def)

lemma selectThread_updateThread_None:
  "selectThread (updateThread g c t None) c' t' =
     (if c' = c \<and> t' = t then None else selectThread g c' t')"
  by (simp add: selectThread_def updateThread_def updateMessageStore_threadsById_def Let_def
      chatThreads_def map_of_omitEntries split: option.splits)

lemma selectThread_replaceThreadParam:
  "selectThread (replaceThreadParam g c t p) c' t' =
     (if c' = c \<and> t' = t
      then Some (setThreadParam (case selectThread g c t of None \<Rightarrow> emptyThread | Some x \<Rightarrow> x) p)
      else selectThread g c' t')"
  by (simp add: replaceThreadParam_def selectThread_updateThread_Some spreadThread_def)

lemma updateThreadInfo_suppressed:
  "updateThreadInfo g c t u True =
     replaceThreadParam g c t (P_threadInfo (Some (mergedThreadInfo g c t u)))"
  apply (subst updateThreadInfo.simps)
  apply (simp only: Let_def mergedThreadInfo_def [symmetric] simp_thms if_True if_False)
  done

lemma updateThreadInfo_cascade:
  "updateThreadInfo g c t u False =
     replaceThreadParam
       (case linkedThread (mergedThreadInfo g c t u) of
          None \<Rightarrow> g
        | Some (lc, lt) \<Rightarrow> updateThreadInfo g lc lt (Some (pickLinked (mergedThreadInfo g c t u))) True)
       c t (P_threadInfo (Some (mergedThreadInfo g c t u)))"
  apply (subst updateThreadInfo.simps)
  apply (simp only: Let_def mergedThreadInfo_def [symmetric] simp_thms if_True if_False)
  apply (simp add: linkedThread_def split: option.splits)
  done


lemma selectThreadInfo_replaceThreadParam_info:
  "selectThreadInfo (replaceThreadParam g c t (P_threadInfo v)) c' t' =
     (if c' = c \<and> t' = t then v else selectThreadInfo g c' t')"
  by (simp add: selectThreadInfo_def selectThreadParam_def selectThread_replaceThreadParam)

lemma pickLinked_spread:
  "ti_messagesCount info = Some v \<Longrightarrow>
     ti_messagesCount (spreadThreadInfo old (pickLinked info)) = Some v"
  "ti_lastMessageId info = Some v \<Longrightarrow>
     ti_lastMessageId (spreadThreadInfo old (pickLinked info)) = Some v"
  "ti_lastReadInboxMessageId info = Some v \<Longrightarrow>
     ti_lastReadInboxMessageId (spreadThreadInfo old (pickLinked info)) = Some v"
  by (simp_all add: spreadThreadInfo_def pickLinked_def orElse_def)

text \<open>
  C4. The link is read from the merged info. Without \<open>doNotUpdateLinked\<close>, when the
  merged info names a linked thread (a comments info with a thread id, or else an info
  with \<open>fromChannelId\<close> and \<open>fromMessageId\<close>), the thread info of the linked thread
  has \<open>messagesCount\<close>, \<open>lastMessageId\<close> and \<open>lastReadInboxMessageId\<close> of the merged
  info afterwards, the local thread has the merged info, and no third thread changes:
  the link of the linked thread is not followed. With \<open>doNotUpdateLinked\<close> the call
  only writes the merged info into the local thread.
\<close>

theorem updateThreadInfo_one_hop:
  "(\<forall>lc lt. linkedThread (mergedThreadInfo g c t u) = Some (lc, lt) \<longrightarrow>
      (\<exists>li. selectThreadInfo (updateThreadInfo g c t u False) lc lt = Some li
         \<and> (\<forall>v. ti_messagesCount (mergedThreadInfo g c t u) = Some v
               \<longrightarrow> ti_messagesCount li = Some v)
         \<and> (\<forall>v. ti_lastMessageId (mergedThreadInfo g c t u) = Some v
               \<longrightarrow> ti_lastMessageId li = Some v)
         \<and> (\<forall>v. ti_lastReadInboxMessageId (mergedThreadInfo g c t u) = Some v
               \<longrightarrow> ti_lastReadInboxMessageId li = Some v))
      \<and> ((lc, lt) \<noteq> (c, t) \<longrightarrow>
            selectThreadInfo (updateThreadInfo g c t u False) lc lt =
              Some (mergedThreadInfo g lc lt (Some (pickLinked (mergedThreadInfo g c t u)))))
      \<and> selectThreadInfo (updateThreadInfo g c t u False) c t = Some (mergedThreadInfo g c t u)
      \<and> (\<forall>c' t'. (c', t') \<noteq> (c, t) \<and> (c', t') \<noteq> (lc, lt) \<longrightarrow>
            selectThread (updateThreadInfo g c t u False) c' t' = selectThread g c' t'))
   \<and> updateThreadInfo g c t u True =
       replaceThreadParam g c t (P_threadInfo (Some (mergedThreadInfo g c t u)))
   \<and> (\<forall>c' t'. selectThread (updateThreadInfo g c t u True) c' t' =
         (if c' = c \<and> t' = t
          then Some ((case selectThread g c t of None \<Rightarrow> emptyThread | Some x \<Rightarrow> x)
                 \<lparr>threadInfo := Some (mergedThreadInfo g c t u)\<rparr>)
          else selectThread g c' t'))"
proof (intro conjI allI impI)
  fix lc lt
  assume link: "linkedThread (mergedThreadInfo g c t u) = Some (lc, lt)"
  let ?info = "mergedThreadInfo g c t u"
  let ?linked = "mergedThreadInfo g lc lt (Some (pickLinked ?info))"
  have run: "updateThreadInfo g c t u False =
      replaceThreadParam (replaceThreadParam g lc lt (P_threadInfo (Some ?linked)))
        c t (P_threadInfo (Some ?info))"
    by (simp add: updateThreadInfo_cascade link updateThreadInfo_suppressed)
  show "\<exists>li. selectThreadInfo (updateThreadInfo g c t u False) lc lt = Some li
         \<and> (\<forall>v. ti_messagesCount ?info = Some v \<longrightarrow> ti_messagesCount li = Some v)
         \<and> (\<forall>v. ti_lastMessageId ?info = Some v \<longrightarrow> ti_lastMessageId li = Some v)
         \<and> (\<forall>v. ti_lastReadInboxMessageId ?info = Some v
               \<longrightarrow> ti_lastReadInboxMessageId li = Some v)"
  proof (cases "lc = c \<and> lt = t")
    case True
    then show ?thesis
      by (simp add: run selectThreadInfo_replaceThreadParam_info)
  next
    case False
    then have "selectThreadInfo (updateThreadInfo g c t u False) lc lt = Some ?linked"
      by (auto simp: run selectThreadInfo_replaceThreadParam_info)
    then show ?thesis
      by (simp add: mergedThreadInfo_def pickLinked_spread)
  qed
  show "selectThreadInfo (updateThreadInfo g c t u False) lc lt = Some ?linked"
    if "(lc, lt) \<noteq> (c, t)"
    using that by (auto simp: run selectThreadInfo_replaceThreadParam_info)
  show "selectThreadInfo (updateThreadInfo g c t u False) c t = Some ?info"
    by (simp add: run selectThreadInfo_replaceThreadParam_info)
  show "selectThread (updateThreadInfo g c t u False) c' t' = selectThread g c' t'"
    if "(c', t') \<noteq> (c, t) \<and> (c', t') \<noteq> (lc, lt)" for c' t'
    using that by (auto simp: run selectThread_replaceThreadParam)
next
  show "updateThreadInfo g c t u True =
       replaceThreadParam g c t (P_threadInfo (Some (mergedThreadInfo g c t u)))"
    by (rule updateThreadInfo_suppressed)
next
  fix c' t'
  show "selectThread (updateThreadInfo g c t u True) c' t' =
         (if c' = c \<and> t' = t
          then Some ((case selectThread g c t of None \<Rightarrow> emptyThread | Some x \<Rightarrow> x)
                 \<lparr>threadInfo := Some (mergedThreadInfo g c t u)\<rparr>)
          else selectThread g c' t')"
    by (simp add: updateThreadInfo_suppressed selectThread_replaceThreadParam)
qed


text \<open>
  C4 at a channel post (thread 10 of the channel) whose comments info names thread 55 of
  the group, both with 3 messages, and the update of the count to 4: the count of the
  group thread becomes 4 as well, and with \<open>doNotUpdateLinked\<close> it stays 3.
\<close>

theorem updateThreadInfo_one_hop_witness:
  "linkedThread (mergedThreadInfo ex_linked ''channel'' 10 (Some ex_countUpdate))
      = Some (''group'', 55)
   \<and> ti_messagesCount (mergedThreadInfo ex_linked ''channel'' 10 (Some ex_countUpdate)) = Some 4
   \<and> (\<exists>li. selectThreadInfo
             (updateThreadInfo ex_linked ''channel'' 10 (Some ex_countUpdate) False) ''group'' 55
           = Some li \<and> ti_messagesCount li = Some 4)
   \<and> map_option ti_messagesCount (selectThreadInfo
         (updateThreadInfo ex_linked ''channel'' 10 (Some ex_countUpdate) False) ''channel'' 10)
       = Some (Some 4)
   \<and> map_option ti_messagesCount (selectThreadInfo
         (updateThreadInfo ex_linked ''channel'' 10 (Some ex_countUpdate) True) ''group'' 55)
       = Some (Some 3)"
proof -
  have info: "selectThreadInfo ex_linked ''channel'' 10 = Some ex_commentsInfo"
    by (simp add: selectThreadInfo_def selectThreadParam_def selectThread_def ex_linked_def emptyThread_def)
  have other: "selectThreadInfo ex_linked ''group'' 55 = Some ex_discussionInfo"
    by (simp add: selectThreadInfo_def selectThreadParam_def selectThread_def ex_linked_def emptyThread_def)
  have merged: "mergedThreadInfo ex_linked ''channel'' 10 (Some ex_countUpdate)
      = ex_commentsInfo\<lparr>ti_messagesCount := Some 4\<rparr>"
    by (simp add: mergedThreadInfo_def info spreadThreadInfo_def orElse_def ex_countUpdate_def
        ex_commentsInfo_def emptyThreadInfo_def)
  have link: "linkedThread (mergedThreadInfo ex_linked ''channel'' 10 (Some ex_countUpdate))
      = Some (''group'', 55)"
    by (simp add: merged linkedThread_def ex_commentsInfo_def emptyThreadInfo_def truthyBool_def
        chatKey_def)
  have count: "ti_messagesCount (mergedThreadInfo ex_linked ''channel'' 10 (Some ex_countUpdate))
      = Some 4"
    by (simp add: merged)
  have kept: "ti_messagesCount ex_discussionInfo = Some 3"
    by (simp add: ex_discussionInfo_def emptyThreadInfo_def)
  note hop = updateThreadInfo_one_hop [of ex_linked "''channel''" 10 "Some ex_countUpdate"]
  note linked = hop [THEN conjunct1, rule_format, OF link]
  from linked [THEN conjunct1] obtain li where
    li: "selectThreadInfo
          (updateThreadInfo ex_linked ''channel'' 10 (Some ex_countUpdate) False) ''group'' 55
        = Some li"
    and "\<forall>v. ti_messagesCount (mergedThreadInfo ex_linked ''channel'' 10 (Some ex_countUpdate))
          = Some v \<longrightarrow> ti_messagesCount li = Some v"
    by blast
  with count have a: "ti_messagesCount li = Some 4"
    by blast
  note b = linked [THEN conjunct2, THEN conjunct2, THEN conjunct1]
  have "selectThread (updateThreadInfo ex_linked ''channel'' 10 (Some ex_countUpdate) True)
      ''group'' 55 = selectThread ex_linked ''group'' 55"
    by (simp add: hop [THEN conjunct2, THEN conjunct2, rule_format])
  with other
  have c: "selectThreadInfo (updateThreadInfo ex_linked ''channel'' 10 (Some ex_countUpdate) True)
      ''group'' 55 = Some ex_discussionInfo"
    by (simp add: selectThreadInfo_def selectThreadParam_def)
  from link count li a b c kept show ?thesis
    by simp
qed

subsection \<open>Scheduled messages\<close>

lemma scheduled_replaceThreadParam:
  "scheduledMessages_byChatId (replaceThreadParam g c t p) = scheduledMessages_byChatId g"
  by (simp add: replaceThreadParam_def updateThread_def updateMessageStore_threadsById_def Let_def)

lemma map_of_chatThreads: "map_of (chatThreads g c) T = selectThread g c T"
  by (simp add: chatThreads_def selectThread_def split: option.splits)

lemma chatThreads_replaceThreadParam:
  "chatThreads (replaceThreadParam g c t p) c =
     AList.update t
       (setThreadParam (case selectThread g c t of None \<Rightarrow> emptyThread | Some x \<Rightarrow> x) p)
       (chatThreads g c)"
  by (simp add: replaceThreadParam_def updateThread_def updateMessageStore_threadsById_def
      Let_def spreadThread_def map_of_chatThreads)
    (simp add: chatThreads_def)

lemma strip_main_filter:
  "foldl (\<lambda>acc messageId. if messageId \<in> set acc then filter (\<lambda>i. i \<noteq> messageId) acc else acc)
     ids messageIds = filter (\<lambda>i. i \<notin> set messageIds) ids"
proof (induction messageIds arbitrary: ids)
  case Nil
  then show ?case by simp
next
  case (Cons m ms)
  have "(if m \<in> set ids then filter (\<lambda>i. i \<noteq> m) ids else ids) = filter (\<lambda>i. i \<noteq> m) ids"
    by (induction ids) auto
  then show ?case
    by (simp add: Cons.IH)
qed

lemma selectThread_stripScheduled:
  "selectThread (stripScheduled c ids g e) c' T =
     (if c' = c \<and> T = fst e \<and> scheduledIds (snd e) \<noteq> None
      then Some ((case selectThread g c T of None \<Rightarrow> emptyThread | Some x \<Rightarrow> x)
             \<lparr>scheduledIds := map_option (filter (\<lambda>i. i \<notin> set ids)) (scheduledIds (snd e))\<rparr>)
      else selectThread g c' T)"
  by (auto simp: stripScheduled_def selectThread_replaceThreadParam split: option.splits)

lemma selectThread_foldl_stripScheduled:
  "distinct (map fst es) \<Longrightarrow>
   selectThread (foldl (stripScheduled c ids) g es) c' T =
     (case (if c' = c then map_of es T else None) of
        None \<Rightarrow> selectThread g c' T
      | Some th \<Rightarrow>
          (case scheduledIds th of
             None \<Rightarrow> selectThread g c' T
           | Some l \<Rightarrow>
               Some ((case selectThread g c T of None \<Rightarrow> emptyThread | Some x \<Rightarrow> x)
                 \<lparr>scheduledIds := Some (filter (\<lambda>i. i \<notin> set ids) l)\<rparr>)))"
proof (induction es arbitrary: g)
  case Nil
  then show ?case by simp
next
  case (Cons e es)
  from Cons.prems have d: "distinct (map fst es)" and n: "fst e \<notin> fst ` set es"
    by auto
  from n have none: "map_of es (fst e) = None"
    by (simp add: map_of_eq_None_iff)
  note IH = Cons.IH [OF d, of "stripScheduled c ids g e"]
  show ?case
  proof (cases "c' = c \<and> T = fst e")
    case True
    with none IH show ?thesis
      by (simp add: selectThread_stripScheduled split: option.splits)
  next
    case False
    with IH show ?thesis
      by (auto simp: selectThread_stripScheduled split: option.splits)
  qed
qed


lemma selectThreadInfo_replaceThreadParam_scheduledIds:
  "selectThreadInfo (replaceThreadParam g c t (P_scheduledIds v)) c' t' = selectThreadInfo g c' t'"
  by (simp add: selectThreadInfo_def selectThreadParam_def selectThread_replaceThreadParam emptyThread_def
      split: option.splits)

lemma selectThreadInfo_foldl_stripScheduled:
  "selectThreadInfo (foldl (stripScheduled c ids) g es) c' T = selectThreadInfo g c' T"
proof (induction es arbitrary: g)
  case Nil
  then show ?case by simp
next
  case (Cons e es)
  then show ?case
    by (simp add: stripScheduled_def selectThreadInfo_replaceThreadParam_scheduledIds
        split: option.splits)
qed

lemma byTabId_foldl_stripScheduled:
  "byTabId (foldl (stripScheduled c ids) g es) = byTabId g"
  by (induction es arbitrary: g) (simp_all add: stripScheduled_def split: option.splits)

lemma scheduled_foldl_stripScheduled:
  "scheduledMessages_byChatId (foldl (stripScheduled c ids) g es) = scheduledMessages_byChatId g"
  by (induction es arbitrary: g)
    (simp_all add: stripScheduled_def scheduled_replaceThreadParam split: option.splits)

text \<open>
  C7 as stated fails: in a chat whose main thread has no \<open>scheduledIds\<close> list while
  thread 5 lists the scheduled message 7, deleting message 7 leaves it in the list of
  thread 5.
\<close>

theorem deleteChatScheduledMessages_topic_counterexample:
  "selectScheduledMessage ex_scheduledTopic ''chat'' 7 \<noteq> None
   \<and> selectScheduledIds ex_scheduledTopic ''chat'' 5 = Some [7]
   \<and> selectScheduledIds (deleteChatScheduledMessages ex_scheduledTopic ''chat'' [7]) ''chat'' 5
       = Some [7]"
  by (simp add: deleteChatScheduledMessages_def selectChatScheduledMessages_def
      selectScheduledMessage_def selectScheduledIds_def selectThreadParam_def selectThread_def ex_scheduledTopic_def
      MAIN_THREAD_ID_def Let_def)


text \<open>
  C7, as the code has it. In a chat that has a scheduled-message table, after
  \<open>deleteChatScheduledMessages\<close> the table holds none of the given ids. When the main
  thread of the chat has a \<open>scheduledIds\<close> list, the given ids are removed from the
  \<open>scheduledIds\<close> list of every thread of the chat, the main one included; when it has
  none, the \<open>scheduledIds\<close> list of every thread is as before. No tab state (and so no
  viewport) and no thread info is touched.
\<close>

theorem deleteChatScheduledMessages_strips:
  assumes "selectChatScheduledMessages g c = Some table"
  shows "selectChatScheduledMessages (deleteChatScheduledMessages g c ids) c = Some (omit table ids)
    \<and> (\<forall>i \<in> set ids. selectScheduledMessage (deleteChatScheduledMessages g c ids) c i = None)
    \<and> (selectScheduledIds g c MAIN_THREAD_ID \<noteq> None \<and> threadKeysDistinct g c \<longrightarrow>
         (\<forall>T. selectScheduledIds (deleteChatScheduledMessages g c ids) c T =
                map_option (filter (\<lambda>i. i \<notin> set ids)) (selectScheduledIds g c T)))
    \<and> byTabId (deleteChatScheduledMessages g c ids) = byTabId g
    \<and> (\<forall>c' T. selectThreadInfo (deleteChatScheduledMessages g c ids) c' T =
          selectThreadInfo g c' T)
    \<and> (selectScheduledIds g c MAIN_THREAD_ID = None \<longrightarrow>
         (\<forall>c' T. selectScheduledIds (deleteChatScheduledMessages g c ids) c' T =
                   selectScheduledIds g c' T))"
proof -
  let ?keep = "filter (\<lambda>i. i \<notin> set ids)"
  define g2 where "g2 =
    (case selectScheduledIds g c MAIN_THREAD_ID of
       None \<Rightarrow> g
     | Some l \<Rightarrow>
         foldl (stripScheduled c ids)
           (replaceThreadParam g c MAIN_THREAD_ID (P_scheduledIds (Some (?keep l))))
           (chatThreads (replaceThreadParam g c MAIN_THREAD_ID (P_scheduledIds (Some (?keep l)))) c))"
  have run: "deleteChatScheduledMessages g c ids =
      g2\<lparr>scheduledMessages_byChatId :=
        (scheduledMessages_byChatId g2)(c \<mapsto> \<lparr>sch_byId = omit table ids, sch_hash = None\<rparr>)\<rparr>"
    using assms
    by (simp add: deleteChatScheduledMessages_def Let_def g2_def strip_main_filter
        split: option.splits)
  have threads: "selectThread (deleteChatScheduledMessages g c ids) c' T = selectThread g2 c' T"
    for c' T
    by (simp add: run selectThread_def)
  have table: "selectChatScheduledMessages (deleteChatScheduledMessages g c ids) c
      = Some (omit table ids)"
    by (simp add: run selectChatScheduledMessages_def)
  then have gone: "\<forall>i \<in> set ids. selectScheduledMessage (deleteChatScheduledMessages g c ids) c i = None"
    by (simp add: selectScheduledMessage_def omit_def)
  have tabs: "byTabId (deleteChatScheduledMessages g c ids) = byTabId g"
    by (simp add: run g2_def byTabId_foldl_stripScheduled split: option.splits)
  have infos: "selectThreadInfo (deleteChatScheduledMessages g c ids) c' T = selectThreadInfo g c' T"
    for c' T
  proof -
    have "selectThreadInfo g2 c' T = selectThreadInfo g c' T"
      by (simp add: g2_def selectThreadInfo_foldl_stripScheduled
          selectThreadInfo_replaceThreadParam_scheduledIds split: option.splits)
    then show ?thesis
      by (simp add: selectThreadInfo_def selectThreadParam_def threads)
  qed
  have lists: "selectScheduledIds (deleteChatScheduledMessages g c ids) c T =
      map_option ?keep (selectScheduledIds g c T)"
    if main: "selectScheduledIds g c MAIN_THREAD_ID \<noteq> None" and d: "threadKeysDistinct g c" for T
  proof -
    from main obtain l where l: "selectScheduledIds g c MAIN_THREAD_ID = Some l"
      by auto
    let ?g1 = "replaceThreadParam g c MAIN_THREAD_ID (P_scheduledIds (Some (?keep l)))"
    have g2: "g2 = foldl (stripScheduled c ids) ?g1 (chatThreads ?g1 c)"
      by (simp add: g2_def l)
    from d have d1: "distinct (map fst (chatThreads ?g1 c))"
      by (simp add: threadKeysDistinct_def chatThreads_replaceThreadParam distinct_update)
    have one: "selectScheduledIds ?g1 c T =
        (if T = MAIN_THREAD_ID then Some (?keep l) else selectScheduledIds g c T)"
      by (simp add: selectScheduledIds_def selectThreadParam_def selectThread_replaceThreadParam)
    have "selectThread g2 c T =
        (case selectThread ?g1 c T of
           None \<Rightarrow> None
         | Some th \<Rightarrow>
             (case scheduledIds th of
                None \<Rightarrow> Some th
              | Some l' \<Rightarrow> Some (th\<lparr>scheduledIds := Some (?keep l')\<rparr>)))"
      unfolding g2
      by (simp add: selectThread_foldl_stripScheduled [OF d1] map_of_chatThreads
          split: option.splits)
    then have "selectScheduledIds g2 c T = map_option ?keep (selectScheduledIds ?g1 c T)"
      by (simp add: selectScheduledIds_def selectThreadParam_def split: option.splits)
    with one l have "selectScheduledIds g2 c T = map_option ?keep (selectScheduledIds g c T)"
      by auto
    then show ?thesis
      by (simp add: selectScheduledIds_def selectThreadParam_def threads)
  qed
  have kept: "selectScheduledIds (deleteChatScheduledMessages g c ids) c' T
      = selectScheduledIds g c' T"
    if "selectScheduledIds g c MAIN_THREAD_ID = None" for c' T
  proof -
    from that have "g2 = g"
      by (simp add: g2_def)
    then show ?thesis
      by (simp add: selectScheduledIds_def selectThreadParam_def threads)
  qed
  from table gone lists tabs infos kept show ?thesis
    by blast
qed


text \<open>
  C7 at a chat whose main thread lists the scheduled messages 7 and 8 and whose thread
  5 lists message 7: deleting message 7 leaves 8 in the main thread and nothing in
  thread 5. At a chat whose main thread has no list, deleting message 7 takes it from
  the table and leaves the list of thread 5 as before.
\<close>

theorem deleteChatScheduledMessages_strips_witness:
  "selectChatScheduledMessages ex_scheduled ''chat''
      = Some [7 \<mapsto> emptyMessage\<lparr>msg_id := Some 7\<rparr>, 8 \<mapsto> emptyMessage\<lparr>msg_id := Some 8\<rparr>]
   \<and> selectScheduledIds ex_scheduled ''chat'' MAIN_THREAD_ID = Some [7, 8]
   \<and> selectScheduledIds ex_scheduled ''chat'' 5 = Some [7]
   \<and> threadKeysDistinct ex_scheduled ''chat''
   \<and> selectScheduledMessage (deleteChatScheduledMessages ex_scheduled ''chat'' [7]) ''chat'' 7 = None
   \<and> selectScheduledIds (deleteChatScheduledMessages ex_scheduled ''chat'' [7]) ''chat''
         MAIN_THREAD_ID = Some [8]
   \<and> selectScheduledIds (deleteChatScheduledMessages ex_scheduled ''chat'' [7]) ''chat'' 5 = Some []
   \<and> selectChatScheduledMessages ex_scheduledTopic ''chat''
      = Some [7 \<mapsto> emptyMessage\<lparr>msg_id := Some 7\<rparr>]
   \<and> selectScheduledIds ex_scheduledTopic ''chat'' MAIN_THREAD_ID = None
   \<and> selectScheduledMessage (deleteChatScheduledMessages ex_scheduledTopic ''chat'' [7]) ''chat'' 7
      = None
   \<and> selectScheduledIds (deleteChatScheduledMessages ex_scheduledTopic ''chat'' [7]) ''chat'' 5
      = selectScheduledIds ex_scheduledTopic ''chat'' 5"
proof -
  have tableTopic: "selectChatScheduledMessages ex_scheduledTopic ''chat''
      = Some [7 \<mapsto> emptyMessage\<lparr>msg_id := Some 7\<rparr>]"
    by (simp add: selectChatScheduledMessages_def ex_scheduledTopic_def)
  have mainTopic: "selectScheduledIds ex_scheduledTopic ''chat'' MAIN_THREAD_ID = None"
    by (simp add: selectScheduledIds_def selectThreadParam_def selectThread_def
        ex_scheduledTopic_def MAIN_THREAD_ID_def)
  note stripsTopic = deleteChatScheduledMessages_strips [OF tableTopic, of "[7]"]
  from stripsTopic have goneTopic:
    "selectScheduledMessage (deleteChatScheduledMessages ex_scheduledTopic ''chat'' [7]) ''chat'' 7
      = None"
    by simp
  from stripsTopic mainTopic
  have keptTopic: "selectScheduledIds (deleteChatScheduledMessages ex_scheduledTopic ''chat'' [7])
      ''chat'' 5 = selectScheduledIds ex_scheduledTopic ''chat'' 5"
    by simp
  have table: "selectChatScheduledMessages ex_scheduled ''chat''
      = Some [7 \<mapsto> emptyMessage\<lparr>msg_id := Some 7\<rparr>, 8 \<mapsto> emptyMessage\<lparr>msg_id := Some 8\<rparr>]"
    by (simp add: selectChatScheduledMessages_def ex_scheduled_def)
  have main: "selectScheduledIds ex_scheduled ''chat'' MAIN_THREAD_ID = Some [7, 8]"
    by (simp add: selectScheduledIds_def selectThreadParam_def selectThread_def ex_scheduled_def)
  have topic: "selectScheduledIds ex_scheduled ''chat'' 5 = Some [7]"
    by (simp add: selectScheduledIds_def selectThreadParam_def selectThread_def ex_scheduled_def MAIN_THREAD_ID_def)
  have keys: "threadKeysDistinct ex_scheduled ''chat''"
    by (simp add: threadKeysDistinct_def chatThreads_def ex_scheduled_def MAIN_THREAD_ID_def)
  note strips = deleteChatScheduledMessages_strips [OF table, of "[7]"]
  from strips have gone:
    "selectScheduledMessage (deleteChatScheduledMessages ex_scheduled ''chat'' [7]) ''chat'' 7 = None"
    by simp
  from strips main keys
  have lists: "selectScheduledIds (deleteChatScheduledMessages ex_scheduled ''chat'' [7]) ''chat'' T =
      map_option (filter (\<lambda>i. i \<notin> set [7])) (selectScheduledIds ex_scheduled ''chat'' T)" for T
    by simp
  from table main topic keys gone tableTopic mainTopic goneTopic keptTopic show ?thesis
    by (simp add: lists)
qed

subsection \<open>Sorted-array subtraction\<close>

lemma set_excludeSortedArray: "set (excludeSortedArray xs ys) \<subseteq> set xs"
  by (induction xs ys rule: excludeSortedArray.induct) auto

lemma sorted_excludeSortedArray: "sorted xs \<Longrightarrow> sorted (excludeSortedArray xs ys)"
proof (induction xs ys rule: excludeSortedArray.induct)
  case (3 x base y toExclude)
  then show ?case
    using set_excludeSortedArray [of base "y # toExclude"] by auto
qed simp_all

lemma excludeSortedArray_disjoint:
  "sorted xs \<Longrightarrow> sorted ys \<Longrightarrow> set (excludeSortedArray xs ys) \<inter> set ys = {}"
proof (induction xs ys rule: excludeSortedArray.induct)
  case (3 x base y toExclude)
  show ?case
  proof (cases "x = y")
    case True
    with 3 show ?thesis by simp
  next
    case False
    show ?thesis
    proof (cases "x < y")
      case True
      with 3 False have "set (excludeSortedArray base (y # toExclude)) \<inter> set (y # toExclude) = {}"
        by simp
      moreover from True 3(5) have "x \<notin> set (y # toExclude)"
        by auto
      ultimately show ?thesis
        using False True by auto
    next
      case gt: False
      with 3 False have ih: "set (excludeSortedArray (x # base) toExclude) \<inter> set toExclude = {}"
        by simp
      from gt False have "y < x" by simp
      with 3(4) have "y \<notin> set (x # base)"
        by auto
      with set_excludeSortedArray [of "x # base" toExclude]
      have "y \<notin> set (excludeSortedArray (x # base) toExclude)"
        by blast
      with ih False gt show ?thesis
        by simp
    qed
  qed
qed simp_all

subsection \<open>Loops\<close>

lemma foldl_preserves:
  assumes "\<And>g x. P g \<Longrightarrow> P (f g x)" and "P g"
  shows "P (foldl f g xs)"
  using assms(2) by (induction xs arbitrary: g) (simp_all add: assms(1))

lemma foldl_establishes:
  assumes pre: "\<And>g x. Pre g \<Longrightarrow> Pre (f g x)"
    and good: "\<And>g x. Good g \<Longrightarrow> Good (f g x)"
    and est: "\<And>g. Pre g \<Longrightarrow> Good (f g a)"
    and "a \<in> set xs" and "Pre g"
  shows "Good (foldl f g xs)"
  using assms(4,5)
proof (induction xs arbitrary: g)
  case Nil
  then show ?case by simp
next
  case (Cons x xs)
  show ?case
  proof (cases "x = a")
    case True
    with Cons.prems est have "Good (f g x)" by simp
    with good have "Good (foldl f (f g x) xs)"
      by (intro foldl_preserves [where P = Good]) auto
    then show ?thesis by simp
  next
    case False
    with Cons.prems have "a \<in> set xs" by simp
    moreover from Cons.prems pre have "Pre (f g x)" by simp
    ultimately show ?thesis
      using Cons.IH by simp
  qed
qed

subsection \<open>Frames of the writes\<close>

lemma messages_updateTabState [simp]:
  "messages_byChatId (updateTabState g p tab) = messages_byChatId g"
  by (simp add: updateTabState_def)

lemma selectThread_updateTabState [simp]:
  "selectThread (updateTabState g p tab) c t = selectThread g c t"
  by (simp add: selectThread_def)

lemma selectThread_updateTabThread [simp]:
  "selectThread (updateTabThread g c t p tab) c' t' = selectThread g c' t'"
  by (simp add: updateTabThread_def Let_def)

lemma selectChatMessage_updateTabState [simp]:
  "selectChatMessage (updateTabState g p tab) c i = selectChatMessage g c i"
  by (simp add: selectChatMessage_def selectChatMessages_def)

lemma selectChatMessage_updateThread [simp]:
  "selectChatMessage (updateThread g c t u) c' i = selectChatMessage g c' i"
  by (simp add: selectChatMessage_def selectChatMessages_def updateThread_def Let_def
      updateMessageStore_threadsById_def split: option.splits)

lemma selectChatMessage_replaceThreadParam [simp]:
  "selectChatMessage (replaceThreadParam g c t p) c' i = selectChatMessage g c' i"
  by (simp add: replaceThreadParam_def)

lemma keys_updateTabState:
  "tab \<in> fst ` set (byTabId g) \<Longrightarrow>
     map fst (byTabId (updateTabState g p tab)) = map fst (byTabId g)"
  by (simp add: updateTabState_def update_keys)

lemma selectThreadParam_replaceThreadParam:
  "selectThreadParam (replaceThreadParam g c t p) c' t' key =
     (if c' = c \<and> t' = t
      then key (setThreadParam (case selectThread g c t of None \<Rightarrow> emptyThread | Some x \<Rightarrow> x) p)
      else selectThreadParam g c' t' key)"
  by (simp add: selectThreadParam_def selectThread_replaceThreadParam)

lemma selectThreadParam_other_key:
  assumes "key emptyThread = None" and "\<And>th. key (setThreadParam th p) = key th"
  shows "selectThreadParam (replaceThreadParam g c t p) c' t' key = selectThreadParam g c' t' key"
  using assms
  by (simp add: selectThreadParam_replaceThreadParam) (simp add: selectThreadParam_def split: option.splits)

lemma selectThreadParam_updateThreadInfo:
  assumes "key emptyThread = None" and "\<And>th v. key (th\<lparr>threadInfo := v\<rparr>) = key th"
  shows "selectThreadParam (updateThreadInfo g c t u d) c' t' key = selectThreadParam g c' t' key"
proof -
  have one: "selectThreadParam (replaceThreadParam h a b (P_threadInfo v)) c' t' key
      = selectThreadParam h c' t' key" for h a b v
    by (rule selectThreadParam_other_key) (simp_all add: assms)
  show ?thesis
  proof (cases d)
    case True
    then show ?thesis
      by (simp add: updateThreadInfo_suppressed one)
  next
    case False
    then show ?thesis
      by (simp add: updateThreadInfo_cascade updateThreadInfo_suppressed one split: option.splits)
  qed
qed

lemma selectThreadParam_updateTabThread [simp]:
  "selectThreadParam (updateTabThread g c t p tab) c' t' key = selectThreadParam g c' t' key"
  by (simp add: selectThreadParam_def)

lemma selectThreadParam_replaceTabThreadParam:
  assumes "key emptyThread = None" and "\<And>th v. key (th\<lparr>lastViewportIds := v\<rparr>) = key th"
  shows "selectThreadParam (replaceTabThreadParam g c t p tab) c' t' key
      = selectThreadParam g c' t' key"
proof (cases p)
  case (P_viewportIds v)
  have "selectThreadParam (replaceThreadParam g c t (P_lastViewportIds v)) c' t' key
      = selectThreadParam g c' t' key"
    by (rule selectThreadParam_other_key) (simp_all add: assms)
  with P_viewportIds show ?thesis
    by (simp add: replaceTabThreadParam_def)
next
  case P_otherTabThreadParam
  then show ?thesis
    by (simp add: replaceTabThreadParam_def)
qed

lemma selectThreadParam_excludeViewport:
  assumes "key emptyThread = None" and "\<And>th v. key (th\<lparr>lastViewportIds := v\<rparr>) = key th"
  shows "selectThreadParam (excludeViewport c t ids g tab) c' t' key = selectThreadParam g c' t' key"
  by (simp add: excludeViewport_def Let_def selectThreadParam_replaceTabThreadParam [OF assms]
      split: option.splits)

lemma selectThreadParam_foldl_excludeViewport:
  assumes "key emptyThread = None" and "\<And>th v. key (th\<lparr>lastViewportIds := v\<rparr>) = key th"
  shows "selectThreadParam (foldl (excludeViewport c t ids) g tabs) c' t' key
      = selectThreadParam g c' t' key"
  by (induction tabs arbitrary: g) (simp_all add: selectThreadParam_excludeViewport [OF assms])

lemma byTabId_updateThreadInfo [simp]: "byTabId (updateThreadInfo g c t u d) = byTabId g"
  by (cases d)
    (simp_all add: updateThreadInfo_cascade updateThreadInfo_suppressed split: option.splits)

lemma selectViewportIds_byTabId:
  "byTabId g' = byTabId g \<Longrightarrow> selectViewportIds g' c t tab = selectViewportIds g c t tab"
  by (simp add: selectViewportIds_def selectTabThread_def selectTabState_def)

lemma selectChatMessage_updateThreadInfo [simp]:
  "selectChatMessage (updateThreadInfo g c t u d) c' i = selectChatMessage g c' i"
  by (cases d)
    (simp_all add: updateThreadInfo_cascade updateThreadInfo_suppressed split: option.splits)

lemma selectViewportIds_excludeViewport:
  "selectViewportIds (excludeViewport c t ids g tab) c' t' tab' =
     (if tab' = tab \<and> c' = c \<and> t' = t
      then (case selectViewportIds g c t tab of
              None \<Rightarrow> None
            | Some v \<Rightarrow> if excludeSortedArray v ids = [] then None
                        else Some (excludeSortedArray v ids))
      else selectViewportIds g c' t' tab')"
  by (simp add: excludeViewport_def Let_def selectViewportIds_replaceTabThreadParam
      split: option.splits)

lemma viewport_tab_exists:
  "selectViewportIds g c t tab = Some v \<Longrightarrow> tab \<in> fst ` set (byTabId g)"
proof (cases "map_of (byTabId g) tab")
  case None
  then show "selectViewportIds g c t tab = Some v \<Longrightarrow> ?thesis"
    by (simp add: selectViewportIds_def selectTabThread_def selectTabState_def emptyTabState_def)
next
  case (Some s)
  then show ?thesis
    by (metis domI dom_map_of_conv_image_fst)
qed

lemma byTabId_keys_excludeViewport:
  "map fst (byTabId (excludeViewport c t ids g tab)) = map fst (byTabId g)"
proof (cases "selectViewportIds g c t tab")
  case None
  then show ?thesis by (simp add: excludeViewport_def)
next
  case (Some v)
  then have "tab \<in> fst ` set (byTabId g)"
    by (rule viewport_tab_exists)
  with Some show ?thesis
    by (simp add: excludeViewport_def Let_def replaceTabThreadParam_def updateTabThread_def
        keys_updateTabState)
qed

subsection \<open>Deleting from one thread\<close>

lemma idsSorted_exclude:
  "idsSorted a \<Longrightarrow> idsSorted (map_option (\<lambda>l. excludeSortedArray l ys) a)"
  by (cases a) (simp_all add: idsSorted_def sorted_excludeSortedArray)

lemma idsWithout_exclude_any:
  "idsWithout D a \<Longrightarrow> idsWithout D (map_option (\<lambda>l. excludeSortedArray l ys) a)"
  using set_excludeSortedArray by (cases a) (fastforce simp: idsWithout_def)+

lemma idsWithout_exclude:
  "idsSorted a \<Longrightarrow> sorted D \<Longrightarrow> idsWithout D (map_option (\<lambda>l. excludeSortedArray l D) a)"
  by (cases a) (simp_all add: idsSorted_def idsWithout_def excludeSortedArray_disjoint)

lemma idsWithout_exclude_sort:
  "idsSorted a \<Longrightarrow> idsWithout D (map_option (\<lambda>l. excludeSortedArray l (orderPinnedIds D)) a)"
  using excludeSortedArray_disjoint [of _ "sort D"]
  by (cases a) (simp_all add: idsSorted_def idsWithout_def orderPinnedIds_def)

lemma listsSorted_exclude:
  "listsSorted a \<Longrightarrow> listsSorted (map_option (map (\<lambda>l. excludeSortedArray l ys)) a)"
  by (cases a) (simp_all add: listsSorted_def list_all_iff sorted_excludeSortedArray)

lemma listsWithout_exclude_any:
  "listsWithout D a \<Longrightarrow> listsWithout D (map_option (map (\<lambda>l. excludeSortedArray l ys)) a)"
  using set_excludeSortedArray by (cases a) (fastforce simp: listsWithout_def list_all_iff)+

lemma listsWithout_exclude:
  "listsSorted a \<Longrightarrow> sorted D \<Longrightarrow>
     listsWithout D (map_option (map (\<lambda>l. excludeSortedArray l D)) a)"
  by (cases a)
    (simp_all add: listsSorted_def listsWithout_def list_all_iff excludeSortedArray_disjoint)

lemma listedIds_frames:
  "selectListedIds (updateThreadInfo g c t u d) c' t' = selectListedIds g c' t'"
  "selectListedIds (foldl (excludeViewport c t ids) g tabs) c' t' = selectListedIds g c' t'"
  by (simp_all add: selectListedIds_def selectThreadParam_updateThreadInfo
      selectThreadParam_foldl_excludeViewport emptyThread_def)

lemma outlyingLists_frames:
  "selectOutlyingLists (updateThreadInfo g c t u d) c' t' = selectOutlyingLists g c' t'"
  "selectOutlyingLists (foldl (excludeViewport c t ids) g tabs) c' t' = selectOutlyingLists g c' t'"
  by (simp_all add: selectOutlyingLists_def selectThreadParam_updateThreadInfo
      selectThreadParam_foldl_excludeViewport emptyThread_def)

lemma pinnedIds_frames:
  "selectPinnedIds (updateThreadInfo g c t u d) c' t' = selectPinnedIds g c' t'"
  "selectPinnedIds (foldl (excludeViewport c t ids) g tabs) c' t' = selectPinnedIds g c' t'"
  by (simp_all add: selectPinnedIds_def selectThreadParam_updateThreadInfo
      selectThreadParam_foldl_excludeViewport emptyThread_def)

lemma listedIds_deleteThreadMessages:
  "selectListedIds (deleteThreadMessages isLocal c ids g (T', tids)) c T =
     (if T' = T then map_option (\<lambda>l. excludeSortedArray l tids) (selectListedIds g c T)
      else selectListedIds g c T)"
  by (simp add: deleteThreadMessages_def Let_def listedIds_frames)
    (simp add: selectListedIds_def selectThreadParam_replaceThreadParam
      selectThread_replaceThreadParam selectThreadParam_foldl_excludeViewport emptyThread_def)

lemma outlyingLists_deleteThreadMessages:
  "selectOutlyingLists (deleteThreadMessages isLocal c ids g (T', tids)) c T =
     (if T' = T
      then map_option (map (\<lambda>l. excludeSortedArray l tids)) (selectOutlyingLists g c T)
      else selectOutlyingLists g c T)"
  by (simp add: deleteThreadMessages_def Let_def outlyingLists_frames)
    (simp add: selectOutlyingLists_def selectThreadParam_replaceThreadParam
      selectThread_replaceThreadParam selectThreadParam_foldl_excludeViewport emptyThread_def)

lemma pinnedIds_deleteThreadMessages:
  "selectPinnedIds (deleteThreadMessages isLocal c ids g (T', tids)) c T =
     (if T' = T
      then map_option (\<lambda>l. excludeSortedArray l (orderPinnedIds tids)) (selectPinnedIds g c T)
      else selectPinnedIds g c T)"
  by (simp add: deleteThreadMessages_def Let_def pinnedIds_frames)
    (simp add: selectPinnedIds_def selectThreadParam_replaceThreadParam
      selectThread_replaceThreadParam selectThreadParam_foldl_excludeViewport emptyThread_def)

subsection \<open>The viewports of a thread\<close>

lemma idsSorted_shrink:
  "idsSorted a \<Longrightarrow>
     idsSorted (case a of None \<Rightarrow> None
                | Some v \<Rightarrow> if excludeSortedArray v ys = [] then None
                            else Some (excludeSortedArray v ys))"
  by (cases a) (simp_all add: idsSorted_def sorted_excludeSortedArray)

lemma idsWithout_shrink_any:
  "idsWithout D a \<Longrightarrow>
     idsWithout D (case a of None \<Rightarrow> None
                   | Some v \<Rightarrow> if excludeSortedArray v ys = [] then None
                               else Some (excludeSortedArray v ys))"
  using set_excludeSortedArray by (cases a) (fastforce simp: idsWithout_def)+

lemma idsWithout_shrink:
  "idsSorted a \<Longrightarrow> sorted D \<Longrightarrow>
     idsWithout D (case a of None \<Rightarrow> None
                   | Some v \<Rightarrow> if excludeSortedArray v D = [] then None
                               else Some (excludeSortedArray v D))"
  by (cases a) (simp_all add: idsSorted_def idsWithout_def excludeSortedArray_disjoint)

lemma viewport_exclude_sorted:
  "idsSorted (selectViewportIds g c T tab) \<Longrightarrow>
     idsSorted (selectViewportIds (excludeViewport c' T' ids g x) c T tab)"
  by (auto simp: selectViewportIds_excludeViewport intro: idsSorted_shrink)

lemma viewport_exclude_without:
  "idsWithout D (selectViewportIds g c T tab) \<Longrightarrow>
     idsWithout D (selectViewportIds (excludeViewport c' T' ids g x) c T tab)"
  by (auto simp: selectViewportIds_excludeViewport intro: idsWithout_shrink_any)

lemma viewport_exclude_cleans:
  "idsSorted (selectViewportIds g c T tab) \<Longrightarrow> sorted ids \<Longrightarrow>
     idsWithout ids (selectViewportIds (excludeViewport c T ids g tab) c T tab)"
  by (auto simp: selectViewportIds_excludeViewport intro: idsWithout_shrink)

lemma viewport_foldl_sorted:
  "idsSorted (selectViewportIds g c T tab) \<Longrightarrow>
     idsSorted (selectViewportIds (foldl (excludeViewport c' T' ids) g tabs) c T tab)"
  by (rule foldl_preserves [where P = "\<lambda>g. idsSorted (selectViewportIds g c T tab)"])
    (simp_all add: viewport_exclude_sorted)

lemma viewport_foldl_without:
  "idsWithout D (selectViewportIds g c T tab) \<Longrightarrow>
     idsWithout D (selectViewportIds (foldl (excludeViewport c' T' ids) g tabs) c T tab)"
  by (rule foldl_preserves [where P = "\<lambda>g. idsWithout D (selectViewportIds g c T tab)"])
    (simp_all add: viewport_exclude_without)

lemma viewport_foldl_cleans:
  assumes "idsSorted (selectViewportIds g c T tab)" and "sorted ids" and "tab \<in> set tabs"
  shows "idsWithout ids (selectViewportIds (foldl (excludeViewport c T ids) g tabs) c T tab)"
  by (rule foldl_establishes
    [where Pre = "\<lambda>g. idsSorted (selectViewportIds g c T tab)"
       and Good = "\<lambda>g. idsWithout ids (selectViewportIds g c T tab)" and a = tab])
    (simp_all add: assms viewport_exclude_sorted viewport_exclude_without viewport_exclude_cleans)

lemma byTabId_foldl_excludeViewport_keys:
  "map fst (byTabId (foldl (excludeViewport c t ids) g tabs)) = map fst (byTabId g)"
  by (induction tabs arbitrary: g) (simp_all add: byTabId_keys_excludeViewport)

lemma viewport_deleteThreadMessages:
  "selectViewportIds (deleteThreadMessages isLocal c ids g (T', tids)) c' T tab =
     selectViewportIds (foldl (excludeViewport c T' ids) g (map fst (byTabId g))) c' T tab"
  by (rule selectViewportIds_byTabId) (simp add: deleteThreadMessages_def Let_def)

lemma byTabId_keys_deleteThreadMessages:
  "map fst (byTabId (deleteThreadMessages isLocal c ids g e)) = map fst (byTabId g)"
  by (simp add: deleteThreadMessages_def Let_def byTabId_foldl_excludeViewport_keys)

lemma viewport_step_sorted:
  "idsSorted (selectViewportIds g c T tab) \<Longrightarrow>
     idsSorted (selectViewportIds (deleteThreadMessages isLocal c ids g e) c T tab)"
  by (cases e) (simp add: viewport_deleteThreadMessages viewport_foldl_sorted)

lemma viewport_step_without:
  "idsWithout D (selectViewportIds g c T tab) \<Longrightarrow>
     idsWithout D (selectViewportIds (deleteThreadMessages isLocal c ids g e) c T tab)"
  by (cases e) (simp add: viewport_deleteThreadMessages viewport_foldl_without)

lemma viewport_step_cleans:
  assumes "idsSorted (selectViewportIds g c T tab)" and "sorted ids"
  shows "idsWithout ids
    (selectViewportIds (deleteThreadMessages isLocal c ids g (T, tids)) c T tab)"
proof (cases "selectViewportIds g c T tab")
  case None
  then have "idsWithout ids (selectViewportIds g c T tab)"
    by (simp add: idsWithout_def)
  then show ?thesis
    by (rule viewport_step_without)
next
  case (Some v)
  then have "tab \<in> set (map fst (byTabId g))"
    using viewport_tab_exists by fastforce
  with assms show ?thesis
    by (simp only: viewport_deleteThreadMessages viewport_foldl_cleans)
qed

subsection \<open>The threads of a deletion\<close>

lemma set_update_subset: "set (AList.update k v al) \<subseteq> insert (k, v) (set al)"
  by (induction al) auto

lemma collectThread_main:
  "map_of acc MAIN_THREAD_ID = Some ids \<Longrightarrow>
     map_of (collectThread threadOf table acc x) MAIN_THREAD_ID = Some ids"
  by (simp add: collectThread_def update_conv' split: option.splits)

lemma collectThreads_main:
  "(MAIN_THREAD_ID, ids) \<in> set (collectThreads threadOf table ids)"
proof -
  have "map_of (foldl (collectThread threadOf table) [(MAIN_THREAD_ID, ids)] xs) MAIN_THREAD_ID
      = Some ids" for xs
    by (rule foldl_preserves [where P = "\<lambda>acc. map_of acc MAIN_THREAD_ID = Some ids"])
      (simp_all add: collectThread_main)
  then show ?thesis
    unfolding collectThreads_def by (rule map_of_SomeD)
qed

lemma collectThread_sorted:
  assumes inv: "\<forall>(T, tids) \<in> set acc. sorted tids \<and>
      (T \<noteq> MAIN_THREAD_ID \<longrightarrow> (\<forall>a \<in> set tids. \<forall>y \<in> set (x # xs). a \<le> y))"
    and xs: "sorted (x # xs)"
  shows "\<forall>(T, tids) \<in> set (collectThread threadOf table acc x). sorted tids \<and>
      (T \<noteq> MAIN_THREAD_ID \<longrightarrow> (\<forall>a \<in> set tids. \<forall>y \<in> set xs. a \<le> y))"
proof -
  have keep: "\<forall>(T, tids) \<in> set acc. sorted tids \<and>
      (T \<noteq> MAIN_THREAD_ID \<longrightarrow> (\<forall>a \<in> set tids. \<forall>y \<in> set xs. a \<le> y))"
    using inv by fastforce
  have new: "sorted (old @ [x]) \<and> (\<forall>a \<in> set (old @ [x]). \<forall>y \<in> set xs. a \<le> y)"
    if "old = [] \<or> (\<exists>T. T \<noteq> MAIN_THREAD_ID \<and> (T, old) \<in> set acc)" for old
    using that inv xs by (fastforce simp: sorted_append)
  show ?thesis
  proof (cases "\<exists>m T. table x = Some m \<and> threadOf m = Some T \<and> T \<noteq> 0 \<and> T \<noteq> MAIN_THREAD_ID")
    case False
    then have "collectThread threadOf table acc x = acc"
      by (auto simp: collectThread_def split: option.splits)
    with keep show ?thesis by simp
  next
    case True
    then obtain m T where m: "table x = Some m" "threadOf m = Some T" "T \<noteq> 0"
      "T \<noteq> MAIN_THREAD_ID"
      by blast
    let ?old = "case map_of acc T of None \<Rightarrow> [] | Some ms \<Rightarrow> ms"
    from m have run: "collectThread threadOf table acc x = AList.update T (?old @ [x]) acc"
      by (simp add: collectThread_def)
    from m(4) have "?old = [] \<or> (\<exists>T. T \<noteq> MAIN_THREAD_ID \<and> (T, ?old) \<in> set acc)"
      by (auto split: option.splits dest: map_of_SomeD)
    then have "sorted (?old @ [x]) \<and> (\<forall>a \<in> set (?old @ [x]). \<forall>y \<in> set xs. a \<le> y)"
      by (rule new)
    with keep set_update_subset [of T "?old @ [x]" acc] show ?thesis
      unfolding run by blast
  qed
qed

lemma collectThreads_sorted_aux:
  "sorted xs \<Longrightarrow>
   \<forall>(T, tids) \<in> set acc. sorted tids \<and>
      (T \<noteq> MAIN_THREAD_ID \<longrightarrow> (\<forall>a \<in> set tids. \<forall>y \<in> set xs. a \<le> y)) \<Longrightarrow>
   \<forall>(T, tids) \<in> set (foldl (collectThread threadOf table) acc xs). sorted tids"
proof (induction xs arbitrary: acc)
  case Nil
  then show ?case by fastforce
next
  case (Cons x xs)
  from Cons.prems have "\<forall>(T, tids) \<in> set (collectThread threadOf table acc x). sorted tids \<and>
      (T \<noteq> MAIN_THREAD_ID \<longrightarrow> (\<forall>a \<in> set tids. \<forall>y \<in> set xs. a \<le> y))"
    by (intro collectThread_sorted) auto
  moreover from Cons.prems have "sorted xs" by simp
  ultimately show ?case
    using Cons.IH by simp
qed

lemma collectThreads_sorted:
  assumes "sorted ids" and "(T, tids) \<in> set (collectThreads threadOf table ids)"
  shows "sorted tids"
proof -
  from assms(1) have "\<forall>(T, tids) \<in> set [(MAIN_THREAD_ID, ids)]. sorted tids \<and>
      (T \<noteq> MAIN_THREAD_ID \<longrightarrow> (\<forall>a \<in> set tids. \<forall>y \<in> set ids. a \<le> y))"
    by simp
  with assms(1) have "\<forall>(T, tids) \<in> set (collectThreads threadOf table ids). sorted tids"
    unfolding collectThreads_def by (rule collectThreads_sorted_aux)
  with assms(2) show ?thesis by blast
qed

lemma collectThread_member_keep:
  assumes "map_of acc T = Some tids" and "d \<in> set tids"
  shows "\<exists>tids'. map_of (collectThread threadOf table acc x) T = Some tids' \<and> d \<in> set tids'"
  using assms by (auto simp: collectThread_def update_conv' split: option.splits)

lemma collectThread_member_new:
  assumes "table d = Some m" and "threadOf m = Some T" and "T \<noteq> 0" and "T \<noteq> MAIN_THREAD_ID"
  shows "\<exists>tids'. map_of (collectThread threadOf table acc d) T = Some tids' \<and> d \<in> set tids'"
  using assms by (simp add: collectThread_def update_conv')

lemma collectThreads_resolved:
  assumes "d \<in> set ids" and "table d = Some m" and "threadOf m = Some T" and "T \<noteq> 0"
    and "T \<noteq> MAIN_THREAD_ID"
  shows "\<exists>tids. (T, tids) \<in> set (collectThreads threadOf table ids) \<and> d \<in> set tids"
proof -
  have "\<exists>tids. map_of (foldl (collectThread threadOf table) [(MAIN_THREAD_ID, ids)] ids) T
      = Some tids \<and> d \<in> set tids"
  proof (rule foldl_establishes
      [where Pre = "\<lambda>acc. True"
         and Good = "\<lambda>acc. \<exists>tids. map_of acc T = Some tids \<and> d \<in> set tids" and a = d])
    show "\<exists>tids. map_of (collectThread threadOf table acc x) T = Some tids \<and> d \<in> set tids"
      if "\<exists>tids. map_of acc T = Some tids \<and> d \<in> set tids" for acc x
      using that collectThread_member_keep by fast
    show "\<exists>tids. map_of (collectThread threadOf table acc d) T = Some tids \<and> d \<in> set tids"
      for acc
      using assms(2-5) by (rule collectThread_member_new)
  qed (simp_all add: assms(1))
  then show ?thesis
    unfolding collectThreads_def by (blast dest: map_of_SomeD)
qed

lemma collectThread_keys:
  assumes "T \<in> fst ` set (collectThread threadOf table acc x)"
  shows "T \<in> fst ` set acc \<or> (\<exists>m. table x = Some m \<and> threadOf m = Some T)"
  using assms set_update_subset [of T _ acc]
  by (auto simp: collectThread_def split: option.splits if_splits
      dest!: subsetD [OF set_update_subset])

lemma foldl_collectThread_keys:
  "T \<in> fst ` set (foldl (collectThread threadOf table) acc xs) \<Longrightarrow>
     T \<in> fst ` set acc \<or> (\<exists>d \<in> set xs. \<exists>m. table d = Some m \<and> threadOf m = Some T)"
proof (induction xs arbitrary: acc)
  case Nil
  then show ?case by simp
next
  case (Cons x xs)
  from Cons.prems have "T \<in> fst ` set (foldl (collectThread threadOf table)
      (collectThread threadOf table acc x) xs)"
    by simp
  then have "T \<in> fst ` set (collectThread threadOf table acc x)
      \<or> (\<exists>d \<in> set xs. \<exists>m. table d = Some m \<and> threadOf m = Some T)"
    by (rule Cons.IH)
  then show ?case
    using collectThread_keys [of T threadOf table acc x] by auto
qed

lemma collectThreads_keys:
  assumes "T \<noteq> MAIN_THREAD_ID"
    and "\<forall>d \<in> set ids. \<forall>m. table d = Some m \<longrightarrow> threadOf m \<noteq> Some T"
  shows "T \<notin> fst ` set (collectThreads threadOf table ids)"
  using assms foldl_collectThread_keys [of T threadOf table "[(MAIN_THREAD_ID, ids)]" ids]
  unfolding collectThreads_def by auto

subsection \<open>The deleted forwarded posts\<close>

lemma selectTabThread_updateTabState_messageLists [simp]:
  "selectTabThread (updateTabState g (P_messageLists l) tab) c t tab' = selectTabThread g c t tab'"
  by (simp add: selectTabThread_def selectTabState_updateTabState)

lemma selectCurrentMessageList_updateTabState:
  "selectCurrentMessageList (updateTabState g (P_messageLists l) tab) tab' =
     (if tab' = tab then (if l = [] then None else Some (last l))
      else selectCurrentMessageList g tab')"
  by (simp add: selectCurrentMessageList_def selectTabState_updateTabState split: list.splits)

lemma selectCurrentMessageList_updateThread [simp]:
  "selectCurrentMessageList (updateThread g c t u) tab = selectCurrentMessageList g tab"
  by (simp add: selectCurrentMessageList_def)

lemma selectThreadParam_updateThread_None:
  "selectThreadParam (updateThread g c t None) c' t' key =
     (if c' = c \<and> t' = t then None else selectThreadParam g c' t' key)"
  by (simp add: selectThreadParam_def selectThread_updateThread_None)

lemma updateCurrentMessageList_other:
  "tab' \<noteq> tab \<Longrightarrow>
     selectCurrentMessageList (updateCurrentMessageList cfg g chat thr ty rh rl tab) tab'
       = selectCurrentMessageList g tab'"
  by (simp add: updateCurrentMessageList_def Let_def selectCurrentMessageList_updateTabState)

lemma updateCurrentMessageList_main:
  assumes "c \<noteq> []"
  shows "selectCurrentMessageList
      (updateCurrentMessageList cfg g (Some c) None None False False tab) tab
    = Some (mainMessageList c)"
  using assms
  by (simp add: updateCurrentMessageList_def Let_def truthyStr_def mainMessageList_def
      selectCurrentMessageList_updateTabState list.case_eq_if)

lemma updateCurrentMessageList_frames [simp]:
  "selectThread (updateCurrentMessageList cfg g chat thr ty rh rl tab) c t = selectThread g c t"
  "selectChatMessage (updateCurrentMessageList cfg g chat thr ty rh rl tab) c i
     = selectChatMessage g c i"
  "selectTabThread (updateCurrentMessageList cfg g chat thr ty rh rl tab) c t tab'
     = selectTabThread g c t tab'"
  by (simp_all add: updateCurrentMessageList_def Let_def)

lemma resetCurrentThread_frames [simp]:
  "selectThread (resetCurrentThread cfg c tab can cur g m) c' t = selectThread g c' t"
  "selectChatMessage (resetCurrentThread cfg c tab can cur g m) c' i = selectChatMessage g c' i"
  "selectTabThread (resetCurrentThread cfg c tab can cur g m) c' t tab'
     = selectTabThread g c' t tab'"
  by (simp_all add: resetCurrentThread_def)

lemma resetForwardedPost_unfold:
  "resetForwardedPost cfg c tab can cur g m =
     (case forwardOrigin m of
        None \<Rightarrow> resetCurrentThread cfg c tab can cur g m
      | Some (fc, fm) \<Rightarrow>
          (case selectChatMessage g fc fm of
             None \<Rightarrow> resetCurrentThread cfg c tab can cur g m
           | Some post \<Rightarrow> updateThread (resetCurrentThread cfg c tab can cur g m) fc fm None))"
  by (simp add: resetForwardedPost_def Let_def split: option.splits prod.splits)

lemma resetForwardedPost_cases:
  "resetForwardedPost cfg c tab can cur g m = resetCurrentThread cfg c tab can cur g m
   \<or> (\<exists>fc fm. forwardOrigin m = Some (fc, fm) \<and> selectChatMessage g fc fm \<noteq> None
        \<and> resetForwardedPost cfg c tab can cur g m
            = updateThread (resetCurrentThread cfg c tab can cur g m) fc fm None)"
proof (cases "forwardOrigin m")
  case None
  then show ?thesis by (simp add: resetForwardedPost_unfold)
next
  case (Some origin)
  obtain fc fm where o: "origin = (fc, fm)" by (cases origin)
  show ?thesis
  proof (cases "selectChatMessage g fc fm")
    case None
    with Some o show ?thesis by (simp add: resetForwardedPost_unfold)
  next
    case (Some post)
    with \<open>forwardOrigin m = Some origin\<close> o show ?thesis
      by (simp add: resetForwardedPost_unfold)
  qed
qed

lemma selectTabThread_updateThread [simp]:
  "selectTabThread (updateThread g c t u) c' t' tab = selectTabThread g c' t' tab"
  by (simp add: selectTabThread_def)

lemma viewport_resetForwardedPost:
  "selectViewportIds (resetForwardedPost cfg c tab can cur g m) c' t' tab'
     = selectViewportIds g c' t' tab'"
  using resetForwardedPost_cases [of cfg c tab can cur g m]
  by (elim disjE exE conjE) (simp_all add: selectViewportIds_def)

lemma message_resetForwardedPost:
  "selectChatMessage (resetForwardedPost cfg c tab can cur g m) c' i = selectChatMessage g c' i"
  using resetForwardedPost_cases [of cfg c tab can cur g m]
  by (elim disjE exE conjE) simp_all

lemma thread_resetForwardedPost:
  "selectThread (resetForwardedPost cfg c tab can cur g m) c' t' = None
   \<or> selectThread (resetForwardedPost cfg c tab can cur g m) c' t' = selectThread g c' t'"
  using resetForwardedPost_cases [of cfg c tab can cur g m]
  by (elim disjE exE conjE) (simp_all add: selectThread_updateThread_None)

lemma threadParam_resetForwardedPost:
  "selectThreadParam (resetForwardedPost cfg c tab can cur g m) c' t' key = None
   \<or> selectThreadParam (resetForwardedPost cfg c tab can cur g m) c' t' key
       = selectThreadParam g c' t' key"
  using thread_resetForwardedPost [of cfg c tab can cur g m c' t']
  by (auto simp: selectThreadParam_def)

lemma thread_resetForwardedPost_gone:
  "selectThread g c' t' = None \<Longrightarrow>
     selectThread (resetForwardedPost cfg c tab can cur g m) c' t' = None"
  using thread_resetForwardedPost [of cfg c tab can cur g m c' t'] by auto

lemma thread_resetForwardedPost_removes:
  assumes "forwardOrigin m = Some (fc, fm)" and "selectChatMessage g fc fm \<noteq> None"
  shows "selectThread (resetForwardedPost cfg c tab can cur g m) fc fm = None"
proof -
  from assms(2) obtain post where "selectChatMessage g fc fm = Some post"
    by auto
  with assms(1) show ?thesis
    by (simp add: resetForwardedPost_unfold selectThread_updateThread_None)
qed

lemma current_resetCurrentThread_other:
  "tab' \<noteq> tab \<Longrightarrow>
     selectCurrentMessageList (resetCurrentThread cfg c tab can cur g m) tab'
       = selectCurrentMessageList g tab'"
  by (simp add: resetCurrentThread_def updateCurrentMessageList_other)

lemma current_resetCurrentThread_main:
  "c \<noteq> [] \<Longrightarrow> selectCurrentMessageList g tab = Some (mainMessageList c) \<Longrightarrow>
     selectCurrentMessageList (resetCurrentThread cfg c tab can cur g m) tab
       = Some (mainMessageList c)"
  by (simp add: resetCurrentThread_def updateCurrentMessageList_main)

lemma current_resetCurrentThread_resets:
  "c \<noteq> [] \<Longrightarrow> msg_id m = Some pid \<Longrightarrow>
     selectCurrentMessageList (resetCurrentThread cfg c tab True (Some pid) g m) tab
       = Some (mainMessageList c)"
  by (simp add: resetCurrentThread_def updateCurrentMessageList_main)

lemma current_resetForwardedPost:
  "selectCurrentMessageList (resetForwardedPost cfg c tab can cur g m) tab'
     = selectCurrentMessageList (resetCurrentThread cfg c tab can cur g m) tab'"
  using resetForwardedPost_cases [of cfg c tab can cur g m]
  by (elim disjE exE conjE) simp_all

subsection \<open>The loops over the posts and the tabs\<close>

lemma viewport_resetTab:
  "selectViewportIds (resetTab cfg c posts g tab) c' t' tab' = selectViewportIds g c' t' tab'"
  unfolding resetTab_def Let_def
  by (rule foldl_preserves
      [where P = "\<lambda>h. selectViewportIds h c' t' tab' = selectViewportIds g c' t' tab'"])
    (simp_all add: viewport_resetForwardedPost)

lemma message_resetTab:
  "selectChatMessage (resetTab cfg c posts g tab) c' i = selectChatMessage g c' i"
  unfolding resetTab_def Let_def
  by (rule foldl_preserves
      [where P = "\<lambda>h. selectChatMessage h c' i = selectChatMessage g c' i"])
    (simp_all add: message_resetForwardedPost)

lemma threadParam_resetTab:
  assumes "P None" and "P (selectThreadParam g c' t' key)"
  shows "P (selectThreadParam (resetTab cfg c posts g tab) c' t' key)"
  unfolding resetTab_def Let_def
proof (rule foldl_preserves [where P = "\<lambda>h. P (selectThreadParam h c' t' key)"])
  show "P (selectThreadParam (resetForwardedPost cfg c tab can cur h m) c' t' key)"
    if "P (selectThreadParam h c' t' key)" for h m can cur
    using that assms(1) threadParam_resetForwardedPost [of cfg c tab can cur h m c' t' key]
    by auto
qed (rule assms(2))

lemma thread_resetTab_gone:
  "selectThread g c' t' = None \<Longrightarrow> selectThread (resetTab cfg c posts g tab) c' t' = None"
  unfolding resetTab_def Let_def
  by (rule foldl_preserves [where P = "\<lambda>h. selectThread h c' t' = None"])
    (simp_all add: thread_resetForwardedPost_gone)

lemma thread_resetTab_removes:
  assumes "m \<in> set posts" and "forwardOrigin m = Some (fc, fm)"
    and "selectChatMessage g fc fm \<noteq> None"
  shows "selectThread (resetTab cfg c posts g tab) fc fm = None"
  unfolding resetTab_def Let_def
  by (rule foldl_establishes
      [where Pre = "\<lambda>h. selectChatMessage h fc fm \<noteq> None"
         and Good = "\<lambda>h. selectThread h fc fm = None" and a = m])
    (simp_all add: assms message_resetForwardedPost thread_resetForwardedPost_gone
      thread_resetForwardedPost_removes)

lemma current_resetTab_other:
  "tab' \<noteq> tab \<Longrightarrow>
     selectCurrentMessageList (resetTab cfg c posts g tab) tab' = selectCurrentMessageList g tab'"
  unfolding resetTab_def Let_def
  by (rule foldl_preserves
      [where P = "\<lambda>h. selectCurrentMessageList h tab' = selectCurrentMessageList g tab'"])
    (simp_all add: current_resetForwardedPost current_resetCurrentThread_other)

lemma current_resetTab_main:
  assumes "c \<noteq> []" and "selectCurrentMessageList g tab' = Some (mainMessageList c)"
  shows "selectCurrentMessageList (resetTab cfg c posts g tab) tab' = Some (mainMessageList c)"
proof (cases "tab' = tab")
  case False
  with assms(2) show ?thesis
    by (simp add: current_resetTab_other)
next
  case True
  show ?thesis
    unfolding resetTab_def Let_def True
    by (rule foldl_preserves
        [where P = "\<lambda>h. selectCurrentMessageList h tab = Some (mainMessageList c)"])
      (use assms True in \<open>simp_all add: current_resetForwardedPost
        current_resetCurrentThread_main\<close>)
qed

lemma current_resetTab_resets:
  assumes "c \<noteq> []" and "m \<in> set posts" and "msg_id m = Some pid"
    and "selectCurrentMessageList g tab
      = Some \<lparr>ml_chatId = c, ml_threadId = pid, ml_type = LT_thread\<rparr>"
  shows "selectCurrentMessageList (resetTab cfg c posts g tab) tab = Some (mainMessageList c)"
proof -
  from assms(4) have run: "resetTab cfg c posts g tab
      = foldl (resetForwardedPost cfg c tab True (Some pid)) g posts"
    by (simp add: resetTab_def Let_def)
  show ?thesis
    unfolding run
    by (rule foldl_establishes
        [where Pre = "\<lambda>h. True"
           and Good = "\<lambda>h. selectCurrentMessageList h tab = Some (mainMessageList c)"
           and a = m])
      (simp_all add: assms(1-3) current_resetForwardedPost current_resetCurrentThread_main
        current_resetCurrentThread_resets)
qed

subsection \<open>Frames of the loop over the threads\<close>

lemma current_updateTabThread [simp]:
  "selectCurrentMessageList (updateTabThread g c t p tab) tab'
     = selectCurrentMessageList g tab'"
  by (simp add: selectCurrentMessageList_def updateTabThread_def Let_def
      selectTabState_updateTabState)

lemma current_replaceThreadParam [simp]:
  "selectCurrentMessageList (replaceThreadParam g c t p) tab = selectCurrentMessageList g tab"
  by (simp add: replaceThreadParam_def)

lemma current_updateThreadInfo [simp]:
  "selectCurrentMessageList (updateThreadInfo g c t u d) tab = selectCurrentMessageList g tab"
  by (simp add: selectCurrentMessageList_def selectTabState_def)

lemma message_updateTabThread [simp]:
  "selectChatMessage (updateTabThread g c t p tab) c' i = selectChatMessage g c' i"
  by (simp add: updateTabThread_def Let_def)

lemma excludeViewport_frames [simp]:
  "selectCurrentMessageList (excludeViewport c t ids g tab) tab' = selectCurrentMessageList g tab'"
  "selectChatMessage (excludeViewport c t ids g tab) c' i = selectChatMessage g c' i"
  by (simp_all add: excludeViewport_def Let_def replaceTabThreadParam_def split: option.splits)

lemma foldl_excludeViewport_frames [simp]:
  "selectCurrentMessageList (foldl (excludeViewport c t ids) g tabs) tab'
     = selectCurrentMessageList g tab'"
  "selectChatMessage (foldl (excludeViewport c t ids) g tabs) c' i = selectChatMessage g c' i"
  by (induction tabs arbitrary: g) simp_all

lemma deleteThreadMessages_frames [simp]:
  "selectCurrentMessageList (deleteThreadMessages isLocal c ids g e) tab
     = selectCurrentMessageList g tab"
  "selectChatMessage (deleteThreadMessages isLocal c ids g e) c' i = selectChatMessage g c' i"
  by (simp_all add: deleteThreadMessages_def Let_def)

lemma foldl_deleteThreadMessages_frames [simp]:
  "selectCurrentMessageList (foldl (deleteThreadMessages isLocal c ids) g es) tab
     = selectCurrentMessageList g tab"
  "selectChatMessage (foldl (deleteThreadMessages isLocal c ids) g es) c' i
     = selectChatMessage g c' i"
  "map fst (byTabId (foldl (deleteThreadMessages isLocal c ids) g es)) = map fst (byTabId g)"
  by (induction es arbitrary: g) (simp_all add: byTabId_keys_deleteThreadMessages)

lemma replaceChatMessages_frames [simp]:
  "selectThread (replaceChatMessages g c m) c' t = selectThread g c' t"
  "byTabId (replaceChatMessages g c m) = byTabId g"
  by (simp_all add: replaceChatMessages_def updateMessageStore_byId_def Let_def selectThread_def
      split: option.splits)

lemma replaceChatMessages_tab_frames [simp]:
  "selectViewportIds (replaceChatMessages g c m) c' t tab = selectViewportIds g c' t tab"
  "selectCurrentMessageList (replaceChatMessages g c m) tab = selectCurrentMessageList g tab"
  by (simp_all add: selectViewportIds_def selectTabThread_def selectTabState_def
      selectCurrentMessageList_def)

lemma replaceChatMessages_threadParam [simp]:
  "selectThreadParam (replaceChatMessages g c m) c' t key = selectThreadParam g c' t key"
  by (simp add: selectThreadParam_def)

subsection \<open>The loop over the threads\<close>

lemma listed_loop:
  assumes "(T, tids) \<in> set threads" and "sorted tids" and "idsSorted (selectListedIds g c T)"
  shows "idsWithout tids
    (selectListedIds (foldl (deleteThreadMessages isLocal c ids) g threads) c T)"
proof (rule foldl_establishes
    [where Pre = "\<lambda>h. idsSorted (selectListedIds h c T)"
       and Good = "\<lambda>h. idsWithout tids (selectListedIds h c T)" and a = "(T, tids)"])
  show "idsSorted (selectListedIds (deleteThreadMessages isLocal c ids h x) c T)"
    if "idsSorted (selectListedIds h c T)" for h x
    using that by (cases x) (simp add: listedIds_deleteThreadMessages idsSorted_exclude)
  show "idsWithout tids (selectListedIds (deleteThreadMessages isLocal c ids h x) c T)"
    if "idsWithout tids (selectListedIds h c T)" for h x
    using that by (cases x) (simp add: listedIds_deleteThreadMessages idsWithout_exclude_any)
  show "idsWithout tids (selectListedIds (deleteThreadMessages isLocal c ids h (T, tids)) c T)"
    if "idsSorted (selectListedIds h c T)" for h
    using that assms(2) by (simp add: listedIds_deleteThreadMessages idsWithout_exclude)
qed (use assms in simp_all)

lemma outlying_loop:
  assumes "(T, tids) \<in> set threads" and "sorted tids"
    and "listsSorted (selectOutlyingLists g c T)"
  shows "listsWithout tids
    (selectOutlyingLists (foldl (deleteThreadMessages isLocal c ids) g threads) c T)"
proof (rule foldl_establishes
    [where Pre = "\<lambda>h. listsSorted (selectOutlyingLists h c T)"
       and Good = "\<lambda>h. listsWithout tids (selectOutlyingLists h c T)" and a = "(T, tids)"])
  show "listsSorted (selectOutlyingLists (deleteThreadMessages isLocal c ids h x) c T)"
    if "listsSorted (selectOutlyingLists h c T)" for h x
    using that by (cases x) (simp add: outlyingLists_deleteThreadMessages listsSorted_exclude)
  show "listsWithout tids (selectOutlyingLists (deleteThreadMessages isLocal c ids h x) c T)"
    if "listsWithout tids (selectOutlyingLists h c T)" for h x
    using that
    by (cases x) (simp add: outlyingLists_deleteThreadMessages listsWithout_exclude_any)
  show "listsWithout tids
      (selectOutlyingLists (deleteThreadMessages isLocal c ids h (T, tids)) c T)"
    if "listsSorted (selectOutlyingLists h c T)" for h
    using that assms(2) by (simp add: outlyingLists_deleteThreadMessages listsWithout_exclude)
qed (use assms in simp_all)

lemma pinned_loop:
  assumes "(T, tids) \<in> set threads" and "idsSorted (selectPinnedIds g c T)"
  shows "idsWithout tids
    (selectPinnedIds (foldl (deleteThreadMessages isLocal c ids) g threads) c T)"
proof (rule foldl_establishes
    [where Pre = "\<lambda>h. idsSorted (selectPinnedIds h c T)"
       and Good = "\<lambda>h. idsWithout tids (selectPinnedIds h c T)" and a = "(T, tids)"])
  show "idsSorted (selectPinnedIds (deleteThreadMessages isLocal c ids h x) c T)"
    if "idsSorted (selectPinnedIds h c T)" for h x
    using that by (cases x) (simp add: pinnedIds_deleteThreadMessages idsSorted_exclude)
  show "idsWithout tids (selectPinnedIds (deleteThreadMessages isLocal c ids h x) c T)"
    if "idsWithout tids (selectPinnedIds h c T)" for h x
    using that by (cases x) (simp add: pinnedIds_deleteThreadMessages idsWithout_exclude_any)
  show "idsWithout tids (selectPinnedIds (deleteThreadMessages isLocal c ids h (T, tids)) c T)"
    if "idsSorted (selectPinnedIds h c T)" for h
    using that by (simp add: pinnedIds_deleteThreadMessages idsWithout_exclude_sort)
qed (use assms in simp_all)

lemma viewport_loop:
  assumes "(T, tids) \<in> set threads" and "sorted ids"
    and "idsSorted (selectViewportIds g c T tab)"
  shows "idsWithout ids
    (selectViewportIds (foldl (deleteThreadMessages isLocal c ids) g threads) c T tab)"
  by (rule foldl_establishes
    [where Pre = "\<lambda>h. idsSorted (selectViewportIds h c T tab)"
       and Good = "\<lambda>h. idsWithout ids (selectViewportIds h c T tab)" and a = "(T, tids)"])
    (simp_all add: assms viewport_step_sorted viewport_step_without viewport_step_cleans)

subsection \<open>The whole deletion\<close>

lemma deleteChatMessages_run:
  assumes "selectChatMessages g c = Some table"
  shows "deleteChatMessages cfg threadOf isLocal g c D =
    replaceChatMessages
      (if deletedForwardedPosts table (orderHistoryIds D) \<noteq> [] then
         foldl (resetTab cfg c (deletedForwardedPosts table (orderHistoryIds D)))
           (foldl (deleteThreadMessages isLocal c (orderHistoryIds D)) g
              (collectThreads (threadOf g) table (orderHistoryIds D)))
           (map fst (byTabId g))
       else foldl (deleteThreadMessages isLocal c (orderHistoryIds D)) g
              (collectThreads (threadOf g) table (orderHistoryIds D)))
      c (omit table (orderHistoryIds D))"
  using assms by (simp add: deleteChatMessages_def Let_def)

lemma threadParam_posts_loop:
  assumes "P None" and "P (selectThreadParam g c' t' key)"
  shows "P (selectThreadParam (foldl (resetTab cfg c posts) g tabs) c' t' key)"
  by (rule foldl_preserves [where P = "\<lambda>h. P (selectThreadParam h c' t' key)"])
    (simp_all add: assms threadParam_resetTab)

lemma viewport_posts_loop:
  "selectViewportIds (foldl (resetTab cfg c posts) g tabs) c' t' tab
     = selectViewportIds g c' t' tab"
  by (induction tabs arbitrary: g) (simp_all add: viewport_resetTab)

lemma message_posts_loop:
  "selectChatMessage (foldl (resetTab cfg c posts) g tabs) c' i = selectChatMessage g c' i"
  by (induction tabs arbitrary: g) (simp_all add: message_resetTab)

lemma idsWithout_set: "set D = set D' \<Longrightarrow> idsWithout D a = idsWithout D' a"
  by (simp add: idsWithout_def split: option.splits)

lemma deleteChatMessages_threadParam:
  assumes "selectChatMessages g c = Some table" and "P None"
    and "P (selectThreadParam
      (foldl (deleteThreadMessages isLocal c (orderHistoryIds D)) g
         (collectThreads (threadOf g) table (orderHistoryIds D))) c' T key)"
  shows "P (selectThreadParam (deleteChatMessages cfg threadOf isLocal g c D) c' T key)"
  using assms(2,3)
  by (simp add: deleteChatMessages_run [OF assms(1)] threadParam_posts_loop)

lemma viewport_foldl_other:
  "T \<noteq> T' \<Longrightarrow>
     selectViewportIds (foldl (excludeViewport c T' ids) g tabs) c' T tab
       = selectViewportIds g c' T tab"
  by (induction tabs arbitrary: g) (simp_all add: selectViewportIds_excludeViewport)

lemma untouched_loop:
  assumes "T \<notin> fst ` set threads"
  shows "selectListedIds (foldl (deleteThreadMessages isLocal c ids) g threads) c T
      = selectListedIds g c T"
    and "selectOutlyingLists (foldl (deleteThreadMessages isLocal c ids) g threads) c T
      = selectOutlyingLists g c T"
    and "selectPinnedIds (foldl (deleteThreadMessages isLocal c ids) g threads) c T
      = selectPinnedIds g c T"
    and "selectViewportIds (foldl (deleteThreadMessages isLocal c ids) g threads) c T tab
      = selectViewportIds g c T tab"
  using assms
proof (induction threads arbitrary: g)
  case Nil
  {
    case 1 show ?case by simp
  next
    case 2 show ?case by simp
  next
    case 3 show ?case by simp
  next
    case 4 show ?case by simp
  }
next
  case (Cons e threads)
  obtain T' tids where e: "e = (T', tids)" by (cases e)
  {
    case 1
    then have "T' \<noteq> T" "T \<notin> fst ` set threads" using e by auto
    then show ?case
      by (simp add: e Cons.IH(1) listedIds_deleteThreadMessages)
  next
    case 2
    then have "T' \<noteq> T" "T \<notin> fst ` set threads" using e by auto
    then show ?case
      by (simp add: e Cons.IH(2) outlyingLists_deleteThreadMessages)
  next
    case 3
    then have "T' \<noteq> T" "T \<notin> fst ` set threads" using e by auto
    then show ?case
      by (simp add: e Cons.IH(3) pinnedIds_deleteThreadMessages)
  next
    case 4
    then have "T' \<noteq> T" "T \<notin> fst ` set threads" using e by auto
    then show ?case
      by (simp add: e Cons.IH(4) viewport_deleteThreadMessages viewport_foldl_other)
  }
qed


lemma idsWithout_member: "idsWithout tids a \<Longrightarrow> d \<in> set tids \<Longrightarrow> idsWithout [d] a"
  by (auto simp: idsWithout_def split: option.splits)

lemma listsWithout_member: "listsWithout tids a \<Longrightarrow> d \<in> set tids \<Longrightarrow> listsWithout [d] a"
  by (auto simp: listsWithout_def list_all_iff split: option.splits)

lemma listsWithout_set: "set D = set D' \<Longrightarrow> listsWithout D a = listsWithout D' a"
  by (simp add: listsWithout_def split: option.splits)

lemma deleteChatMessages_walked:
  assumes table: "selectChatMessages g c = Some table"
    and member: "(T, tids) \<in> set (collectThreads (threadOf g) table (orderHistoryIds D))"
  shows "idsSorted (selectListedIds g c T) \<Longrightarrow>
      idsWithout tids (selectListedIds (deleteChatMessages cfg threadOf isLocal g c D) c T)"
    and "listsSorted (selectOutlyingLists g c T) \<Longrightarrow>
      listsWithout tids (selectOutlyingLists (deleteChatMessages cfg threadOf isLocal g c D) c T)"
    and "idsSorted (selectPinnedIds g c T) \<Longrightarrow>
      idsWithout tids (selectPinnedIds (deleteChatMessages cfg threadOf isLocal g c D) c T)"
    and "idsSorted (selectViewportIds g c T tab) \<Longrightarrow>
      idsWithout D (selectViewportIds (deleteChatMessages cfg threadOf isLocal g c D) c T tab)"
proof -
  let ?ids = "orderHistoryIds D"
  let ?threads = "collectThreads (threadOf g) table ?ids"
  let ?g1 = "foldl (deleteThreadMessages isLocal c ?ids) g ?threads"
  let ?g' = "deleteChatMessages cfg threadOf isLocal g c D"
  have ids: "set ?ids = set D" and sorted: "sorted ?ids"
    by (simp_all add: orderHistoryIds_def)
  note param = deleteChatMessages_threadParam [OF table]
  from sorted member have tids: "sorted tids"
    by (rule collectThreads_sorted)
  have none: "idsWithout tids None" "listsWithout tids None"
    by (simp_all add: idsWithout_def listsWithout_def)
  show "idsWithout tids (selectListedIds ?g' c T)" if "idsSorted (selectListedIds g c T)"
  proof -
    from member tids that have "idsWithout tids (selectListedIds ?g1 c T)"
      by (rule listed_loop)
    with none(1) show ?thesis
      unfolding selectListedIds_def by (intro param [where P = "idsWithout tids"])
  qed
  show "listsWithout tids (selectOutlyingLists ?g' c T)"
    if "listsSorted (selectOutlyingLists g c T)"
  proof -
    from member tids that have "listsWithout tids (selectOutlyingLists ?g1 c T)"
      by (rule outlying_loop)
    with none(2) show ?thesis
      unfolding selectOutlyingLists_def by (intro param [where P = "listsWithout tids"])
  qed
  show "idsWithout tids (selectPinnedIds ?g' c T)" if "idsSorted (selectPinnedIds g c T)"
  proof -
    from member that have "idsWithout tids (selectPinnedIds ?g1 c T)"
      by (rule pinned_loop)
    with none(1) show ?thesis
      unfolding selectPinnedIds_def by (intro param [where P = "idsWithout tids"])
  qed
  show "idsWithout D (selectViewportIds ?g' c T tab)"
    if "idsSorted (selectViewportIds g c T tab)"
  proof -
    from member sorted that have "idsWithout ?ids (selectViewportIds ?g1 c T tab)"
      by (rule viewport_loop)
    then have "idsWithout D (selectViewportIds ?g1 c T tab)"
      by (simp add: idsWithout_set [OF ids])
    then show ?thesis
      by (simp add: deleteChatMessages_run [OF table] viewport_posts_loop)
  qed
qed

lemma deleteChatMessages_unwalked:
  assumes table: "selectChatMessages g c = Some table"
    and other: "T \<notin> fst ` set (collectThreads (threadOf g) table (orderHistoryIds D))"
  shows "selectListedIds (deleteChatMessages cfg threadOf isLocal g c D) c T = None
      \<or> selectListedIds (deleteChatMessages cfg threadOf isLocal g c D) c T = selectListedIds g c T"
    and "selectOutlyingLists (deleteChatMessages cfg threadOf isLocal g c D) c T = None
      \<or> selectOutlyingLists (deleteChatMessages cfg threadOf isLocal g c D) c T
          = selectOutlyingLists g c T"
    and "selectPinnedIds (deleteChatMessages cfg threadOf isLocal g c D) c T = None
      \<or> selectPinnedIds (deleteChatMessages cfg threadOf isLocal g c D) c T = selectPinnedIds g c T"
    and "selectViewportIds (deleteChatMessages cfg threadOf isLocal g c D) c T tab
      = selectViewportIds g c T tab"
proof -
  let ?ids = "orderHistoryIds D"
  let ?threads = "collectThreads (threadOf g) table ?ids"
  let ?g1 = "foldl (deleteThreadMessages isLocal c ?ids) g ?threads"
  let ?g' = "deleteChatMessages cfg threadOf isLocal g c D"
  note param = deleteChatMessages_threadParam [OF table]
  note same = untouched_loop [OF other, of isLocal c ?ids g]
  show "selectListedIds ?g' c T = None \<or> selectListedIds ?g' c T = selectListedIds g c T"
    using same(1) unfolding selectListedIds_def
    by (intro param [where P = "\<lambda>v. v = None \<or> v = selectThreadParam g c T listedIds"]) simp_all
  show "selectOutlyingLists ?g' c T = None
      \<or> selectOutlyingLists ?g' c T = selectOutlyingLists g c T"
    using same(2) unfolding selectOutlyingLists_def
    by (intro param [where P = "\<lambda>v. v = None \<or> v = selectThreadParam g c T outlyingLists"])
      simp_all
  show "selectPinnedIds ?g' c T = None \<or> selectPinnedIds ?g' c T = selectPinnedIds g c T"
    using same(3) unfolding selectPinnedIds_def
    by (intro param [where P = "\<lambda>v. v = None \<or> v = selectThreadParam g c T pinnedIds"]) simp_all
  show "selectViewportIds ?g' c T tab = selectViewportIds g c T tab"
    using same(4) by (simp add: deleteChatMessages_run [OF table] viewport_posts_loop)
qed

text \<open>
  C1, as the code has it. In a chat that has a message table, after
  \<open>deleteChatMessages\<close> the table maps none of the deleted ids. The lists are cleaned
  per affected thread. The main thread is cleaned of all deleted ids: its ascending
  \<open>listedIds\<close> list, its ascending outlying lists and its ascending \<open>pinnedIds\<close> list
  hold none of them afterwards. A thread with another, non-zero id that a deleted
  message of the table resolves to is cleaned of the id of that message, in the same
  three lists. An ascending viewport of any tab for an affected thread holds none of
  the deleted ids at all. A thread other than the main one that no deleted message of
  the table resolves to is not cleaned: each of its three lists is as before, or gone
  with the thread entry, which the loop over the deleted forwarded posts may remove;
  its viewports are as before.
\<close>

theorem deleteChatMessages_removes:
  assumes "selectChatMessages g c = Some table"
  shows "(\<forall>d \<in> set D. selectChatMessage (deleteChatMessages cfg threadOf isLocal g c D) c d = None)
    \<and> (idsSorted (selectListedIds g c MAIN_THREAD_ID) \<longrightarrow>
         idsWithout D
           (selectListedIds (deleteChatMessages cfg threadOf isLocal g c D) c MAIN_THREAD_ID))
    \<and> (listsSorted (selectOutlyingLists g c MAIN_THREAD_ID) \<longrightarrow>
         listsWithout D
           (selectOutlyingLists (deleteChatMessages cfg threadOf isLocal g c D) c MAIN_THREAD_ID))
    \<and> (idsSorted (selectPinnedIds g c MAIN_THREAD_ID) \<longrightarrow>
         idsWithout D
           (selectPinnedIds (deleteChatMessages cfg threadOf isLocal g c D) c MAIN_THREAD_ID))
    \<and> (\<forall>tab. idsSorted (selectViewportIds g c MAIN_THREAD_ID tab) \<longrightarrow>
         idsWithout D
           (selectViewportIds (deleteChatMessages cfg threadOf isLocal g c D) c MAIN_THREAD_ID tab))
    \<and> (\<forall>T d m. d \<in> set D \<and> table d = Some m \<and> threadOf g m = Some T
           \<and> T \<noteq> 0 \<and> T \<noteq> MAIN_THREAD_ID \<longrightarrow>
         (idsSorted (selectListedIds g c T) \<longrightarrow>
            idsWithout [d]
              (selectListedIds (deleteChatMessages cfg threadOf isLocal g c D) c T))
       \<and> (listsSorted (selectOutlyingLists g c T) \<longrightarrow>
            listsWithout [d]
              (selectOutlyingLists (deleteChatMessages cfg threadOf isLocal g c D) c T))
       \<and> (idsSorted (selectPinnedIds g c T) \<longrightarrow>
            idsWithout [d]
              (selectPinnedIds (deleteChatMessages cfg threadOf isLocal g c D) c T))
       \<and> (\<forall>tab. idsSorted (selectViewportIds g c T tab) \<longrightarrow>
            idsWithout D
              (selectViewportIds (deleteChatMessages cfg threadOf isLocal g c D) c T tab)))
    \<and> (\<forall>T. T \<noteq> MAIN_THREAD_ID
           \<and> (\<forall>d \<in> set D. \<forall>m. table d = Some m \<longrightarrow> threadOf g m \<noteq> Some T) \<longrightarrow>
         (selectListedIds (deleteChatMessages cfg threadOf isLocal g c D) c T = None
            \<or> selectListedIds (deleteChatMessages cfg threadOf isLocal g c D) c T
                = selectListedIds g c T)
       \<and> (selectOutlyingLists (deleteChatMessages cfg threadOf isLocal g c D) c T = None
            \<or> selectOutlyingLists (deleteChatMessages cfg threadOf isLocal g c D) c T
                = selectOutlyingLists g c T)
       \<and> (selectPinnedIds (deleteChatMessages cfg threadOf isLocal g c D) c T = None
            \<or> selectPinnedIds (deleteChatMessages cfg threadOf isLocal g c D) c T
                = selectPinnedIds g c T)
       \<and> (\<forall>tab. selectViewportIds (deleteChatMessages cfg threadOf isLocal g c D) c T tab
            = selectViewportIds g c T tab))"
proof -
  let ?ids = "orderHistoryIds D"
  let ?threads = "collectThreads (threadOf g) table ?ids"
  let ?g' = "deleteChatMessages cfg threadOf isLocal g c D"
  have ids: "set ?ids = set D"
    by (simp add: orderHistoryIds_def)
  have table: "\<forall>d \<in> set D. selectChatMessage ?g' c d = None"
    by (simp add: deleteChatMessages_run [OF assms] selectChatMessage_replaceChatMessages
        omit_def ids)
  have main: "(MAIN_THREAD_ID, ?ids) \<in> set ?threads"
    by (rule collectThreads_main)
  note walked = deleteChatMessages_walked
    [where threadOf = threadOf and D = D and cfg = cfg and isLocal = isLocal, OF assms]
  note mainThread = walked [OF main]
  have m1: "idsWithout D (selectListedIds ?g' c MAIN_THREAD_ID)"
    if "idsSorted (selectListedIds g c MAIN_THREAD_ID)"
    using mainThread(1) [OF that] by (simp add: idsWithout_set [OF ids])
  have m2: "listsWithout D (selectOutlyingLists ?g' c MAIN_THREAD_ID)"
    if "listsSorted (selectOutlyingLists g c MAIN_THREAD_ID)"
    using mainThread(2) [OF that] by (simp add: listsWithout_set [OF ids])
  have m3: "idsWithout D (selectPinnedIds ?g' c MAIN_THREAD_ID)"
    if "idsSorted (selectPinnedIds g c MAIN_THREAD_ID)"
    using mainThread(3) [OF that] by (simp add: idsWithout_set [OF ids])
  have m4: "idsWithout D (selectViewportIds ?g' c MAIN_THREAD_ID tab)"
    if "idsSorted (selectViewportIds g c MAIN_THREAD_ID tab)" for tab
    using that by (rule mainThread(4))
  have topic: "(idsSorted (selectListedIds g c T) \<longrightarrow> idsWithout [d] (selectListedIds ?g' c T))
       \<and> (listsSorted (selectOutlyingLists g c T) \<longrightarrow>
            listsWithout [d] (selectOutlyingLists ?g' c T))
       \<and> (idsSorted (selectPinnedIds g c T) \<longrightarrow> idsWithout [d] (selectPinnedIds ?g' c T))
       \<and> (\<forall>tab. idsSorted (selectViewportIds g c T tab) \<longrightarrow>
            idsWithout D (selectViewportIds ?g' c T tab))"
    if d: "d \<in> set D \<and> table d = Some m \<and> threadOf g m = Some T
           \<and> T \<noteq> 0 \<and> T \<noteq> MAIN_THREAD_ID" for T d m
  proof -
    from d ids have "d \<in> set ?ids" by simp
    with d obtain tids where tids: "(T, tids) \<in> set ?threads" "d \<in> set tids"
      using collectThreads_resolved [of d ?ids table m "threadOf g" T] by blast
    note thread = walked [OF tids(1)]
    show ?thesis
    proof (intro conjI impI allI)
      show "idsWithout [d] (selectListedIds ?g' c T)" if "idsSorted (selectListedIds g c T)"
        using thread(1) [OF that] tids(2) by (rule idsWithout_member)
      show "listsWithout [d] (selectOutlyingLists ?g' c T)"
        if "listsSorted (selectOutlyingLists g c T)"
        using thread(2) [OF that] tids(2) by (rule listsWithout_member)
      show "idsWithout [d] (selectPinnedIds ?g' c T)" if "idsSorted (selectPinnedIds g c T)"
        using thread(3) [OF that] tids(2) by (rule idsWithout_member)
      show "idsWithout D (selectViewportIds ?g' c T tab)"
        if "idsSorted (selectViewportIds g c T tab)" for tab
        using that by (rule thread(4))
    qed
  qed
  have quiet: "(selectListedIds ?g' c T = None \<or> selectListedIds ?g' c T = selectListedIds g c T)
       \<and> (selectOutlyingLists ?g' c T = None
            \<or> selectOutlyingLists ?g' c T = selectOutlyingLists g c T)
       \<and> (selectPinnedIds ?g' c T = None \<or> selectPinnedIds ?g' c T = selectPinnedIds g c T)
       \<and> (\<forall>tab. selectViewportIds ?g' c T tab = selectViewportIds g c T tab)"
    if T: "T \<noteq> MAIN_THREAD_ID
           \<and> (\<forall>d \<in> set D. \<forall>m. table d = Some m \<longrightarrow> threadOf g m \<noteq> Some T)" for T
  proof -
    from T ids have "T \<notin> fst ` set ?threads"
      by (intro collectThreads_keys) simp_all
    from deleteChatMessages_unwalked
      [where threadOf = threadOf and D = D and cfg = cfg and isLocal = isLocal, OF assms this]
    show ?thesis
      by blast
  qed
  from table m1 m2 m3 m4 topic quiet show ?thesis
    by (intro conjI allI impI) blast+
qed

lemma ex_topic_table:
  "selectChatMessages ex_topic ''chat'' = Some [7 \<mapsto> ex_m7, 8 \<mapsto> ex_m8]"
  by (simp add: selectChatMessages_def ex_topic_def)

lemma ex_topic_threads:
  "collectThreads (ex_threadOf ex_topic) [7 \<mapsto> ex_m7, 8 \<mapsto> ex_m8] (orderHistoryIds [8, 7])
     = [(MAIN_THREAD_ID, [7, 8]), (5, [7])]"
  by (simp add: collectThreads_def collectThread_def orderHistoryIds_def ex_threadOf_def
      ex_m7_def ex_m8_def emptyMessage_def MAIN_THREAD_ID_def)

lemma ex_topic_posts:
  "deletedForwardedPosts [7 \<mapsto> ex_m7, 8 \<mapsto> ex_m8] (orderHistoryIds [8, 7]) = []"
  by (simp add: deletedForwardedPosts_def pickTruthyValues_def orderHistoryIds_def
      List.map_filter_simps isLinkedPost_def truthyBool_def ex_m7_def ex_m8_def emptyMessage_def)

lemma ex_topic_lists:
  "selectListedIds ex_topic ''chat'' MAIN_THREAD_ID = Some [6, 7, 8]"
  "selectOutlyingLists ex_topic ''chat'' MAIN_THREAD_ID = Some [[7, 9]]"
  "selectPinnedIds ex_topic ''chat'' MAIN_THREAD_ID = Some [7]"
  "selectListedIds ex_topic ''chat'' 5 = Some [7, 8]"
  "selectViewportIds ex_topic ''chat'' MAIN_THREAD_ID 1 = Some [6, 7, 8]"
  by (simp_all add: selectListedIds_def selectOutlyingLists_def selectPinnedIds_def
      selectThreadParam_def selectThread_def selectViewportIds_def selectTabThread_def
      selectTabState_def ex_topic_def MAIN_THREAD_ID_def)

text \<open>
  C1 as stated fails: thread 5 lists the messages 7 and 8, message 7 resolves to thread
  5 and message 8 to the main thread. Deleting both removes only message 7 from the
  list of thread 5; the deleted id 8 stays in it.
\<close>

theorem deleteChatMessages_other_thread_counterexample:
  "selectChatMessages ex_topic ''chat'' \<noteq> None
   \<and> selectListedIds
        (deleteChatMessages ex_cfg ex_threadOf ex_noLocal ex_topic ''chat'' [8, 7]) ''chat'' 5
      = Some [8]"
proof -
  have "selectListedIds
        (deleteChatMessages ex_cfg ex_threadOf ex_noLocal ex_topic ''chat'' [8, 7]) ''chat'' 5
      = selectListedIds
          (deleteThreadMessages ex_noLocal ''chat'' (orderHistoryIds [8, 7])
            (deleteThreadMessages ex_noLocal ''chat'' (orderHistoryIds [8, 7]) ex_topic
               (MAIN_THREAD_ID, [7, 8]))
            (5, [7])) ''chat'' 5"
    by (simp add: deleteChatMessages_run [OF ex_topic_table] ex_topic_threads ex_topic_posts
        selectListedIds_def)
  also have "\<dots> = Some [8]"
    by (simp add: listedIds_deleteThreadMessages ex_topic_lists MAIN_THREAD_ID_def)
  finally show ?thesis
    by (simp add: ex_topic_table)
qed

lemma ex_topic_resolves:
  "ex_threadOf ex_topic ex_m7 = Some 5"
  "ex_threadOf ex_topic ex_m8 = Some MAIN_THREAD_ID"
  by (simp_all add: ex_threadOf_def ex_m7_def ex_m8_def emptyMessage_def)

lemma ex_topic_one:
  "selectListedIds
      (deleteChatMessages ex_cfg ex_threadOf ex_noLocal ex_topic ''chat'' [8]) ''chat'' 5
    = Some [7, 8]"
proof -
  have threads: "collectThreads (ex_threadOf ex_topic) [7 \<mapsto> ex_m7, 8 \<mapsto> ex_m8]
      (orderHistoryIds [8]) = [(MAIN_THREAD_ID, [8])]"
    by (simp add: collectThreads_def collectThread_def orderHistoryIds_def ex_topic_resolves)
  have posts: "deletedForwardedPosts [7 \<mapsto> ex_m7, 8 \<mapsto> ex_m8] (orderHistoryIds [8]) = []"
    by (simp add: deletedForwardedPosts_def pickTruthyValues_def orderHistoryIds_def
        List.map_filter_simps isLinkedPost_def truthyBool_def ex_m8_def emptyMessage_def)
  have "selectListedIds
        (deleteChatMessages ex_cfg ex_threadOf ex_noLocal ex_topic ''chat'' [8]) ''chat'' 5
      = selectListedIds
          (deleteThreadMessages ex_noLocal ''chat'' (orderHistoryIds [8]) ex_topic
             (MAIN_THREAD_ID, [8])) ''chat'' 5"
    by (simp add: deleteChatMessages_run [OF ex_topic_table] threads posts selectListedIds_def)
  also have "\<dots> = Some [7, 8]"
    by (simp add: listedIds_deleteThreadMessages ex_topic_lists MAIN_THREAD_ID_def)
  finally show ?thesis .
qed

text \<open>
  C1 at the same state. Deleting the messages 7 and 8: the main thread, whose lists are
  ascending, holds neither 7 nor 8 afterwards in its listed, outlying and pinned ids
  and in the viewport of tab 1; message 7 resolves to thread 5, which no longer lists
  it. Deleting message 8 alone, which resolves to the main thread: thread 5 is not
  cleaned and lists the ids 7 and 8 as before.
\<close>

theorem deleteChatMessages_removes_witness:
  "selectChatMessages ex_topic ''chat'' = Some [7 \<mapsto> ex_m7, 8 \<mapsto> ex_m8]
   \<and> ex_threadOf ex_topic ex_m7 = Some 5
   \<and> ex_threadOf ex_topic ex_m8 = Some MAIN_THREAD_ID
   \<and> idsSorted (selectListedIds ex_topic ''chat'' MAIN_THREAD_ID)
   \<and> listsSorted (selectOutlyingLists ex_topic ''chat'' MAIN_THREAD_ID)
   \<and> idsSorted (selectPinnedIds ex_topic ''chat'' MAIN_THREAD_ID)
   \<and> idsSorted (selectViewportIds ex_topic ''chat'' MAIN_THREAD_ID 1)
   \<and> idsSorted (selectListedIds ex_topic ''chat'' 5)
   \<and> selectChatMessage
        (deleteChatMessages ex_cfg ex_threadOf ex_noLocal ex_topic ''chat'' [8, 7]) ''chat'' 7 = None
   \<and> selectChatMessage
        (deleteChatMessages ex_cfg ex_threadOf ex_noLocal ex_topic ''chat'' [8, 7]) ''chat'' 8 = None
   \<and> idsWithout [8, 7] (selectListedIds
        (deleteChatMessages ex_cfg ex_threadOf ex_noLocal ex_topic ''chat'' [8, 7])
        ''chat'' MAIN_THREAD_ID)
   \<and> listsWithout [8, 7] (selectOutlyingLists
        (deleteChatMessages ex_cfg ex_threadOf ex_noLocal ex_topic ''chat'' [8, 7])
        ''chat'' MAIN_THREAD_ID)
   \<and> idsWithout [8, 7] (selectPinnedIds
        (deleteChatMessages ex_cfg ex_threadOf ex_noLocal ex_topic ''chat'' [8, 7])
        ''chat'' MAIN_THREAD_ID)
   \<and> idsWithout [8, 7] (selectViewportIds
        (deleteChatMessages ex_cfg ex_threadOf ex_noLocal ex_topic ''chat'' [8, 7])
        ''chat'' MAIN_THREAD_ID 1)
   \<and> idsWithout [7] (selectListedIds
        (deleteChatMessages ex_cfg ex_threadOf ex_noLocal ex_topic ''chat'' [8, 7]) ''chat'' 5)
   \<and> selectListedIds ex_topic ''chat'' 5 = Some [7, 8]
   \<and> selectListedIds
        (deleteChatMessages ex_cfg ex_threadOf ex_noLocal ex_topic ''chat'' [8]) ''chat'' 5
      = selectListedIds ex_topic ''chat'' 5"
proof -
  note removes = deleteChatMessages_removes [OF ex_topic_table, of "[8, 7]" ex_cfg ex_threadOf
      ex_noLocal]
  note one = deleteChatMessages_removes [OF ex_topic_table, of "[8]" ex_cfg ex_threadOf
      ex_noLocal]
  have sorted: "idsSorted (selectListedIds ex_topic ''chat'' MAIN_THREAD_ID)"
    "listsSorted (selectOutlyingLists ex_topic ''chat'' MAIN_THREAD_ID)"
    "idsSorted (selectPinnedIds ex_topic ''chat'' MAIN_THREAD_ID)"
    "idsSorted (selectViewportIds ex_topic ''chat'' MAIN_THREAD_ID 1)"
    "idsSorted (selectListedIds ex_topic ''chat'' 5)"
    by (simp_all add: ex_topic_lists idsSorted_def listsSorted_def)
  note gone = removes [THEN conjunct1]
  note mainListed = removes [THEN conjunct2, THEN conjunct1, rule_format, OF sorted(1)]
  note mainOutlying = removes [THEN conjunct2, THEN conjunct2, THEN conjunct1, rule_format,
      OF sorted(2)]
  note mainPinned = removes [THEN conjunct2, THEN conjunct2, THEN conjunct2, THEN conjunct1,
      rule_format, OF sorted(3)]
  note mainViewport = removes [THEN conjunct2, THEN conjunct2, THEN conjunct2, THEN conjunct2,
      THEN conjunct1, rule_format, OF sorted(4)]
  have resolved: "(7 :: int) \<in> set [8, 7] \<and> [7 \<mapsto> ex_m7, 8 \<mapsto> ex_m8] (7 :: int) = Some ex_m7
      \<and> ex_threadOf ex_topic ex_m7 = Some 5 \<and> (5 :: int) \<noteq> 0 \<and> 5 \<noteq> MAIN_THREAD_ID"
    by (simp add: ex_topic_resolves MAIN_THREAD_ID_def)
  note topic = removes [THEN conjunct2, THEN conjunct2, THEN conjunct2, THEN conjunct2,
      THEN conjunct2, THEN conjunct1, rule_format, OF resolved]
  note topicListed = topic [THEN conjunct1, rule_format, OF sorted(5)]
  have quiet: "5 \<noteq> MAIN_THREAD_ID \<and> (\<forall>d \<in> set [8 :: int]. \<forall>m.
      [7 \<mapsto> ex_m7, 8 \<mapsto> ex_m8] d = Some m \<longrightarrow> ex_threadOf ex_topic m \<noteq> Some 5)"
    by (simp add: ex_topic_resolves MAIN_THREAD_ID_def)
  note kept = one [THEN conjunct2, THEN conjunct2, THEN conjunct2, THEN conjunct2,
      THEN conjunct2, THEN conjunct2, rule_format, OF quiet, THEN conjunct1]
  from kept have same: "selectListedIds
        (deleteChatMessages ex_cfg ex_threadOf ex_noLocal ex_topic ''chat'' [8]) ''chat'' 5
      = selectListedIds ex_topic ''chat'' 5"
    by (simp add: ex_topic_one)
  from gone have messages: "selectChatMessage
        (deleteChatMessages ex_cfg ex_threadOf ex_noLocal ex_topic ''chat'' [8, 7]) ''chat'' 7 = None"
    "selectChatMessage
        (deleteChatMessages ex_cfg ex_threadOf ex_noLocal ex_topic ''chat'' [8, 7]) ''chat'' 8 = None"
    by simp_all
  from mainListed mainOutlying mainPinned mainViewport topicListed same messages sorted
  show ?thesis
    by (simp add: ex_topic_table ex_topic_resolves ex_topic_lists)
qed

subsection \<open>Deleted forwarded posts\<close>

lemma deletedForwardedPosts_member:
  assumes "k \<in> set D" and "table k = Some m" and "isLinkedPost m"
  shows "m \<in> set (deletedForwardedPosts table (orderHistoryIds D))"
proof -
  from assms(1) have "k \<in> set (remdups (sort (orderHistoryIds D)))"
    by (simp add: orderHistoryIds_def)
  with assms(2) have "m \<in> set (pickTruthyValues table (orderHistoryIds D))"
    unfolding pickTruthyValues_def by (force simp: List.map_filter_def)
  with assms(3) show ?thesis
    by (simp add: deletedForwardedPosts_def)
qed

lemma current_tab_exists:
  assumes "selectCurrentMessageList g tab = Some l"
  shows "tab \<in> set (map fst (byTabId g))"
proof (cases "map_of (byTabId g) tab")
  case None
  with assms show ?thesis
    by (simp add: selectCurrentMessageList_def selectTabState_def emptyTabState_def)
next
  case (Some s)
  then have "tab \<in> fst ` set (byTabId g)"
    by (metis domI dom_map_of_conv_image_fst)
  then show ?thesis by simp
qed

lemma current_posts_loop:
  assumes "c \<noteq> []" and "m \<in> set posts" and "msg_id m = Some pid" and "tab \<in> set tabs"
    and "selectCurrentMessageList g tab
      = Some \<lparr>ml_chatId = c, ml_threadId = pid, ml_type = LT_thread\<rparr>"
  shows "selectCurrentMessageList (foldl (resetTab cfg c posts) g tabs) tab
    = Some (mainMessageList c)"
proof (rule foldl_establishes
    [where Pre = "\<lambda>h. selectCurrentMessageList h tab
          = Some \<lparr>ml_chatId = c, ml_threadId = pid, ml_type = LT_thread\<rparr>
        \<or> selectCurrentMessageList h tab = Some (mainMessageList c)"
       and Good = "\<lambda>h. selectCurrentMessageList h tab = Some (mainMessageList c)"
       and a = tab])
  show "selectCurrentMessageList (resetTab cfg c posts h x) tab
        = Some \<lparr>ml_chatId = c, ml_threadId = pid, ml_type = LT_thread\<rparr>
      \<or> selectCurrentMessageList (resetTab cfg c posts h x) tab = Some (mainMessageList c)"
    if "selectCurrentMessageList h tab
        = Some \<lparr>ml_chatId = c, ml_threadId = pid, ml_type = LT_thread\<rparr>
      \<or> selectCurrentMessageList h tab = Some (mainMessageList c)" for h x
  proof (cases "x = tab")
    case True
    with that assms(1-3) show ?thesis
      by (auto simp: current_resetTab_resets current_resetTab_main)
  next
    case False
    with that show ?thesis
      by (simp add: current_resetTab_other)
  qed
  show "selectCurrentMessageList (resetTab cfg c posts h x) tab = Some (mainMessageList c)"
    if "selectCurrentMessageList h tab = Some (mainMessageList c)" for h x
    using that assms(1) by (rule current_resetTab_main [rotated])
  show "selectCurrentMessageList (resetTab cfg c posts h tab) tab = Some (mainMessageList c)"
    if "selectCurrentMessageList h tab
        = Some \<lparr>ml_chatId = c, ml_threadId = pid, ml_type = LT_thread\<rparr>
      \<or> selectCurrentMessageList h tab = Some (mainMessageList c)" for h
    using that assms(1-3) by (auto simp: current_resetTab_resets current_resetTab_main)
qed (use assms in simp_all)

lemma origin_posts_loop:
  assumes "m \<in> set posts" and "forwardOrigin m = Some (fc, fm)"
    and "selectChatMessage g fc fm \<noteq> None" and "tabs \<noteq> []"
  shows "selectThread (foldl (resetTab cfg c posts) g tabs) fc fm = None"
proof (rule foldl_establishes
    [where Pre = "\<lambda>h. selectChatMessage h fc fm \<noteq> None"
       and Good = "\<lambda>h. selectThread h fc fm = None" and a = "hd tabs"])
  show "selectThread (resetTab cfg c posts h (hd tabs)) fc fm = None"
    if "selectChatMessage h fc fm \<noteq> None" for h
    using assms(1,2) that by (rule thread_resetTab_removes)
qed (use assms in \<open>simp_all add: message_resetTab thread_resetTab_gone\<close>)

text \<open>
  C6, as the code has it. Let a message of the table of a chat with a non-empty id be
  deleted whose forward info marks it as a linked channel post. Then every tab whose
  current message list is the thread of that chat keyed by the id of the post, with
  type \<open>'thread'\<close>, has the main thread of the chat as its current message list
  afterwards. And when the origin post of the forward info is in the message table of
  its chat and the state has a tab, the thread keyed by the origin chat and the origin
  message is removed.
\<close>

theorem deleteChatMessages_forwarded_post:
  assumes "selectChatMessages g c = Some table" and "c \<noteq> []"
    and "k \<in> set D" and "table k = Some m" and "isLinkedPost m"
  shows "(\<forall>tab pid. msg_id m = Some pid
            \<and> selectCurrentMessageList g tab
                = Some \<lparr>ml_chatId = c, ml_threadId = pid, ml_type = LT_thread\<rparr>
          \<longrightarrow> selectCurrentMessageList
                (deleteChatMessages cfg threadOf isLocal g c D) tab
              = Some (mainMessageList c))
    \<and> (\<forall>fc fm. forwardOrigin m = Some (fc, fm) \<and> selectChatMessage g fc fm \<noteq> None
            \<and> byTabId g \<noteq> []
          \<longrightarrow> selectThread (deleteChatMessages cfg threadOf isLocal g c D) fc fm = None)"
proof (intro conjI allI impI)
  let ?ids = "orderHistoryIds D"
  let ?posts = "deletedForwardedPosts table ?ids"
  let ?g1 = "foldl (deleteThreadMessages isLocal c ?ids) g
    (collectThreads (threadOf g) table ?ids)"
  from assms(3-5) have post: "m \<in> set ?posts"
    by (rule deletedForwardedPosts_member)
  then have posts: "?posts \<noteq> []"
    by auto
  have run: "deleteChatMessages cfg threadOf isLocal g c D =
      replaceChatMessages (foldl (resetTab cfg c ?posts) ?g1 (map fst (byTabId g)))
        c (omit table ?ids)"
    using posts by (simp add: deleteChatMessages_run [OF assms(1)])
  show "selectCurrentMessageList (deleteChatMessages cfg threadOf isLocal g c D) tab
      = Some (mainMessageList c)"
    if "msg_id m = Some pid
        \<and> selectCurrentMessageList g tab
            = Some \<lparr>ml_chatId = c, ml_threadId = pid, ml_type = LT_thread\<rparr>" for tab pid
  proof -
    from that have "selectCurrentMessageList g tab
        = Some \<lparr>ml_chatId = c, ml_threadId = pid, ml_type = LT_thread\<rparr>"
      by simp
    then have "tab \<in> set (map fst (byTabId g))"
      by (rule current_tab_exists)
    with that assms(2) post
    have "selectCurrentMessageList (foldl (resetTab cfg c ?posts) ?g1 (map fst (byTabId g))) tab
        = Some (mainMessageList c)"
      by (intro current_posts_loop [where m = m and pid = pid]) simp_all
    then show ?thesis
      by (simp add: run)
  qed
  show "selectThread (deleteChatMessages cfg threadOf isLocal g c D) fc fm = None"
    if "forwardOrigin m = Some (fc, fm) \<and> selectChatMessage g fc fm \<noteq> None
        \<and> byTabId g \<noteq> []" for fc fm
  proof -
    from that post
    have "selectThread (foldl (resetTab cfg c ?posts) ?g1 (map fst (byTabId g))) fc fm = None"
      by (intro origin_posts_loop [where m = m]) simp_all
    then show ?thesis
      by (simp add: run)
  qed
qed

lemma listedIds_deleteThreadMessages_other_chat:
  "c' \<noteq> c \<Longrightarrow>
     selectListedIds (deleteThreadMessages isLocal c ids g e) c' T = selectListedIds g c' T"
  by (simp add: deleteThreadMessages_def Let_def listedIds_frames)
    (simp add: selectListedIds_def selectThreadParam_replaceThreadParam
      selectThreadParam_foldl_excludeViewport emptyThread_def)

lemma selectThreadParam_resetCurrentThread [simp]:
  "selectThreadParam (resetCurrentThread cfg c tab can cur g m) c' t key
     = selectThreadParam g c' t key"
  by (simp add: selectThreadParam_def)

lemma ex_comments_facts:
  "selectChatMessages (ex_comments channel) ''group'' = Some [42 \<mapsto> ex_post]"
  "map fst (byTabId (ex_comments channel)) = [1]"
  "selectChatMessage (ex_comments channel) ''channel'' 10 = channel 10"
  "selectListedIds (ex_comments channel) ''channel'' 10 = Some [100]"
  "selectCurrentMessageList (ex_comments channel) 1
     = Some \<lparr>ml_chatId = ''group'', ml_threadId = 42, ml_type = LT_thread\<rparr>"
  by (simp_all add: ex_comments_def selectChatMessages_def selectChatMessage_def
      selectListedIds_def selectThreadParam_def selectThread_def selectCurrentMessageList_def
      selectTabState_def)

lemma ex_post_facts:
  "isLinkedPost ex_post"
  "forwardOrigin ex_post = Some (''channel'', 10)"
  "msg_id ex_post = Some 42"
  by (simp_all add: ex_post_def isLinkedPost_def forwardOrigin_def truthyBool_def
      emptyMessage_def)

lemma ex_comments_posts:
  "deletedForwardedPosts [42 \<mapsto> ex_post] (orderHistoryIds [42]) = [ex_post]"
  by (simp add: deletedForwardedPosts_def pickTruthyValues_def orderHistoryIds_def
      ex_post_facts)

lemma ex_comments_threads:
  "collectThreads (ex_mainOnly g) [42 \<mapsto> ex_post] (orderHistoryIds [42])
     = [(MAIN_THREAD_ID, [42])]"
  by (simp add: collectThreads_def collectThread_def orderHistoryIds_def ex_mainOnly_def)

text \<open>
  C6 as stated fails: message 42 of the group is a linked forwarded channel post whose
  origin is message 10 of the channel, the store holds a thread of the channel keyed by
  10, and message 10 itself is not in the message table of the channel. Deleting
  message 42 leaves that thread entry in the store.
\<close>

theorem deleteChatMessages_origin_counterexample:
  "isLinkedPost ex_post \<and> forwardOrigin ex_post = Some (''channel'', 10)
   \<and> selectChatMessage (ex_comments Map.empty) ''group'' 42 = Some ex_post
   \<and> selectThread
        (deleteChatMessages ex_cfg ex_mainOnly ex_noLocal (ex_comments Map.empty) ''group'' [42])
        ''channel'' 10 \<noteq> None"
proof -
  let ?g = "ex_comments Map.empty"
  let ?g1 = "deleteThreadMessages ex_noLocal ''group'' (orderHistoryIds [42]) ?g
    (MAIN_THREAD_ID, [42])"
  have "selectListedIds
        (deleteChatMessages ex_cfg ex_mainOnly ex_noLocal ?g ''group'' [42]) ''channel'' 10
      = selectListedIds (resetTab ex_cfg ''group'' [ex_post] ?g1 1) ''channel'' 10"
    by (simp add: deleteChatMessages_run [OF ex_comments_facts(1)] ex_comments_posts
        ex_comments_threads ex_comments_facts(2) selectListedIds_def)
  also have "\<dots> = selectListedIds ?g1 ''channel'' 10"
    by (simp add: resetTab_def Let_def resetForwardedPost_unfold ex_post_facts
        ex_comments_facts(3) selectListedIds_def)
  also have "\<dots> = Some [100]"
    by (simp add: listedIds_deleteThreadMessages_other_chat ex_comments_facts)
  finally have "selectThread
        (deleteChatMessages ex_cfg ex_mainOnly ex_noLocal ?g ''group'' [42]) ''channel'' 10
      \<noteq> None"
    by (auto simp: selectListedIds_def selectThreadParam_def split: option.splits)
  moreover have "selectChatMessage ?g ''group'' 42 = Some ex_post"
    by (simp add: selectChatMessage_def ex_comments_facts)
  ultimately show ?thesis
    by (simp add: ex_post_facts)
qed

text \<open>
  C6 at the same store with message 10 in the message table of the channel, and tab 1
  showing thread 42 of the group: after deleting message 42 the tab shows the main
  thread of the group, and the thread of the channel keyed by 10 is gone.
\<close>

theorem deleteChatMessages_forwarded_post_witness:
  "selectChatMessages (ex_comments [10 \<mapsto> ex_origin]) ''group'' = Some [42 \<mapsto> ex_post]
   \<and> ''group'' \<noteq> [] \<and> (42 :: int) \<in> set [42] \<and> isLinkedPost ex_post
   \<and> msg_id ex_post = Some 42
   \<and> selectCurrentMessageList (ex_comments [10 \<mapsto> ex_origin]) 1
       = Some \<lparr>ml_chatId = ''group'', ml_threadId = 42, ml_type = LT_thread\<rparr>
   \<and> forwardOrigin ex_post = Some (''channel'', 10)
   \<and> selectChatMessage (ex_comments [10 \<mapsto> ex_origin]) ''channel'' 10 \<noteq> None
   \<and> byTabId (ex_comments [10 \<mapsto> ex_origin]) \<noteq> []
   \<and> selectListedIds (ex_comments [10 \<mapsto> ex_origin]) ''channel'' 10 = Some [100]
   \<and> selectCurrentMessageList
        (deleteChatMessages ex_cfg ex_mainOnly ex_noLocal (ex_comments [10 \<mapsto> ex_origin])
           ''group'' [42]) 1
       = Some (mainMessageList ''group'')
   \<and> selectThread
        (deleteChatMessages ex_cfg ex_mainOnly ex_noLocal (ex_comments [10 \<mapsto> ex_origin])
           ''group'' [42]) ''channel'' 10
       = None"
proof -
  let ?g = "ex_comments [10 \<mapsto> ex_origin]"
  have member: "(42 :: int) \<in> set [42]" and chat: "''group'' \<noteq> []"
    by simp_all
  have stored: "[42 \<mapsto> ex_post] 42 = Some ex_post"
    by simp
  have loaded: "selectChatMessage ?g ''channel'' 10 \<noteq> None"
    by (simp add: ex_comments_facts)
  have tabs: "byTabId ?g \<noteq> []"
    by (simp add: ex_comments_def)
  note post = deleteChatMessages_forwarded_post
    [OF ex_comments_facts(1) chat member stored ex_post_facts(1),
      of "[10 \<mapsto> ex_origin]" ex_cfg ex_mainOnly ex_noLocal]
  from post [THEN conjunct1, rule_format, of 42 1] ex_post_facts(3) ex_comments_facts(5)
  have view: "selectCurrentMessageList
      (deleteChatMessages ex_cfg ex_mainOnly ex_noLocal ?g ''group'' [42]) 1
    = Some (mainMessageList ''group'')"
    by simp
  from post [THEN conjunct2, rule_format, of "''channel''" 10] ex_post_facts(2) loaded tabs
  have gone: "selectThread
      (deleteChatMessages ex_cfg ex_mainOnly ex_noLocal ?g ''group'' [42]) ''channel'' 10 = None"
    by simp
  from view gone loaded tabs show ?thesis
    by (simp add: ex_comments_facts ex_post_facts)
qed

end
